(* ===== verification/Prelude.thy ===== *)
theory Prelude
  imports Complex_Main
begin

text \<open>
  Shared vocabulary of the LiveTalking development: the Python exceptions that the
  modelled code raises or catches, Python's slicing and rounding on the values the
  code uses, the rate-limited logging timestamp update that recurs in every worker
  loop, and the generic list lemmas the component theories share.  Timestamps
  (\<open>time.time()\<close>, \<open>time.perf_counter()\<close>) and durations are \<open>real\<close>;
  configuration values parsed from the environment as Python floats are \<open>rat\<close>,
  so that \<open>round\<close> and \<open>int\<close> stay executable.
\<close>

named_theorems queue_simps "characteristic equations of the queue primitives"
named_theorems pipeline_simps "characteristic equations of the pipeline operations"

subsection \<open>Python exceptions\<close>

datatype py_error =
    ZeroDivisionError
  | KeyError
  | IndexError
  | QueueFull
  | QueueEmpty
  | SdpaKernelError
  | ModelRuntimeError
  | ModelError

type_synonym timestamp = real

subsection \<open>Environment values\<close>

text \<open>
  A numeric variable: unset, set to blanks, set to text \<open>float()\<close>/\<open>int()\<close>
  rejects, or set to a number.
\<close>

datatype 'a env_num = Unset | Blank | Bad | Num 'a

subsection \<open>Python strings\<close>

text \<open>
  A Python \<open>str\<close> that carries user text (speech, scripts) is its list of code points,
  \<open>ustr\<close>.  Identifiers, command-line tokens and environment values are ASCII and
  are Isabelle \<open>string\<close>s.  \<open>str.isspace\<close> is the Unicode whitespace set that
  \<open>str.strip()\<close> removes.
\<close>

type_synonym ustr = "nat list"

definition py_isspace :: "nat \<Rightarrow> bool" where
  "py_isspace c \<longleftrightarrow>
     (9 \<le> c \<and> c \<le> 13) \<or> (28 \<le> c \<and> c \<le> 32) \<or> c = 133 \<or> c = 160 \<or> c = 5760 \<or>
     (8192 \<le> c \<and> c \<le> 8202) \<or> c = 8232 \<or> c = 8233 \<or> c = 8239 \<or> c = 8287 \<or> c = 12288"

definition strip_by :: "('a \<Rightarrow> bool) \<Rightarrow> 'a list \<Rightarrow> 'a list" where
  "strip_by P xs = rev (dropWhile P (rev (dropWhile P xs)))"

definition py_strip :: "ustr \<Rightarrow> ustr" where
  "py_strip = strip_by py_isspace"

definition py_rstrip :: "ustr \<Rightarrow> ustr" where
  "py_rstrip xs = rev (dropWhile py_isspace (rev xs))"

text \<open>
  On an ASCII value (environment variables, identifiers, command-line tokens) the
  characters are taken as Latin-1 code points: \<open>str.isspace\<close> and \<open>str.lower\<close>
  restricted to that range.
\<close>

definition py_space :: "char \<Rightarrow> bool" where
  "py_space c \<longleftrightarrow> py_isspace (of_char c)"

definition str_strip :: "string \<Rightarrow> string" where
  "str_strip = strip_by py_space"

definition py_lower_char :: "char \<Rightarrow> char" where
  "py_lower_char c =
     (let n = (of_char c :: nat)
      in if 65 \<le> n \<and> n \<le> 90 \<or> 192 \<le> n \<and> n \<le> 222 \<and> n \<noteq> 215 then char_of (n + 32) else c)"

definition py_norm :: "string \<Rightarrow> string" where
  "py_norm s = map py_lower_char (str_strip s)"

text \<open>\<open>os.getenv(key, default).strip().lower()\<close>\<close>

definition getenv_norm :: "string option \<Rightarrow> string \<Rightarrow> string" where
  "getenv_norm v dflt = py_norm (case v of None \<Rightarrow> dflt | Some x \<Rightarrow> x)"

text \<open>
  \<open>int(s)\<close> on a string: surrounding whitespace, an optional sign, then ASCII digits
  with single underscores between digits; anything else raises \<open>ValueError\<close>
  (\<open>None\<close>).
\<close>

definition py_digit :: "char \<Rightarrow> bool" where
  "py_digit c \<longleftrightarrow> 48 \<le> (of_char c :: nat) \<and> (of_char c :: nat) \<le> 57"

fun no_double_underscore :: "string \<Rightarrow> bool" where
  "no_double_underscore (a # b # cs) =
     (\<not> (a = CHR ''_'' \<and> b = CHR ''_'') \<and> no_double_underscore (b # cs))"
| "no_double_underscore _ = True"

definition digits_value :: "string \<Rightarrow> int" where
  "digits_value ds = foldl (\<lambda>n c. 10 * n + int (of_char c - 48)) 0 (filter py_digit ds)"

text \<open>The optional sign in front of a number.\<close>

definition py_sign :: "string \<Rightarrow> bool \<times> string" where
  "py_sign t =
     (case t of
        c # r \<Rightarrow> if c = CHR ''-'' then (True, r) else if c = CHR ''+'' then (False, r) else (False, t)
      | [] \<Rightarrow> (False, []))"

definition py_int :: "string \<Rightarrow> int option" where
  "py_int s =
     (let (neg, ds) = py_sign (str_strip s)
      in if ds \<noteq> [] \<and> py_digit (hd ds) \<and> py_digit (last ds)
            \<and> list_all (\<lambda>c. py_digit c \<or> c = CHR ''_'') ds \<and> no_double_underscore ds
         then Some (if neg then - digits_value ds else digits_value ds) else None)"

text \<open>
  \<open>float(s)\<close> on a decimal numeral: surrounding whitespace, an optional sign, digits
  with at most one point and at least one digit, and an optional exponent
  \<open>e[+-]digits\<close>.  The spellings \<open>inf\<close>/\<open>nan\<close> and underscores in floats are not
  modelled (\<open>None\<close>).
\<close>

definition py_float :: "string \<Rightarrow> rat option" where
  "py_float s =
     (let (neg, r) = py_sign (str_strip s);
          is_e = (\<lambda>c. c = CHR ''e'' \<or> c = CHR ''E'');
          mant = takeWhile (\<lambda>c. \<not> is_e c) r;
          ex = dropWhile (\<lambda>c. \<not> is_e c) r;
          ip = takeWhile (\<lambda>c. c \<noteq> CHR ''.'') mant;
          fp = drop 1 (dropWhile (\<lambda>c. c \<noteq> CHR ''.'') mant);
          (eneg, eds) = py_sign (drop 1 ex);
          e = (if eneg then - digits_value eds else digits_value eds);
          m = of_int (digits_value ip) + of_int (digits_value fp) / 10 ^ length fp
      in if list_all py_digit ip \<and> list_all py_digit fp \<and> (ip \<noteq> [] \<or> fp \<noteq> [])
            \<and> (ex = [] \<or> (eds \<noteq> [] \<and> list_all py_digit eds))
         then Some ((if neg then - m else m) * (if 0 \<le> e then 10 ^ nat e else 1 / 10 ^ nat (- e)))
         else None)"

lemma filter_dropWhile_same [simp]:
  "filter (\<lambda>x. \<not> P x) (dropWhile P xs) = filter (\<lambda>x. \<not> P x) xs"
  by (induction xs) auto

lemma filter_strip_by [simp]:
  "filter (\<lambda>x. \<not> P x) (strip_by P xs) = filter (\<lambda>x. \<not> P x) xs"
  by (simp add: strip_by_def rev_filter [symmetric])

lemma length_strip_by: "length (strip_by P xs) \<le> length xs"
  unfolding strip_by_def
  by (metis length_dropWhile_le length_rev order_trans)

lemma dropWhile_hd_id: "xs = [] \<or> \<not> P (hd xs) \<Longrightarrow> dropWhile P xs = xs"
  by (cases xs) auto

lemma strip_by_idem [simp]: "strip_by P (strip_by P xs) = strip_by P xs"
proof -
  define ys where "ys = dropWhile P xs"
  define zs where "zs = dropWhile P (rev ys)"
  have s: "strip_by P xs = rev zs" by (simp add: strip_by_def ys_def zs_def)
  have y: "ys = [] \<or> \<not> P (hd ys)" unfolding ys_def using hd_dropWhile by blast
  have z: "zs = [] \<or> \<not> P (hd zs)" unfolding zs_def using hd_dropWhile by blast
  have sp: "ys = rev zs @ rev (takeWhile P (rev ys))"
    unfolding zs_def by (metis rev_append rev_rev_ident takeWhile_dropWhile_id)
  have "rev zs = [] \<or> \<not> P (hd (rev zs))"
  proof (cases "rev zs")
    case Nil
    then show ?thesis by simp
  next
    case (Cons a r)
    then have e: "ys = a # (r @ rev (takeWhile P (rev ys)))" using sp by simp
    have "hd ys = a" "ys \<noteq> []" by (subst e, simp)+
    then show ?thesis using y Cons by simp
  qed
  then have "dropWhile P (rev zs) = rev zs" by (rule dropWhile_hd_id)
  moreover have "dropWhile P zs = zs" using z by (rule dropWhile_hd_id)
  ultimately show ?thesis unfolding s by (simp add: strip_by_def)
qed

subsection \<open>Slicing\<close>

text \<open>
  \<open>xs[i:]\<close> for an integer \<open>i\<close>: a negative start counts from the end and is
  clamped at 0, so \<open>xs[-0:]\<close> is the whole list.
\<close>

definition py_slice_from :: "'a list \<Rightarrow> int \<Rightarrow> 'a list" where
  "py_slice_from xs i =
     drop (if i < 0 then nat (int (length xs) + i) else nat i) xs"

text \<open>\<open>xs[a:b]\<close> for non-negative bounds.\<close>

definition py_slice :: "'a list \<Rightarrow> nat \<Rightarrow> nat \<Rightarrow> 'a list" where
  "py_slice xs a b = take (b - a) (drop a xs)"

lemma py_slice_from_neg [simp]:
  "0 < k \<Longrightarrow> py_slice_from xs (- int k) = drop (length xs - k) xs"
  by (simp add: py_slice_from_def nat_diff_distrib')

lemma py_slice_from_zero [simp]: "py_slice_from xs 0 = xs"
  by (simp add: py_slice_from_def)

lemma length_py_slice_from_neg:
  "0 < k \<Longrightarrow> length (py_slice_from xs (- int k)) = min k (length xs)"
  by simp

text \<open>Cutting a list into consecutive pairs, as \<open>audio_frames[i*2:i*2+2]\<close> does.\<close>

lemma concat_pairs:
  "concat (map (\<lambda>i. py_slice xs (i * 2) (i * 2 + 2)) [0..<n]) = take (2 * n) xs"
proof (induction n)
  case 0
  then show ?case by simp
next
  case (Suc n)
  have "take (2 * Suc n) xs = take (2 * n) xs @ take 2 (drop (2 * n) xs)"
    by (simp add: take_add [symmetric] algebra_simps)
  with Suc show ?case by (simp add: py_slice_def mult.commute)
qed

lemma length_py_slice [simp]: "length (py_slice xs a b) = min (b - a) (length xs - a)"
  by (simp add: py_slice_def)

subsection \<open>Rounding\<close>

text \<open>Python's \<open>round\<close> on a float rounds half to even.\<close>

definition py_round :: "rat \<Rightarrow> int" where
  "py_round x =
     (let f = \<lfloor>x\<rfloor>; d = x - of_int f in
      if d < 1 / 2 then f else if 1 / 2 < d then f + 1
      else if even f then f else f + 1)"

lemma py_round_of_int [simp]: "py_round (of_int n) = n"
  by (simp add: py_round_def)

lemma py_round_bounds: "of_int (py_round x) - 1 / 2 \<le> x \<and> x \<le> of_int (py_round x) + 1 / 2"
proof -
  have fl: "of_int \<lfloor>x\<rfloor> \<le> x" "x < of_int \<lfloor>x\<rfloor> + 1"
    using floor_correct [of x] by simp_all
  then show ?thesis
    unfolding py_round_def Let_def
    by (simp split: if_split) linarith
qed

subsection \<open>Rate-limited logging\<close>

text \<open>
  Every loop of the program logs a warning at most once per cooldown:
  \<^verbatim>\<open>if now - self._last_ts >= cooldown: logger.warning(...); self._last_ts = now\<close>.
  The log line itself is not modelled; the timestamp update is.
\<close>

definition rate_limit :: "timestamp \<Rightarrow> timestamp \<Rightarrow> real \<Rightarrow> timestamp" where
  "rate_limit now last_ts cooldown = (if cooldown \<le> now - last_ts then now else last_ts)"

lemma rate_limit_le: "last_ts \<le> now \<Longrightarrow> rate_limit now last_ts c \<le> now"
  by (simp add: rate_limit_def)

lemma rate_limit_ge: "last_ts \<le> rate_limit now last_ts c \<or> rate_limit now last_ts c = now"
  by (simp add: rate_limit_def)

lemma drop_drop_append:
  "b \<le> length L \<Longrightarrow> drop a (drop b L @ xs) = drop (a + b) (L @ xs)"
  by (simp add: add.commute flip: drop_drop)

subsection \<open>Updates of association lists and lists in place\<close>

text \<open>\<open>UPDATE t SET ... WHERE id = ?\<close> on a table kept as an association list.\<close>

lemma map_of_map_at:
  "map_of (map (\<lambda>(k, r). if k = a then (k, f r) else (k, r)) xs) b =
   (if b = a then map_option f (map_of xs b) else map_of xs b)"
  by (induction xs) auto

lemma map_update_same:
  "i < length xs \<Longrightarrow> f (x) = f (xs ! i) \<Longrightarrow> map f (xs[i := x]) = map f xs"
  by (metis list_update_id map_update nth_map)

end
