(* ===== verification/BoundedQueue.thy ===== *)
theory BoundedQueue
  imports Prelude
begin

text \<open>
  The bounded FIFO queues every stage of the pipeline hands data through:
  Python's \<open>queue.Queue(maxsize)\<close> and \<open>multiprocessing.Queue(maxsize)\<close>, which
  the repository only calls.  Their non-blocking operations are modelled from the
  library's documented contract: \<open>maxsize \<le> 0\<close> is an unbounded queue (here
  \<open>qmax = 0\<close>), \<open>put_nowait\<close> raises \<open>queue.Full\<close> on a full queue,
  \<open>get_nowait\<close> raises \<open>queue.Empty\<close> on an empty one.  On top of them sit the
  two loops the repository writes around them: draining a queue
  (\<open>BaseASR._drain_queue_nowait\<close>) and trimming it to a watermark
  (\<open>while q.qsize() > keep: q.get_nowait()\<close>).  The abstraction is the item
  list; the lemmas are the refinement of each operation to a list operation and the
  capacity invariant.
\<close>

record 'a pyqueue =
  qitems :: "'a list"
  qmax :: nat

definition mk_queue :: "nat \<Rightarrow> 'a pyqueue" where
  "mk_queue n = \<lparr>qitems = [], qmax = n\<rparr>"

definition qsize :: "'a pyqueue \<Rightarrow> nat" where
  "qsize q = length (qitems q)"

definition q_full :: "'a pyqueue \<Rightarrow> bool" where
  "q_full q \<longleftrightarrow> 0 < qmax q \<and> qmax q \<le> qsize q"

definition put_nowait :: "'a \<Rightarrow> 'a pyqueue \<Rightarrow> py_error + 'a pyqueue" where
  "put_nowait x q =
     (if q_full q then Inl QueueFull else Inr (q\<lparr>qitems := qitems q @ [x]\<rparr>))"

definition get_nowait :: "'a pyqueue \<Rightarrow> py_error + ('a \<times> 'a pyqueue)" where
  "get_nowait q =
     (case qitems q of
        [] \<Rightarrow> Inl QueueEmpty
      | x # xs \<Rightarrow> Inr (x, q\<lparr>qitems := xs\<rparr>))"

text \<open>The capacity invariant of a bounded queue.\<close>

definition q_wf :: "'a pyqueue \<Rightarrow> bool" where
  "q_wf q \<longleftrightarrow> qmax q = 0 \<or> qsize q \<le> qmax q"

subsection \<open>Loops the repository writes around the queue\<close>

text \<open>
  \<^verbatim>\<open>while q.qsize() > keep:
    try: q.get_nowait(); dropped += 1
    except queue.Empty: break\<close>
  returning the trimmed queue and the number of items dropped.
\<close>

function trim_to :: "nat \<Rightarrow> 'a pyqueue \<Rightarrow> 'a pyqueue \<times> nat" where
  "trim_to keep q =
     (if keep < qsize q then
        (case get_nowait q of
           Inl _ \<Rightarrow> (q, 0)
         | Inr (_, q') \<Rightarrow> (let (q'', n) = trim_to keep q' in (q'', Suc n)))
      else (q, 0))"
  by pat_completeness auto
termination
  by (relation "measure (\<lambda>(keep, q). qsize q)")
     (auto simp: get_nowait_def qsize_def split: list.splits)

text \<open>\<open>BaseASR._drain_queue_nowait\<close>: get until \<open>queue.Empty\<close>.\<close>

function drain_queue :: "'a pyqueue \<Rightarrow> 'a pyqueue" where
  "drain_queue q =
     (case get_nowait q of
        Inl _ \<Rightarrow> q
      | Inr (_, q') \<Rightarrow> drain_queue q')"
  by pat_completeness auto
termination
  by (relation "measure (\<lambda>q. qsize q)")
     (auto simp: get_nowait_def qsize_def split: list.splits)

declare trim_to.simps [simp del] drain_queue.simps [simp del]

subsection \<open>Refinement to list operations\<close>

lemma qsize_simps [simp, queue_simps]:
  "qsize (q\<lparr>qitems := xs\<rparr>) = length xs"
  "qsize (mk_queue n) = 0"
  by (simp_all add: qsize_def mk_queue_def)

lemma put_nowait_eq [queue_simps]:
  "put_nowait x q =
     (if 0 < qmax q \<and> qmax q \<le> length (qitems q) then Inl QueueFull
      else Inr (q\<lparr>qitems := qitems q @ [x]\<rparr>))"
  by (simp add: put_nowait_def q_full_def qsize_def)

lemma put_nowait_Inr:
  "put_nowait x q = Inr q' \<Longrightarrow> qitems q' = qitems q @ [x] \<and> qmax q' = qmax q"
  by (auto simp: put_nowait_def split: if_splits)

lemma put_nowait_room:
  "\<not> q_full q \<Longrightarrow> put_nowait x q = Inr (q\<lparr>qitems := qitems q @ [x]\<rparr>)"
  by (simp add: put_nowait_def)

lemma get_nowait_Cons [simp, queue_simps]:
  "qitems q = x # xs \<Longrightarrow> get_nowait q = Inr (x, q\<lparr>qitems := xs\<rparr>)"
  by (simp add: get_nowait_def)

lemma get_nowait_Nil [simp, queue_simps]:
  "qitems q = [] \<Longrightarrow> get_nowait q = Inl QueueEmpty"
  by (simp add: get_nowait_def)

lemma trim_to_eq:
  "trim_to keep q =
     (q\<lparr>qitems := drop (qsize q - keep) (qitems q)\<rparr>, qsize q - keep)"
proof (induction "qitems q" arbitrary: q)
  case Nil
  then show ?case by (simp add: trim_to.simps [of keep q] qsize_def)
next
  case (Cons x xs q)
  let ?q' = "q\<lparr>qitems := xs\<rparr>"
  have ih: "trim_to keep ?q' = (?q'\<lparr>qitems := drop (length xs - keep) xs\<rparr>, length xs - keep)"
    using Cons.hyps(1) [of ?q'] by (simp add: qsize_def)
  show ?case
  proof (cases "keep < qsize q")
    case True
    with Cons.hyps(2) [symmetric] have "keep \<le> length xs" by (simp add: qsize_def)
    with True Cons.hyps(2) [symmetric] ih show ?thesis
      by (simp add: trim_to.simps [of keep q] qsize_def Suc_diff_le)
  next
    case False
    then show ?thesis by (simp add: trim_to.simps [of keep q] qsize_def)
  qed
qed

lemma trim_to_qsize: "qsize (fst (trim_to keep q)) = min keep (qsize q)"
  by (simp add: trim_to_eq qsize_def)

lemma trim_to_qmax [simp]: "qmax (fst (trim_to keep q)) = qmax q"
  by (simp add: trim_to_eq)

lemma drain_queue_eq [queue_simps]: "drain_queue q = q\<lparr>qitems := []\<rparr>"
proof (induction q rule: drain_queue.induct)
  case (1 q)
  show ?case
    by (cases "qitems q")
       (use "1.IH" in \<open>simp_all add: drain_queue.simps [of q] get_nowait_def\<close>)
qed

subsection \<open>The capacity invariant\<close>

lemma q_wf_mk_queue [simp]: "q_wf (mk_queue n)"
  by (simp add: q_wf_def)

lemma put_nowait_wf: "q_wf q \<Longrightarrow> put_nowait x q = Inr q' \<Longrightarrow> q_wf q'"
  by (auto simp: put_nowait_def q_wf_def q_full_def qsize_def split: if_splits)

lemma get_nowait_wf: "q_wf q \<Longrightarrow> get_nowait q = Inr (x, q') \<Longrightarrow> q_wf q'"
  by (auto simp: get_nowait_def q_wf_def qsize_def split: list.splits)

lemma trim_to_wf: "q_wf q \<Longrightarrow> q_wf (fst (trim_to keep q))"
  by (auto simp: q_wf_def trim_to_qsize)

lemma drain_queue_wf: "q_wf (drain_queue q)"
  by (simp add: drain_queue_eq q_wf_def)

text \<open>
  A policy that appends and, when the queue is full, evicts the oldest element keeps the
  newest \<open>maxsize\<close> elements of everything pushed; \<open>g\<close> selects the queue inside a
  larger state.
\<close>

lemma fold_keeps_newest:
  assumes step: "\<And>x s. q_wf (g s) \<Longrightarrow> 0 < qmax (g s) \<Longrightarrow>
      qitems (g (f x s)) = drop (Suc (length (qitems (g s))) - qmax (g s)) (qitems (g s) @ [x]) \<and>
      qmax (g (f x s)) = qmax (g s)"
    and wf: "q_wf (g s)" "0 < qmax (g s)"
  shows "qitems (g (fold f xs s)) =
           drop (length (qitems (g s)) + length xs - qmax (g s)) (qitems (g s) @ xs) \<and>
         qmax (g (fold f xs s)) = qmax (g s)"
  using wf
proof (induction xs arbitrary: s)
  case Nil
  then show ?case by (simp add: q_wf_def qsize_def)
next
  case (Cons x xs)
  let ?L = "qitems (g s)" and ?m = "qmax (g s)"
  from step [OF Cons.prems] have s1: "qitems (g (f x s)) = drop (Suc (length ?L) - ?m) (?L @ [x])"
    "qmax (g (f x s)) = ?m" by simp_all
  have le: "length ?L \<le> ?m" using Cons.prems by (simp add: q_wf_def qsize_def)
  have "length (qitems (g (f x s))) = Suc (length ?L) - (Suc (length ?L) - ?m)"
    by (simp only: s1(1) length_drop length_append_singleton)
  then have wf1: "q_wf (g (f x s))" using s1(2) le by (simp add: q_wf_def qsize_def; arith)
  have "qitems (g (fold f (x # xs) s)) =
        drop (length (qitems (g (f x s))) + length xs - ?m) (qitems (g (f x s)) @ xs)"
    using Cons.IH [OF wf1] s1 Cons.prems by simp
  also have "\<dots> = drop (length (qitems (g (f x s))) + length xs - ?m + (Suc (length ?L) - ?m)) (?L @ x # xs)"
    unfolding s1(1) by (subst drop_drop_append) simp_all
  also have "length (qitems (g (f x s))) + length xs - ?m + (Suc (length ?L) - ?m) =
             length ?L + length (x # xs) - ?m"
    using le Cons.prems(2) unfolding s1(1) by simp
  finally show ?case using Cons.IH [OF wf1] s1 Cons.prems by simp
qed

end
