(* ===== verification/FrameIndex.thy ===== *)
theory FrameIndex
  imports Prelude
begin

text \<open>
  FrameIndexCycle: the stateless map from the synthesis worker's logical frame
  counter to a position in the avatar's finite asset cycle.  The repository has three
  copies of the same function (\<open>musereal.__mirror_index(size, index)\<close> used by the
  inference worker, \<open>MuseReal.__mirror_index\<close> and \<open>BaseReal.mirror_index\<close> used
  for custom image loops); all three compute the ping-pong traversal below with Python's
  floor division, which raises \<open>ZeroDivisionError\<close> for an empty cycle.
\<close>

definition mirror_res :: "nat \<Rightarrow> nat \<Rightarrow> nat" where
  "mirror_res sz index =
     (let turn = index div sz; res = index mod sz
      in if turn mod 2 = 0 then res else sz - res - 1)"

definition mirror_index :: "nat \<Rightarrow> nat \<Rightarrow> py_error + nat" where
  "mirror_index sz index =
     (if sz = 0 then Inl ZeroDivisionError else Inr (mirror_res sz index))"

subsection \<open>Characteristic lemmas\<close>

lemma mirror_index_pos [simp]: "0 < sz \<Longrightarrow> mirror_index sz i = Inr (mirror_res sz i)"
  by (simp add: mirror_index_def)

lemma mirror_index_zero [simp]: "mirror_index 0 i = Inl ZeroDivisionError"
  by (simp add: mirror_index_def)

lemma mirror_res_lt: "0 < sz \<Longrightarrow> mirror_res sz i < sz"
  by (simp add: mirror_res_def Let_def)

lemma mirror_res_first_turn: "i < sz \<Longrightarrow> mirror_res sz i = i"
  by (simp add: mirror_res_def)

lemma mirror_res_second_turn:
  "sz \<le> i \<Longrightarrow> i < 2 * sz \<Longrightarrow> mirror_res sz i = sz - Suc (i - sz)"
proof -
  assume a: "sz \<le> i" "i < 2 * sz"
  then have "i div sz = 1"
    by (simp add: div_nat_eqI)
  moreover have "i mod sz = i - sz"
    using a by (simp add: le_mod_geq)
  ultimately show ?thesis by (simp add: mirror_res_def)
qed

lemma mirror_res_shift: "mirror_res sz (i + 2 * sz) = mirror_res sz i"
proof (cases "sz = 0")
  case True
  then show ?thesis by (simp add: mirror_res_def)
next
  case False
  then have "(i + 2 * sz) div sz = i div sz + 2"
    by simp
  moreover have "(i + 2 * sz) mod sz = i mod sz"
    by simp
  ultimately show ?thesis by (simp add: mirror_res_def)
qed

lemma mirror_res_Suc:
  assumes "0 < sz"
  shows "mirror_res sz (Suc i) \<le> Suc (mirror_res sz i) \<and> mirror_res sz i \<le> Suc (mirror_res sz (Suc i))"
proof (cases "Suc (i mod sz) = sz")
  case True
  then have "Suc i mod sz = 0" "Suc i div sz = Suc (i div sz)"
    by (simp_all add: mod_Suc div_Suc)
  moreover have "\<And>t::nat. Suc t mod 2 = 0 \<longleftrightarrow> t mod 2 \<noteq> 0"
    by presburger
  ultimately show ?thesis using True
    by (auto simp: mirror_res_def Let_def)
next
  case False
  then have "Suc i mod sz = Suc (i mod sz)" "Suc i div sz = i div sz"
    using assms by (simp_all add: mod_Suc div_Suc)
  with False assms show ?thesis
    by (auto simp: mirror_res_def Let_def)
qed

subsection \<open>Properties of the traversal\<close>

text \<open>
  For a non-empty asset cycle the mirror index never raises and always names a
  position inside the cycle, so \<open>frame_list_cycle[idx]\<close> never reads out of range.
\<close>

theorem mirror_index_bounds: "0 < sz \<Longrightarrow> \<exists>m. mirror_index sz i = Inr m \<and> m < sz"
  by (simp add: mirror_res_lt)

text \<open>The traversal is periodic with period \<open>2 * size\<close>.\<close>

theorem mirror_index_period: "mirror_index sz (i + 2 * sz) = mirror_index sz i"
  by (simp add: mirror_index_def mirror_res_shift)

text \<open>
  One period visits the cycle forwards and then backwards (ping-pong), so every
  asset position is shown exactly twice per period.
\<close>

theorem mirror_index_pingpong:
  "map (mirror_index sz) [0..<2 * sz] = map Inr ([0..<sz] @ rev [0..<sz])"
proof (rule nth_equalityI)
  show "length (map (mirror_index sz) [0..<2 * sz]) =
        length (map Inr ([0..<sz] @ rev [0..<sz]) :: (py_error + nat) list)"
    by simp
next
  fix k assume "k < length (map (mirror_index sz) [0..<2 * sz])"
  then have k: "k < 2 * sz" by simp
  then have sz: "0 < sz" by simp
  show "map (mirror_index sz) [0..<2 * sz] ! k = map Inr ([0..<sz] @ rev [0..<sz]) ! k"
  proof (cases "k < sz")
    case True
    with k sz show ?thesis by (simp add: nth_append mirror_res_first_turn)
  next
    case False
    with k sz show ?thesis
      by (simp add: nth_append rev_nth mirror_res_second_turn)
  qed
qed

text \<open>
  Consecutive logical frames map to asset positions at most one apart, also at
  the turn-around points, so the idle avatar never visibly jumps.
\<close>

theorem mirror_index_continuous:
  "mirror_index sz i = Inr a \<Longrightarrow> mirror_index sz (Suc i) = Inr b \<Longrightarrow> a \<le> Suc b \<and> b \<le> Suc a"
  by (cases "sz = 0") (auto dest: mirror_res_Suc [of sz i])

theorem mirror_index_bounds_witness:
  "0 < (3::nat) \<and> mirror_index 3 7 = Inr 1 \<and> (1::nat) < 3"
  using mirror_index_bounds [of 3 7] by (simp add: mirror_res_def)

theorem mirror_index_continuous_witness:
  "mirror_index 3 5 = Inr 0 \<and> mirror_index 3 6 = Inr 0 \<and> (0::nat) \<le> Suc 0"
  using mirror_index_continuous [of 3 5 0 0] by (simp add: mirror_res_def)

end
