(* ===== verification/CustomState.thy ===== *)
theory CustomState
  imports Prelude
begin

text \<open>
  Custom-state playback (\<open>BaseReal\<close> in \<open>src/basereal.py\<close>): the avatar can loop a
  named alternate clip (audio samples and images) instead of the idle background.  The
  state is five fields of \<open>BaseReal\<close>: \<open>curr_state\<close> (0 normal, 1 silent, any
  other value a custom audio type), and four dictionaries keyed by audio type.  Dictionary
  reads are Python subscripts, so a missing key raises \<open>KeyError\<close>; the invariant
  below shows that no reachable state makes \<open>get_audio_stream\<close> raise.
\<close>

record ('s, 'img) custom_state =
  curr_state :: int
  custom_img_cycle :: "int \<rightharpoonup> 'img list"
  custom_audio_cycle :: "int \<rightharpoonup> 's list"
  custom_audio_index :: "int \<rightharpoonup> nat"
  custom_index :: "int \<rightharpoonup> nat"

text \<open>A custom clip from \<open>opt.customopt\<close>: audio type, images, audio samples.\<close>

type_synonym ('s, 'img) custom_item = "int \<times> 'img list \<times> 's list"

text \<open>\<open>BaseReal.__init__\<close> (the custom fields) followed by \<open>__loadcustom\<close>.\<close>

definition add_custom_item ::
  "('s, 'img) custom_item \<Rightarrow> ('s, 'img) custom_state \<Rightarrow> ('s, 'img) custom_state" where
  "add_custom_item item st =
     (case item of (t, imgs, audio) \<Rightarrow>
        st\<lparr>custom_img_cycle := (custom_img_cycle st)(t \<mapsto> imgs),
           custom_audio_cycle := (custom_audio_cycle st)(t \<mapsto> audio),
           custom_audio_index := (custom_audio_index st)(t \<mapsto> 0),
           custom_index := (custom_index st)(t \<mapsto> 0)\<rparr>)"

definition load_custom :: "('s, 'img) custom_item list \<Rightarrow> ('s, 'img) custom_state" where
  "load_custom items =
     fold add_custom_item items
          \<lparr>curr_state = 0, custom_img_cycle = Map.empty, custom_audio_cycle = Map.empty,
           custom_audio_index = Map.empty, custom_index = Map.empty\<rparr>"

definition reset_values :: "(int \<rightharpoonup> nat) \<Rightarrow> (int \<rightharpoonup> nat)" where
  "reset_values m = (\<lambda>k. map_option (\<lambda>_. 0) (m k))"

definition init_customindex :: "('s, 'img) custom_state \<Rightarrow> ('s, 'img) custom_state" where
  "init_customindex st =
     st\<lparr>curr_state := 0,
        custom_audio_index := reset_values (custom_audio_index st),
        custom_index := reset_values (custom_index st)\<rparr>"

text \<open>
  \<open>get_audio_stream(audiotype)\<close>: the next \<open>chunk\<close> samples of the clip; when the
  read position reaches the end of the clip the state falls back to silent (1).
\<close>

definition get_audio_stream ::
  "nat \<Rightarrow> int \<Rightarrow> ('s, 'img) custom_state \<Rightarrow> py_error + ('s list \<times> ('s, 'img) custom_state)" where
  "get_audio_stream chunk t st =
     (case custom_audio_index st t of
        None \<Rightarrow> Inl KeyError
      | Some idx \<Rightarrow>
          (case custom_audio_cycle st t of
             None \<Rightarrow> Inl KeyError
           | Some cyc \<Rightarrow>
               (let stream = py_slice cyc idx (idx + chunk);
                    idx' = idx + chunk;
                    st' = st\<lparr>custom_audio_index := (custom_audio_index st)(t \<mapsto> idx')\<rparr>
                in Inr (stream, if length cyc \<le> idx' then st'\<lparr>curr_state := 1\<rparr> else st'))))"

definition set_custom_state ::
  "int \<Rightarrow> bool \<Rightarrow> ('s, 'img) custom_state \<Rightarrow> ('s, 'img) custom_state" where
  "set_custom_state t reinit st =
     (if custom_audio_index st t = None then st
      else (let st' = st\<lparr>curr_state := t\<rparr>
            in if reinit
               then st'\<lparr>custom_audio_index := (custom_audio_index st)(t \<mapsto> 0),
                        custom_index := (custom_index st)(t \<mapsto> 0)\<rparr>
               else st'))"

subsection \<open>The key invariant\<close>

text \<open>
  Every dictionary has the same keys, and a custom \<open>curr_state\<close> (\<open>> 1\<close>) is one
  of them.
\<close>

definition custom_wf :: "('s, 'img) custom_state \<Rightarrow> bool" where
  "custom_wf st \<longleftrightarrow>
     dom (custom_audio_index st) = dom (custom_audio_cycle st) \<and>
     dom (custom_index st) = dom (custom_audio_cycle st) \<and>
     dom (custom_img_cycle st) = dom (custom_audio_cycle st) \<and>
     (1 < curr_state st \<longrightarrow> curr_state st \<in> dom (custom_audio_cycle st))"

lemma dom_reset_values [simp]: "dom (reset_values m) = dom m"
  by (auto simp: reset_values_def)

lemma add_custom_item_wf:
  "custom_wf st \<Longrightarrow> curr_state st = 0 \<Longrightarrow>
   custom_wf (add_custom_item item st) \<and> curr_state (add_custom_item item st) = 0"
  by (cases item) (auto simp: custom_wf_def add_custom_item_def)

lemma fold_add_custom_item_wf:
  "custom_wf st \<Longrightarrow> curr_state st = 0 \<Longrightarrow> custom_wf (fold add_custom_item items st)"
proof (induction items arbitrary: st)
  case Nil
  then show ?case by simp
next
  case (Cons a items)
  then show ?case using add_custom_item_wf [of st a] by simp
qed

lemma load_custom_wf: "custom_wf (load_custom items)"
  unfolding load_custom_def
  by (rule fold_add_custom_item_wf) (simp_all add: custom_wf_def)

lemma init_customindex_wf: "custom_wf st \<Longrightarrow> custom_wf (init_customindex st)"
  by (simp add: custom_wf_def init_customindex_def)

lemma set_custom_state_wf: "custom_wf st \<Longrightarrow> custom_wf (set_custom_state t reinit st)"
  by (auto simp: custom_wf_def set_custom_state_def Let_def)

lemma get_audio_stream_wf:
  assumes wf: "custom_wf st" and r: "get_audio_stream c t st = Inr (s, st')"
  shows "custom_wf st'"
proof -
  from r obtain idx cyc where idx: "custom_audio_index st t = Some idx"
    and cyc: "custom_audio_cycle st t = Some cyc"
    and st': "st' = (if length cyc \<le> idx + c
                     then st\<lparr>custom_audio_index := (custom_audio_index st)(t \<mapsto> idx + c),
                             curr_state := 1\<rparr>
                     else st\<lparr>custom_audio_index := (custom_audio_index st)(t \<mapsto> idx + c)\<rparr>)"
    by (auto simp: get_audio_stream_def Let_def split: option.splits)
  have "dom ((custom_audio_index st)(t \<mapsto> idx + c)) = dom (custom_audio_index st)"
    using idx by auto
  with wf st' show ?thesis
    by (simp add: custom_wf_def)
qed

lemma get_audio_stream_ok:
  assumes "custom_wf st" "t \<in> dom (custom_audio_cycle st)"
  shows "\<exists>cyc idx. custom_audio_cycle st t = Some cyc \<and> custom_audio_index st t = Some idx \<and>
           get_audio_stream c t st =
             Inr (py_slice cyc idx (idx + c),
                  (if length cyc \<le> idx + c
                   then st\<lparr>custom_audio_index := (custom_audio_index st)(t \<mapsto> idx + c),
                           curr_state := 1\<rparr>
                   else st\<lparr>custom_audio_index := (custom_audio_index st)(t \<mapsto> idx + c)\<rparr>))"
proof -
  from assms obtain cyc where cyc: "custom_audio_cycle st t = Some cyc" by auto
  from assms have "t \<in> dom (custom_audio_index st)" by (simp add: custom_wf_def)
  then obtain idx where idx: "custom_audio_index st t = Some idx" by auto
  show ?thesis using cyc idx by (simp add: get_audio_stream_def Let_def)
qed

lemma get_audio_stream_frame [simp]:
  "curr_state (st\<lparr>custom_audio_index := m\<rparr>) = curr_state st"
  "custom_audio_cycle (st\<lparr>custom_audio_index := m\<rparr>) = custom_audio_cycle st"
  by simp_all

end
