(* ===== verification/AudioIngest.thy ===== *)
theory AudioIngest
  imports BoundedQueue CustomState
begin

text \<open>
  AudioIngestQueue: \<open>BaseASR\<close> in \<open>src/baseasr.py\<close>.  The constructor resolves the
  overflow policy and the queue sizes from the environment; \<open>put_audio_frame\<close> is
  the TTS producer's entry point (block or drop policy); \<open>get_audio_frame\<close> is the
  consumer's, falling back to a custom clip or to silence when no chunk is queued;
  \<open>warm_up\<close> primes the feature window and \<open>flush_talk\<close> drains the three
  queues.  A chunk is a list of samples; the chunk's \<open>datainfo\<close> travels with it as
  the event marker.
\<close>

datatype overflow_mode = Drop | Block

subsection \<open>Environment values\<close>

definition truthy :: "string \<Rightarrow> bool" where
  "truthy s \<longleftrightarrow> s \<in> {''1'', ''true'', ''yes''}"

record asr_env =
  env_audio_overflow_mode :: "string option"
  env_prefer_reliable :: "string option"
  env_allow_block :: "string option"
  env_audio_queue_seconds :: "rat env_num"
  env_musetalk_audio_queue_seconds :: "rat env_num"
  env_feat_queue_size :: "int env_num"
  env_musetalk_feat_queue_size :: "int env_num"
  env_feat_overflow_mode :: "string option"

subsection \<open>Configuration (\<open>BaseASR.__init__\<close>, \<open>MuseASR.__init__\<close>)\<close>

definition prefer_reliable :: "asr_env \<Rightarrow> bool" where
  "prefer_reliable env =
     (let p = truthy (getenv_norm (env_prefer_reliable env) ''1'')
      in case env_allow_block env of
           Some v \<Rightarrow> if py_norm v \<noteq> [] then truthy (py_norm v) else p
         | None \<Rightarrow> p)"

definition resolve_audio_mode :: "string \<Rightarrow> asr_env \<Rightarrow> overflow_mode" where
  "resolve_audio_mode model env =
     (let m = getenv_norm (env_audio_overflow_mode env) ''auto'';
          m = (if m \<in> {''auto'', ''drop'', ''block''} then m else ''auto'')
      in if m = ''auto''
         then (if model = ''musetalk'' then (if prefer_reliable env then Block else Drop) else Block)
         else if m = ''drop'' then Drop else Block)"

definition audio_queue_seconds :: "string \<Rightarrow> overflow_mode \<Rightarrow> asr_env \<Rightarrow> rat" where
  "audio_queue_seconds model mode env =
     (let dflt = (if mode = Drop then 1 else 8);
          base = env_audio_queue_seconds env;
          chosen = (if model = ''musetalk'' \<and> env_musetalk_audio_queue_seconds env \<notin> {Unset, Blank}
                    then env_musetalk_audio_queue_seconds env else base);
          secs = (case chosen of Num v \<Rightarrow> v | _ \<Rightarrow> dflt)
      in max (1 / 10) secs)"

definition max_audio_queue_chunks :: "nat \<Rightarrow> overflow_mode \<Rightarrow> rat \<Rightarrow> nat" where
  "max_audio_queue_chunks fps mode secs =
     (let rounded = nat (py_round (secs * of_nat fps))
      in if mode = Drop then max (max 8 (fps div 2)) rounded else max fps rounded)"

definition feat_queue_size :: "string \<Rightarrow> overflow_mode \<Rightarrow> asr_env \<Rightarrow> nat" where
  "feat_queue_size model mode env =
     (let dflt = (if model = ''musetalk'' \<and> mode = Block then 8 else 2);
          raw = (if model = ''musetalk'' then env_musetalk_feat_queue_size env
                 else env_feat_queue_size env);
          v = (case raw of Num n \<Rightarrow> n | _ \<Rightarrow> dflt)
      in nat (max 1 (min 64 v)))"

definition resolve_feat_mode :: "asr_env \<Rightarrow> overflow_mode" where
  "resolve_feat_mode env =
     (let m = getenv_norm (env_feat_overflow_mode env) ''auto'';
          m = (if m \<in> {''auto'', ''drop'', ''block''} then m else ''auto'')
      in if m = ''auto''
         then (if truthy (getenv_norm (env_prefer_reliable env) ''1'') then Block else Drop)
         else if m = ''drop'' then Drop else Block)"

record asr_config =
  cfg_fps :: nat
  cfg_chunk :: nat
  cfg_mode :: overflow_mode
  cfg_max_chunks :: nat
  cfg_batch_size :: nat
  cfg_l :: nat
  cfg_r :: nat
  cfg_feat_qmax :: nat
  cfg_feat_mode :: overflow_mode

text \<open>
  \<open>self.chunk = self.sample_rate // self.fps\<close> raises for \<open>fps = 0\<close>; the model name is
  lower-cased by the constructor.
\<close>

definition asr_config_of ::
  "nat \<Rightarrow> string \<Rightarrow> asr_env \<Rightarrow> nat \<Rightarrow> nat \<Rightarrow> nat \<Rightarrow> py_error + asr_config" where
  "asr_config_of fps model_raw env bs l r =
     (if fps = 0 then Inl ZeroDivisionError
      else (let model = map py_lower_char model_raw;
                mode = resolve_audio_mode model env
            in Inr \<lparr>cfg_fps = fps, cfg_chunk = 16000 div fps, cfg_mode = mode,
                    cfg_max_chunks = max_audio_queue_chunks fps mode (audio_queue_seconds model mode env),
                    cfg_batch_size = bs, cfg_l = l, cfg_r = r,
                    cfg_feat_qmax = feat_queue_size model mode env,
                    cfg_feat_mode = resolve_feat_mode env\<rparr>))"

subsection \<open>State\<close>

text \<open>
  An entry of the output queue: \<open>(frame, type, eventpoint)\<close>, type 0 for speech,
  1 for silence, a custom audio type otherwise.
\<close>

type_synonym ('s, 'e) audio_entry = "'s list \<times> int \<times> 'e option"

record ('s, 'e, 'f) asr_state =
  asr_queue :: "('s list \<times> 'e) pyqueue"
  asr_output :: "('s, 'e) audio_entry pyqueue"
  asr_feat :: "'f pyqueue"
  asr_frames :: "'s list list"
  dropped_audio_chunks :: nat
  last_drop_log_ts :: timestamp
  dropped_feat_chunks :: nat
  last_feat_drop_log_ts :: timestamp

definition asr_init :: "asr_config \<Rightarrow> ('s, 'e, 'f) asr_state" where
  "asr_init cfg =
     \<lparr>asr_queue = mk_queue (cfg_max_chunks cfg), asr_output = mk_queue 0,
      asr_feat = mk_queue (cfg_feat_qmax cfg), asr_frames = [],
      dropped_audio_chunks = 0, last_drop_log_ts = 0,
      dropped_feat_chunks = 0, last_feat_drop_log_ts = 0\<rparr>"

text \<open>\<open>mp.Queue()\<close> without a bound: \<open>put\<close> appends and never raises.\<close>

definition put_unbounded :: "'a \<Rightarrow> 'a pyqueue \<Rightarrow> 'a pyqueue" where
  "put_unbounded x q = q\<lparr>qitems := qitems q @ [x]\<rparr>"

subsection \<open>The producer: \<open>put_audio_frame\<close>\<close>

text \<open>
  Block policy: one attempt of \<open>queue.put(block=True, timeout)\<close>; \<open>None\<close> is a timeout,
  after which the source loops (\<open>continue\<close>) and tries again.
\<close>

definition put_audio_block ::
  "'s list \<Rightarrow> 'e \<Rightarrow> ('s, 'e, 'f) asr_state \<Rightarrow> ('s, 'e, 'f) asr_state option" where
  "put_audio_block x info st =
     (case put_nowait (x, info) (asr_queue st) of
        Inl _ \<Rightarrow> None
      | Inr q \<Rightarrow> Some (st\<lparr>asr_queue := q\<rparr>))"

definition keep_recent :: "asr_config \<Rightarrow> nat" where
  "keep_recent cfg = max 1 (cfg_fps cfg div 2)"

definition account_drops ::
  "timestamp \<Rightarrow> nat \<Rightarrow> ('s list \<times> 'e) pyqueue \<Rightarrow> ('s, 'e, 'f) asr_state \<Rightarrow> ('s, 'e, 'f) asr_state" where
  "account_drops now n q st =
     (if 0 < n
      then st\<lparr>asr_queue := q, dropped_audio_chunks := dropped_audio_chunks st + n,
              last_drop_log_ts := rate_limit now (last_drop_log_ts st) 2\<rparr>
      else st\<lparr>asr_queue := q\<rparr>)"

text \<open>
  The non-blocking path: proactive trim to \<open>keep_recent\<close> (drop policy), \<open>put_nowait\<close>
  and an early \<open>return\<close> on success; on \<open>queue.Full\<close> a second trim and a last
  \<open>put_nowait\<close>, dropping the incoming chunk if that fails too; then the drop counter.
\<close>

definition put_audio_nonblock ::
  "asr_config \<Rightarrow> timestamp \<Rightarrow> 's list \<Rightarrow> 'e \<Rightarrow> ('s, 'e, 'f) asr_state \<Rightarrow> ('s, 'e, 'f) asr_state" where
  "put_audio_nonblock cfg now x info st =
     (let keep = keep_recent cfg;
          (q1, d1) = (if cfg_mode cfg = Drop then trim_to keep (asr_queue st) else (asr_queue st, 0))
      in case put_nowait (x, info) q1 of
           Inr q2 \<Rightarrow> st\<lparr>asr_queue := q2\<rparr>
         | Inl _ \<Rightarrow>
             (let (q3, d2) = trim_to keep q1
              in case put_nowait (x, info) q3 of
                   Inr q4 \<Rightarrow> account_drops now (d1 + d2) q4 st
                 | Inl _ \<Rightarrow> account_drops now (d1 + d2 + 1) q3 st))"

definition put_audio_frame ::
  "asr_config \<Rightarrow> timestamp \<Rightarrow> 's list \<Rightarrow> 'e \<Rightarrow> ('s, 'e, 'f) asr_state \<Rightarrow> ('s, 'e, 'f) asr_state option" where
  "put_audio_frame cfg now x info st =
     (if cfg_mode cfg = Block then put_audio_block x info st
      else Some (put_audio_nonblock cfg now x info st))"

subsection \<open>The consumer: \<open>get_audio_frame\<close>\<close>

text \<open>
  \<open>queue.get(block=True, timeout)\<close> yields the oldest chunk as speech (type 0) with its
  \<open>datainfo\<close> as event marker; on timeout a chunk of the active custom clip (typed with
  \<open>curr_state\<close> read after the clip advanced) or \<open>chunk\<close> zero samples typed silence.
\<close>

definition get_audio_frame ::
  "asr_config \<Rightarrow> ('s::zero, 'e, 'f) asr_state \<Rightarrow> ('s, 'img) custom_state \<Rightarrow>
   py_error + (('s, 'e) audio_entry \<times> ('s, 'e, 'f) asr_state \<times> ('s, 'img) custom_state)" where
  "get_audio_frame cfg st cs =
     (case get_nowait (asr_queue st) of
        Inr ((frame, info), q') \<Rightarrow> Inr ((frame, 0, Some info), st\<lparr>asr_queue := q'\<rparr>, cs)
      | Inl _ \<Rightarrow>
          (if 1 < curr_state cs then
             (case get_audio_stream (cfg_chunk cfg) (curr_state cs) cs of
                Inl e \<Rightarrow> Inl e
              | Inr (frame, cs') \<Rightarrow> Inr ((frame, curr_state cs', None), st, cs'))
           else Inr ((replicate (cfg_chunk cfg) 0, 1, None), st, cs)))"

text \<open>
  The loop body shared by \<open>warm_up\<close> and \<open>MuseASR.run_step\<close>: get a frame, append
  it to \<open>self.frames\<close>, put the entry on the output queue; \<open>n\<close> times.
\<close>

fun pull_frames ::
  "asr_config \<Rightarrow> nat \<Rightarrow> ('s::zero, 'e, 'f) asr_state \<Rightarrow> ('s, 'img) custom_state \<Rightarrow>
   py_error + (('s, 'e, 'f) asr_state \<times> ('s, 'img) custom_state)" where
  "pull_frames cfg 0 st cs = Inr (st, cs)"
| "pull_frames cfg (Suc n) st cs =
     (case get_audio_frame cfg st cs of
        Inl e \<Rightarrow> Inl e
      | Inr (entry, st', cs') \<Rightarrow>
          pull_frames cfg n
            (st'\<lparr>asr_frames := asr_frames st' @ [fst entry],
                 asr_output := put_unbounded entry (asr_output st')\<rparr>) cs')"

text \<open>\<open>warm_up\<close>: \<open>l + r\<close> frames, then the first \<open>l\<close> output entries are dropped.\<close>

definition warm_up ::
  "asr_config \<Rightarrow> ('s::zero, 'e, 'f) asr_state \<Rightarrow> ('s, 'img) custom_state \<Rightarrow>
   py_error + (('s, 'e, 'f) asr_state \<times> ('s, 'img) custom_state)" where
  "warm_up cfg st cs =
     (case pull_frames cfg (cfg_l cfg + cfg_r cfg) st cs of
        Inl e \<Rightarrow> Inl e
      | Inr (st', cs') \<Rightarrow>
          Inr (st'\<lparr>asr_output := (asr_output st')\<lparr>qitems := drop (cfg_l cfg) (qitems (asr_output st'))\<rparr>\<rparr>, cs'))"

text \<open>\<open>flush_talk\<close>: drain the input, output and feature queues.\<close>

definition flush_talk :: "('s, 'e, 'f) asr_state \<Rightarrow> ('s, 'e, 'f) asr_state" where
  "flush_talk st =
     st\<lparr>asr_queue := drain_queue (asr_queue st),
        asr_output := drain_queue (asr_output st),
        asr_feat := drain_queue (asr_feat st)\<rparr>"

subsection \<open>The producer and consumer threads interleaved\<close>

text \<open>
  The TTS thread pushes its chunks one by one (\<open>Produce\<close>: one attempt of
  \<open>put_audio_frame\<close>; under the block policy a timed-out attempt leaves the chunk
  pending and the thread retries it); the feature thread pulls (\<open>Consume\<close>: one
  \<open>get_audio_frame\<close>).  A schedule is any sequence of the two steps.
\<close>

record ('s, 'e, 'f, 'img) ingest_sys =
  pending :: "('s list \<times> 'e) list"
  ing_asr :: "('s, 'e, 'f) asr_state"
  ing_custom :: "('s, 'img) custom_state"
  consumed :: "('s, 'e) audio_entry list"

datatype ingest_event = Produce timestamp | Consume

fun ingest_step ::
  "asr_config \<Rightarrow> ingest_event \<Rightarrow> ('s::zero, 'e, 'f, 'img) ingest_sys \<Rightarrow> py_error + ('s, 'e, 'f, 'img) ingest_sys" where
  "ingest_step cfg (Produce now) sys =
     (case pending sys of
        [] \<Rightarrow> Inr sys
      | (x, i) # rest \<Rightarrow>
          (case put_audio_frame cfg now x i (ing_asr sys) of
             None \<Rightarrow> Inr sys
           | Some st' \<Rightarrow> Inr (sys\<lparr>pending := rest, ing_asr := st'\<rparr>)))"
| "ingest_step cfg Consume sys =
     (case get_audio_frame cfg (ing_asr sys) (ing_custom sys) of
        Inl e \<Rightarrow> Inl e
      | Inr (entry, st', cs') \<Rightarrow>
          Inr (sys\<lparr>ing_asr := st', ing_custom := cs', consumed := consumed sys @ [entry]\<rparr>))"

fun ingest_run ::
  "asr_config \<Rightarrow> ingest_event list \<Rightarrow> ('s::zero, 'e, 'f, 'img) ingest_sys \<Rightarrow> py_error + ('s, 'e, 'f, 'img) ingest_sys" where
  "ingest_run cfg [] sys = Inr sys"
| "ingest_run cfg (ev # evs) sys =
     (case ingest_step cfg ev sys of Inl e \<Rightarrow> Inl e | Inr sys' \<Rightarrow> ingest_run cfg evs sys')"

definition speech_chunks :: "('s, 'e) audio_entry list \<Rightarrow> ('s list \<times> 'e) list" where
  "speech_chunks es = List.map_filter (\<lambda>(f, t, i). if t = 0 then map_option (Pair f) i else None) es"

subsection \<open>Configuration bounds\<close>

text \<open>
  The constructor either raises for \<open>fps = 0\<close> or yields a configuration whose
  ingest capacity is at least \<open>max 8 (fps // 2)\<close> under the drop policy (so at least the
  keep watermark) and at least \<open>fps\<close> chunks under the block policy, and whose feature
  queue holds between 1 and 64 batches.
\<close>

theorem asr_config_bounds:
  assumes "asr_config_of fps model env bs l r = Inr cfg"
  shows "0 < fps \<and> cfg_chunk cfg = 16000 div fps \<and> 0 < cfg_max_chunks cfg \<and>
         (cfg_mode cfg = Drop \<longrightarrow> max 8 (fps div 2) \<le> cfg_max_chunks cfg \<and>
                                keep_recent cfg \<le> cfg_max_chunks cfg) \<and>
         (cfg_mode cfg = Block \<longrightarrow> fps \<le> cfg_max_chunks cfg) \<and>
         1 \<le> cfg_feat_qmax cfg \<and> cfg_feat_qmax cfg \<le> 64"
proof -
  from assms have fps: "0 < fps" by (auto simp: asr_config_of_def split: if_splits)
  from assms fps have cfg: "cfg_fps cfg = fps \<and> cfg_chunk cfg = 16000 div fps \<and>
      cfg_max_chunks cfg = max_audio_queue_chunks fps (cfg_mode cfg)
        (audio_queue_seconds (map py_lower_char model) (cfg_mode cfg) env) \<and>
      cfg_feat_qmax cfg = feat_queue_size (map py_lower_char model) (cfg_mode cfg) env"
    by (auto simp: asr_config_of_def Let_def)
  have clamp: "1 \<le> nat (max 1 (min 64 v)) \<and> nat (max 1 (min 64 v)) \<le> 64" for v :: int
    by linarith
  have fq: "1 \<le> feat_queue_size m md env \<and> feat_queue_size m md env \<le> 64" for m md
    unfolding feat_queue_size_def Let_def by (rule clamp)
  have mq: "(md = Drop \<longrightarrow> max 8 (fps div 2) \<le> max_audio_queue_chunks fps md secs) \<and>
            (md = Block \<longrightarrow> fps \<le> max_audio_queue_chunks fps md secs)" for md secs
    by (cases md) (simp_all add: max_audio_queue_chunks_def Let_def)
  show ?thesis
    using fps cfg fq mq [of "cfg_mode cfg" "audio_queue_seconds (map py_lower_char model) (cfg_mode cfg) env"]
    by (cases "cfg_mode cfg") (auto simp: keep_recent_def)
qed

theorem asr_config_bounds_witness:
  "let env = \<lparr>env_audio_overflow_mode = None, env_prefer_reliable = None, env_allow_block = None,
              env_audio_queue_seconds = Unset, env_musetalk_audio_queue_seconds = Unset,
              env_feat_queue_size = Unset, env_musetalk_feat_queue_size = Unset,
              env_feat_overflow_mode = None\<rparr>
   in asr_config_of 50 ''musetalk'' env 4 10 10 =
        Inr \<lparr>cfg_fps = 50, cfg_chunk = 320, cfg_mode = Block, cfg_max_chunks = 400,
             cfg_batch_size = 4, cfg_l = 10, cfg_r = 10, cfg_feat_qmax = 8, cfg_feat_mode = Block\<rparr> \<and>
      (50::nat) \<le> 400"
proof -
  let ?env = "\<lparr>env_audio_overflow_mode = None, env_prefer_reliable = None, env_allow_block = None,
              env_audio_queue_seconds = Unset, env_musetalk_audio_queue_seconds = Unset,
              env_feat_queue_size = Unset, env_musetalk_feat_queue_size = Unset,
              env_feat_overflow_mode = None\<rparr>"
  let ?cfg = "\<lparr>cfg_fps = 50, cfg_chunk = 320, cfg_mode = Block, cfg_max_chunks = 400,
             cfg_batch_size = 4, cfg_l = 10, cfg_r = 10, cfg_feat_qmax = 8, cfg_feat_mode = Block\<rparr>"
  have c: "asr_config_of 50 ''musetalk'' ?env 4 10 10 = Inr ?cfg"
    by (simp add: asr_config_of_def resolve_audio_mode_def getenv_norm_def py_norm_def py_space_def
        str_strip_def strip_by_def py_isspace_def py_lower_char_def prefer_reliable_def truthy_def audio_queue_seconds_def
        max_audio_queue_chunks_def py_round_def feat_queue_size_def resolve_feat_mode_def)
  have "cfg_mode ?cfg = Block \<longrightarrow> 50 \<le> cfg_max_chunks ?cfg"
    using asr_config_bounds [OF c] by blast
  with c show ?thesis by simp
qed

subsection \<open>The drop policy\<close>

lemma put_audio_drop_eq:
  assumes "cfg_mode cfg = Drop"
  shows "put_audio_nonblock cfg now x i st =
    (let q = asr_queue st;
         q1 = q\<lparr>qitems := drop (qsize q - keep_recent cfg) (qitems q)\<rparr>
     in if q_full q1 then account_drops now (qsize q - keep_recent cfg + 1) q1 st
        else st\<lparr>asr_queue := q1\<lparr>qitems := qitems q1 @ [(x, i)]\<rparr>\<rparr>)"
proof -
  let ?q = "asr_queue st"
  let ?k = "keep_recent cfg"
  let ?q1 = "?q\<lparr>qitems := drop (qsize ?q - ?k) (qitems ?q)\<rparr>"
  have t1: "trim_to ?k ?q = (?q1, qsize ?q - ?k)" by (simp add: trim_to_eq)
  have t2: "trim_to ?k ?q1 = (?q1, 0)" by (simp add: trim_to_eq qsize_def)
  show ?thesis
    using assms t1 t2
    by (simp add: put_audio_nonblock_def put_nowait_def Let_def split: if_splits)
qed

lemma account_drops_queue [simp]: "asr_queue (account_drops now n q st) = q"
  by (simp add: account_drops_def)

lemma account_drops_count: "dropped_audio_chunks (account_drops now n q st) = dropped_audio_chunks st + n"
  by (simp add: account_drops_def)

text \<open>
  C12: under the drop policy a push leaves at most \<open>keep_recent + 1\<close> chunks queued
  (about half a second), whatever the queue's capacity, and what stays queued is the
  newest part of the old backlog, followed by the new chunk unless it was dropped; at
  most \<open>qsize - keep_recent\<close> old chunks are evicted by one push.
\<close>

theorem drop_latency_bound:
  assumes "cfg_mode cfg = Drop" "put_audio_frame cfg now x i st = Some st'"
  shows "qsize (asr_queue st') \<le> keep_recent cfg + 1 \<and>
         (\<exists>k. k \<le> qsize (asr_queue st) - keep_recent cfg \<and>
              (qitems (asr_queue st') = drop k (qitems (asr_queue st)) @ [(x, i)] \<or>
               qitems (asr_queue st') = drop k (qitems (asr_queue st))))"
proof -
  let ?q = "asr_queue st"
  let ?k = "keep_recent cfg"
  let ?q1 = "?q\<lparr>qitems := drop (qsize ?q - ?k) (qitems ?q)\<rparr>"
  have st': "st' = (if q_full ?q1 then account_drops now (qsize ?q - ?k + 1) ?q1 st
                   else st\<lparr>asr_queue := ?q1\<lparr>qitems := qitems ?q1 @ [(x, i)]\<rparr>\<rparr>)"
    using assms by (simp add: put_audio_frame_def put_audio_drop_eq Let_def)
  have len: "length (drop (qsize ?q - ?k) (qitems ?q)) \<le> ?k"
    by (simp add: qsize_def)
  show ?thesis
  proof (cases "q_full ?q1")
    case True
    with st' len show ?thesis by (auto simp: qsize_def)
  next
    case False
    with st' len show ?thesis by (auto simp: qsize_def)
  qed
qed

text \<open>
  C40: the drop counter misses the proactive trim: when the trim makes room, the chunks
  it discarded are lost but \<open>_dropped_audio_chunks\<close> is unchanged, because the
  successful \<open>put_nowait\<close> returns before the accounting.
\<close>

theorem drop_counter_misses_trim:
  assumes "cfg_mode cfg = Drop" "keep_recent cfg < qsize (asr_queue st)"
    and "\<not> q_full ((asr_queue st)\<lparr>qitems := drop (qsize (asr_queue st) - keep_recent cfg) (qitems (asr_queue st))\<rparr>)"
    and "put_audio_frame cfg now x i st = Some st'"
  shows "dropped_audio_chunks st' = dropped_audio_chunks st \<and>
         qsize (asr_queue st') + (qsize (asr_queue st) - keep_recent cfg) = qsize (asr_queue st) + 1"
proof -
  from assms(1,4) have "st' = put_audio_nonblock cfg now x i st"
    by (simp add: put_audio_frame_def)
  with assms(1-3) show ?thesis
    by (simp add: put_audio_drop_eq Let_def qsize_def)
qed

text \<open>
  When the keep watermark is at least the capacity (drop policy with
  \<open>LT_AUDIO_QUEUE_SECONDS \<le> 0.5\<close> at 50 fps), a push onto a full queue evicts
  nothing and drops the incoming chunk: the queue keeps the stale backlog.
\<close>

theorem drop_newest_when_keep_covers_capacity:
  assumes "cfg_mode cfg = Drop" "0 < qmax (asr_queue st)" "qmax (asr_queue st) \<le> keep_recent cfg"
    and "qsize (asr_queue st) = qmax (asr_queue st)"
    and "put_audio_frame cfg now x i st = Some st'"
  shows "qitems (asr_queue st') = qitems (asr_queue st) \<and>
         dropped_audio_chunks st' = dropped_audio_chunks st + 1"
proof -
  from assms(1,5) have "st' = put_audio_nonblock cfg now x i st"
    by (simp add: put_audio_frame_def)
  moreover from assms(3,4) have "qsize (asr_queue st) - keep_recent cfg = 0"
    by simp
  ultimately show ?thesis using assms(1,2,4)
    by (simp add: put_audio_drop_eq Let_def q_full_def account_drops_count qsize_def)
qed
subsection \<open>Zero loss under the block policy\<close>

lemma speech_chunks_append [simp]: "speech_chunks (xs @ ys) = speech_chunks xs @ speech_chunks ys"
  by (simp add: speech_chunks_def map_filter_def)

lemma speech_chunks_single [simp]:
  "speech_chunks [(f, t, i)] = (if t = 0 then (case i of None \<Rightarrow> [] | Some v \<Rightarrow> [(f, v)]) else [])"
  by (simp add: speech_chunks_def map_filter_def split: option.splits)

lemma get_audio_stream_state:
  "get_audio_stream c t cs = Inr (s, cs') \<Longrightarrow> curr_state cs' = 1 \<or> curr_state cs' = curr_state cs"
  by (auto simp: get_audio_stream_def Let_def split: option.splits if_splits)

lemma get_audio_frame_speech:
  assumes "get_audio_frame cfg st cs = Inr (entry, st', cs')"
  shows "speech_chunks [entry] @ qitems (asr_queue st') = qitems (asr_queue st)"
proof (cases "qitems (asr_queue st)")
  case Nil
  then show ?thesis using assms get_audio_stream_state
    by (fastforce simp: get_audio_frame_def split: if_splits sum.splits prod.splits)
next
  case (Cons a rest)
  then show ?thesis using assms
    by (cases a) (auto simp: get_audio_frame_def)
qed

lemma get_audio_frame_queue:
  "get_audio_frame cfg st cs = Inr (entry, st', cs') \<Longrightarrow> \<exists>k. qitems (asr_queue st') = drop k (qitems (asr_queue st)) \<and> qmax (asr_queue st') = qmax (asr_queue st)"
  by (cases "qitems (asr_queue st)")
     (auto simp: get_audio_frame_def split: if_splits sum.splits prod.splits intro: exI [of _ 0] exI [of _ 1])

lemma put_audio_block_items:
  "put_audio_block x i st = Some st' \<Longrightarrow> qitems (asr_queue st') = qitems (asr_queue st) @ [(x, i)]"
  by (auto simp: put_audio_block_def dest: put_nowait_Inr split: sum.splits)

text \<open>
  C1: under the block policy no chunk is ever lost or reordered: in every interleaving
  of pushes and pulls, the speech chunks delivered so far, followed by the queue and by
  the chunks still pending at the producer, are the producer's chunks in their order.
\<close>

theorem block_zero_loss:
  assumes "cfg_mode cfg = Block" "ingest_run cfg evs sys = Inr sys'"
  shows "speech_chunks (consumed sys') @ qitems (asr_queue (ing_asr sys')) @ pending sys' =
         speech_chunks (consumed sys) @ qitems (asr_queue (ing_asr sys)) @ pending sys"
  using assms(2)
proof (induction evs arbitrary: sys)
  case Nil
  then show ?case by simp
next
  case (Cons ev evs)
  then obtain sys1 where s1: "ingest_step cfg ev sys = Inr sys1" and r: "ingest_run cfg evs sys1 = Inr sys'"
    by (auto split: sum.splits)
  have "speech_chunks (consumed sys1) @ qitems (asr_queue (ing_asr sys1)) @ pending sys1 =
        speech_chunks (consumed sys) @ qitems (asr_queue (ing_asr sys)) @ pending sys"
  proof (cases ev)
    case (Produce now)
    with s1 assms(1) show ?thesis
      by (auto simp: put_audio_frame_def split: list.splits option.splits dest!: put_audio_block_items)
  next
    case Consume
    with s1 show ?thesis
      by (auto dest!: get_audio_frame_speech [THEN sym] split: sum.splits prod.splits)
  qed
  with Cons.IH [OF r] show ?case by simp
qed

lemma ingest_run_append:
  "ingest_run cfg (xs @ ys) sys = (case ingest_run cfg xs sys of Inl e \<Rightarrow> Inl e | Inr s \<Rightarrow> ingest_run cfg ys s)"
  by (induction xs arbitrary: sys) (auto split: sum.splits)

text \<open>
  C13: under the block policy, when the consumer pulls after every push, every pending
  chunk is delivered, in order, with its event marker, and nothing stays queued.
\<close>

theorem block_delivers_all:
  assumes "cfg_mode cfg = Block" "0 < qmax (asr_queue (ing_asr sys))"
    and "qitems (asr_queue (ing_asr sys)) = []"
  shows "\<exists>sys'. ingest_run cfg (concat (replicate (length (pending sys)) [Produce now, Consume])) sys = Inr sys' \<and>
           speech_chunks (consumed sys') = speech_chunks (consumed sys) @ pending sys \<and>
           pending sys' = [] \<and> qitems (asr_queue (ing_asr sys')) = []"
  using assms(2,3)
proof (induction "pending sys" arbitrary: sys)
  case Nil
  then show ?case by simp
next
  case (Cons p rest sys)
  obtain x i where p: "p = (x, i)" by (cases p)
  let ?q = "asr_queue (ing_asr sys)"
  let ?st1 = "(ing_asr sys)\<lparr>asr_queue := ?q\<lparr>qitems := [(x, i)]\<rparr>\<rparr>"
  let ?st2 = "?st1\<lparr>asr_queue := ?q\<lparr>qitems := []\<rparr>\<rparr>"
  let ?sys2 = "sys\<lparr>pending := rest, ing_asr := ?st2, consumed := consumed sys @ [(x, 0, Some i)]\<rparr>"
  have put: "put_audio_frame cfg now x i (ing_asr sys) = Some ?st1"
    using assms(1) Cons.prems by (simp add: put_audio_frame_def put_audio_block_def put_nowait_eq)
  have get: "get_audio_frame cfg ?st1 (ing_custom sys) = Inr ((x, 0, Some i), ?st2, ing_custom sys)"
    by (simp add: get_audio_frame_def)
  have two: "ingest_run cfg [Produce now, Consume] sys = Inr ?sys2"
    using Cons.hyps(2) [symmetric] p put get by simp
  have ih: "\<exists>sys'. ingest_run cfg (concat (replicate (length (pending ?sys2)) [Produce now, Consume])) ?sys2 = Inr sys' \<and>
           speech_chunks (consumed sys') = speech_chunks (consumed ?sys2) @ pending ?sys2 \<and>
           pending sys' = [] \<and> qitems (asr_queue (ing_asr sys')) = []"
    using Cons.hyps(1) [of ?sys2] Cons.prems by simp
  then obtain sys' where r: "ingest_run cfg (concat (replicate (length rest) [Produce now, Consume])) ?sys2 = Inr sys'"
    and c: "speech_chunks (consumed sys') = speech_chunks (consumed ?sys2) @ rest"
    and e: "pending sys' = []" "qitems (asr_queue (ing_asr sys')) = []"
    by auto
  have ev: "concat (replicate (length (pending sys)) [Produce now, Consume]) =
            [Produce now, Consume] @ concat (replicate (length rest) [Produce now, Consume])"
    using Cons.hyps(2) [symmetric] by simp
  have "ingest_run cfg (concat (replicate (length (pending sys)) [Produce now, Consume])) sys = Inr sys'"
    unfolding ev ingest_run_append two using r by simp
  with c e Cons.hyps(2) [symmetric] p show ?case by auto
qed

subsection \<open>Witnesses\<close>

theorem drop_latency_bound_witness:
  "let cfg = \<lparr>cfg_fps = 4, cfg_chunk = 4000, cfg_mode = Drop, cfg_max_chunks = 8,
              cfg_batch_size = 2, cfg_l = 2, cfg_r = 2, cfg_feat_qmax = 2, cfg_feat_mode = Drop\<rparr>;
       st = \<lparr>asr_queue = \<lparr>qitems = [([1::int], 1::int), ([2], 2), ([3], 3)], qmax = 8\<rparr>,
             asr_output = mk_queue 0, asr_feat = (mk_queue 2 :: unit pyqueue), asr_frames = [],
             dropped_audio_chunks = 0, last_drop_log_ts = 0, dropped_feat_chunks = 0,
             last_feat_drop_log_ts = 0\<rparr>;
       st' = st\<lparr>asr_queue := \<lparr>qitems = [([2], 2), ([3], 3), ([9], 9)], qmax = 8\<rparr>\<rparr>
   in cfg_mode cfg = Drop \<and> put_audio_frame cfg 0 [9] 9 st = Some st' \<and>
      qsize (asr_queue st') \<le> keep_recent cfg + 1"
proof -
  let ?cfg = "\<lparr>cfg_fps = 4, cfg_chunk = 4000, cfg_mode = Drop, cfg_max_chunks = 8,
              cfg_batch_size = 2, cfg_l = 2, cfg_r = 2, cfg_feat_qmax = 2, cfg_feat_mode = Drop\<rparr>"
  let ?st = "\<lparr>asr_queue = \<lparr>qitems = [([1::int], 1::int), ([2], 2), ([3], 3)], qmax = 8\<rparr>,
             asr_output = mk_queue 0, asr_feat = (mk_queue 2 :: unit pyqueue), asr_frames = [],
             dropped_audio_chunks = 0, last_drop_log_ts = 0, dropped_feat_chunks = 0,
             last_feat_drop_log_ts = 0\<rparr>"
  let ?st' = "?st\<lparr>asr_queue := \<lparr>qitems = [([2], 2), ([3], 3), ([9], 9)], qmax = 8\<rparr>\<rparr>"
  have put: "put_audio_frame ?cfg 0 [9] 9 ?st = Some ?st'"
    by (simp add: put_audio_frame_def put_audio_drop_eq keep_recent_def qsize_def q_full_def)
  have b: "qsize (asr_queue ?st') \<le> keep_recent ?cfg + 1"
    using drop_latency_bound [OF _ put] by simp
  show ?thesis
    unfolding Let_def using put b by simp
qed
theorem drop_counter_misses_trim_witness:
  "let cfg = \<lparr>cfg_fps = 4, cfg_chunk = 4000, cfg_mode = Drop, cfg_max_chunks = 8,
              cfg_batch_size = 2, cfg_l = 2, cfg_r = 2, cfg_feat_qmax = 2, cfg_feat_mode = Drop\<rparr>;
       st = \<lparr>asr_queue = \<lparr>qitems = [([1::int], 1::int), ([2], 2), ([3], 3)], qmax = 8\<rparr>,
             asr_output = mk_queue 0, asr_feat = (mk_queue 2 :: unit pyqueue), asr_frames = [],
             dropped_audio_chunks = 0, last_drop_log_ts = 0, dropped_feat_chunks = 0,
             last_feat_drop_log_ts = 0\<rparr>;
       st' = st\<lparr>asr_queue := \<lparr>qitems = [([2], 2), ([3], 3), ([9], 9)], qmax = 8\<rparr>\<rparr>
   in put_audio_frame cfg 0 [9] 9 st = Some st' \<and> dropped_audio_chunks st' = 0 \<and>
      qsize (asr_queue st') + 1 = qsize (asr_queue st) + 1"
proof -
  let ?cfg = "\<lparr>cfg_fps = 4, cfg_chunk = 4000, cfg_mode = Drop, cfg_max_chunks = 8,
              cfg_batch_size = 2, cfg_l = 2, cfg_r = 2, cfg_feat_qmax = 2, cfg_feat_mode = Drop\<rparr>"
  let ?st = "\<lparr>asr_queue = \<lparr>qitems = [([1::int], 1::int), ([2], 2), ([3], 3)], qmax = 8\<rparr>,
             asr_output = mk_queue 0, asr_feat = (mk_queue 2 :: unit pyqueue), asr_frames = [],
             dropped_audio_chunks = 0, last_drop_log_ts = 0, dropped_feat_chunks = 0,
             last_feat_drop_log_ts = 0\<rparr>"
  let ?st' = "?st\<lparr>asr_queue := \<lparr>qitems = [([2], 2), ([3], 3), ([9], 9)], qmax = 8\<rparr>\<rparr>"
  have put: "put_audio_frame ?cfg 0 [9] 9 ?st = Some ?st'"
    by (simp add: put_audio_frame_def put_audio_drop_eq keep_recent_def qsize_def q_full_def)
  have c: "dropped_audio_chunks ?st' = dropped_audio_chunks ?st \<and>
           qsize (asr_queue ?st') + (qsize (asr_queue ?st) - keep_recent ?cfg) = qsize (asr_queue ?st) + 1"
    by (rule drop_counter_misses_trim [OF _ _ _ put]) (simp_all add: keep_recent_def qsize_def q_full_def)
  show ?thesis
    unfolding Let_def using put c by (simp add: keep_recent_def qsize_def)
qed

theorem drop_newest_witness:
  "let cfg = \<lparr>cfg_fps = 4, cfg_chunk = 4000, cfg_mode = Drop, cfg_max_chunks = 2,
              cfg_batch_size = 2, cfg_l = 2, cfg_r = 2, cfg_feat_qmax = 2, cfg_feat_mode = Drop\<rparr>;
       st = \<lparr>asr_queue = \<lparr>qitems = [([1::int], 1::int), ([2], 2)], qmax = 2\<rparr>,
             asr_output = mk_queue 0, asr_feat = (mk_queue 2 :: unit pyqueue), asr_frames = [],
             dropped_audio_chunks = 0, last_drop_log_ts = 0, dropped_feat_chunks = 0,
             last_feat_drop_log_ts = 0\<rparr>
   in \<exists>st'. put_audio_frame cfg 10 [9] 9 st = Some st' \<and>
        qitems (asr_queue st') = [([1], 1), ([2], 2)] \<and> dropped_audio_chunks st' = 1"
proof -
  let ?cfg = "\<lparr>cfg_fps = 4, cfg_chunk = 4000, cfg_mode = Drop, cfg_max_chunks = 2,
              cfg_batch_size = 2, cfg_l = 2, cfg_r = 2, cfg_feat_qmax = 2, cfg_feat_mode = Drop\<rparr>"
  let ?st = "\<lparr>asr_queue = \<lparr>qitems = [([1::int], 1::int), ([2], 2)], qmax = 2\<rparr>,
             asr_output = mk_queue 0, asr_feat = (mk_queue 2 :: unit pyqueue), asr_frames = [],
             dropped_audio_chunks = 0, last_drop_log_ts = 0, dropped_feat_chunks = 0,
             last_feat_drop_log_ts = 0\<rparr>"
  obtain st' where put: "put_audio_frame ?cfg 10 [9] 9 ?st = Some st'"
    by (simp add: put_audio_frame_def)
  have "qitems (asr_queue st') = qitems (asr_queue ?st) \<and>
        dropped_audio_chunks st' = dropped_audio_chunks ?st + 1"
    by (rule drop_newest_when_keep_covers_capacity [OF _ _ _ _ put])
       (simp_all add: keep_recent_def qsize_def)
  with put show ?thesis by auto
qed
theorem block_ingest_witness:
  "let cfg = \<lparr>cfg_fps = 4, cfg_chunk = 4000, cfg_mode = Block, cfg_max_chunks = 2,
              cfg_batch_size = 2, cfg_l = 2, cfg_r = 2, cfg_feat_qmax = 2, cfg_feat_mode = Block\<rparr>;
       sys = \<lparr>pending = [([5::int], 7::int), ([6], 8)],
              ing_asr = \<lparr>asr_queue = mk_queue 2, asr_output = mk_queue 0,
                         asr_feat = (mk_queue 2 :: unit pyqueue), asr_frames = [],
                         dropped_audio_chunks = 0, last_drop_log_ts = 0, dropped_feat_chunks = 0,
                         last_feat_drop_log_ts = 0\<rparr>,
              ing_custom = (load_custom [] :: (int, unit) custom_state), consumed = []\<rparr>
   in \<exists>sys'. ingest_run cfg [Produce 0, Consume, Produce 0, Consume] sys = Inr sys' \<and>
        speech_chunks (consumed sys') = [([5], 7), ([6], 8)]"
proof -
  let ?cfg = "\<lparr>cfg_fps = 4, cfg_chunk = 4000, cfg_mode = Block, cfg_max_chunks = 2,
              cfg_batch_size = 2, cfg_l = 2, cfg_r = 2, cfg_feat_qmax = 2, cfg_feat_mode = Block\<rparr>"
  let ?sys = "\<lparr>pending = [([5::int], 7::int), ([6], 8)],
              ing_asr = \<lparr>asr_queue = mk_queue 2, asr_output = mk_queue 0,
                         asr_feat = (mk_queue 2 :: unit pyqueue), asr_frames = [],
                         dropped_audio_chunks = 0, last_drop_log_ts = 0, dropped_feat_chunks = 0,
                         last_feat_drop_log_ts = 0\<rparr>,
              ing_custom = (load_custom [] :: (int, unit) custom_state), consumed = []\<rparr>"
  have "\<exists>sys'. ingest_run ?cfg (concat (replicate (length (pending ?sys)) [Produce 0, Consume])) ?sys = Inr sys' \<and>
           speech_chunks (consumed sys') = speech_chunks (consumed ?sys) @ pending ?sys \<and>
           pending sys' = [] \<and> qitems (asr_queue (ing_asr sys')) = []"
    by (rule block_delivers_all) (simp_all add: mk_queue_def)
  then obtain sys' where
    r: "ingest_run ?cfg (concat (replicate (length (pending ?sys)) [Produce 0, Consume])) ?sys = Inr sys'"
    and c: "speech_chunks (consumed sys') = speech_chunks (consumed ?sys) @ pending ?sys"
    by blast
  have ev: "concat (replicate (length (pending ?sys)) [Produce 0, Consume]) =
            [Produce 0, Consume, Produce 0, Consume]"
    by (simp add: numeral_2_eq_2)
  have c': "speech_chunks (consumed sys') = [([5], 7), ([6], 8)]"
    using c by (simp add: speech_chunks_def)
  show ?thesis
    unfolding Let_def using r [unfolded ev] c' by blast
qed
theorem block_zero_loss_witness:
  "let cfg = \<lparr>cfg_fps = 4, cfg_chunk = 4000, cfg_mode = Block, cfg_max_chunks = 2,
              cfg_batch_size = 2, cfg_l = 2, cfg_r = 2, cfg_feat_qmax = 2, cfg_feat_mode = Block\<rparr>;
       sys = \<lparr>pending = [([5::int], 7::int), ([6], 8)],
              ing_asr = \<lparr>asr_queue = mk_queue 2, asr_output = mk_queue 0,
                         asr_feat = (mk_queue 2 :: unit pyqueue), asr_frames = [],
                         dropped_audio_chunks = 0, last_drop_log_ts = 0, dropped_feat_chunks = 0,
                         last_feat_drop_log_ts = 0\<rparr>,
              ing_custom = (load_custom [] :: (int, unit) custom_state), consumed = []\<rparr>
   in \<exists>sys'. ingest_run cfg [Produce 0, Produce 0, Consume] sys = Inr sys' \<and>
        speech_chunks (consumed sys') @ qitems (asr_queue (ing_asr sys')) @ pending sys' =
        [([5], 7), ([6], 8)]"
proof -
  let ?cfg = "\<lparr>cfg_fps = 4, cfg_chunk = 4000, cfg_mode = Block, cfg_max_chunks = 2,
              cfg_batch_size = 2, cfg_l = 2, cfg_r = 2, cfg_feat_qmax = 2, cfg_feat_mode = Block\<rparr>"
  let ?sys = "\<lparr>pending = [([5::int], 7::int), ([6], 8)],
              ing_asr = \<lparr>asr_queue = mk_queue 2, asr_output = mk_queue 0,
                         asr_feat = (mk_queue 2 :: unit pyqueue), asr_frames = [],
                         dropped_audio_chunks = 0, last_drop_log_ts = 0, dropped_feat_chunks = 0,
                         last_feat_drop_log_ts = 0\<rparr>,
              ing_custom = (load_custom [] :: (int, unit) custom_state), consumed = []\<rparr>"
  obtain sys' where r: "ingest_run ?cfg [Produce 0, Produce 0, Consume] ?sys = Inr sys'"
    by (simp add: put_audio_frame_def put_audio_block_def put_nowait_eq mk_queue_def
        get_audio_frame_def)
  have "speech_chunks (consumed sys') @ qitems (asr_queue (ing_asr sys')) @ pending sys' =
        speech_chunks (consumed ?sys) @ qitems (asr_queue (ing_asr ?sys)) @ pending ?sys"
    by (rule block_zero_loss [OF _ r]) simp
  with r show ?thesis
    by (simp add: speech_chunks_def mk_queue_def)
qed

end
