(* ===== verification/FeatureStage.thy ===== *)
theory FeatureStage
  imports AudioIngest
begin

text \<open>
  FeatureQueue producer: \<open>MuseASR\<close> in \<open>src/museasr.py\<close>.  One \<open>run_step\<close> pulls
  \<open>2 * batch_size\<close> audio frames (each also queued on the output queue for the
  synthesis worker), extracts one feature batch from the sliding window
  \<open>self.frames\<close>, pushes it on the feature queue with the configured overflow policy
  (\<open>_push_feat_with_backpressure\<close>) and keeps the last \<open>l + r\<close> frames as context.
  The feature extractor (\<open>audio2feat\<close> followed by \<open>feature2chunks\<close>) is a parameter
  \<open>ext\<close> applied to the window.

  Blocking puts with a timeout are modelled at the granularity of the interleaving: the
  consumer's steps that happen while the producer waits are scheduled before the
  attempt, so an attempt succeeds exactly when the queue has room at that point, and
  repeated attempts with no consumer step in between see the same queue.
\<close>

subsection \<open>\<open>_push_feat_with_backpressure\<close>\<close>

text \<open>Block policy: one \<open>put\<close> with timeout and five retries, \<open>True\<close> on success.\<close>

fun feat_block_attempts :: "nat \<Rightarrow> 'f \<Rightarrow> 'f pyqueue \<Rightarrow> bool \<times> 'f pyqueue" where
  "feat_block_attempts 0 x q = (False, q)"
| "feat_block_attempts (Suc n) x q =
     (case put_nowait x q of
        Inr q' \<Rightarrow> (True, q')
      | Inl _ \<Rightarrow> feat_block_attempts n x q)"

text \<open>\<open>for _ in range(k): output_queue.get_nowait()\<close>, stopping at \<open>queue.Empty\<close>.\<close>

fun get_upto :: "nat \<Rightarrow> 'a pyqueue \<Rightarrow> 'a pyqueue" where
  "get_upto 0 q = q"
| "get_upto (Suc k) q = (case get_nowait q of Inl _ \<Rightarrow> q | Inr (_, q') \<Rightarrow> get_upto k q')"

text \<open>
  Drop policy, after a failed \<open>put_nowait\<close>: up to three rounds of evicting the
  oldest batch together with \<open>2 * batch_size\<close> output entries and retrying; then a
  last put with a short timeout.  The result records whether the batch was queued and
  whether it was queued inside a round after a stale batch was evicted, the only path
  that reaches the rate-limited log.
\<close>

fun feat_drop_rounds ::
  "nat \<Rightarrow> nat \<Rightarrow> 'f \<Rightarrow> 'f pyqueue \<Rightarrow> 'a pyqueue \<Rightarrow> bool \<Rightarrow> bool \<times> 'f pyqueue \<times> 'a pyqueue \<times> bool" where
  "feat_drop_rounds 0 k x fq oq ev =
     (case put_nowait x fq of Inr fq' \<Rightarrow> (True, fq', oq, False) | Inl _ \<Rightarrow> (False, fq, oq, False))"
| "feat_drop_rounds (Suc n) k x fq oq ev =
     (let (fq1, oq1, ev1) =
            (case get_nowait fq of
               Inl _ \<Rightarrow> (fq, oq, ev)
             | Inr (_, fq') \<Rightarrow> (fq', get_upto k oq, True))
      in case put_nowait x fq1 of
           Inr fq2 \<Rightarrow> (True, fq2, oq1, ev1)
         | Inl _ \<Rightarrow> feat_drop_rounds n k x fq1 oq1 ev1)"

definition push_feat_with_backpressure ::
  "asr_config \<Rightarrow> timestamp \<Rightarrow> 'f \<Rightarrow> ('s, 'e, 'f) asr_state \<Rightarrow> bool \<times> ('s, 'e, 'f) asr_state" where
  "push_feat_with_backpressure cfg now x st =
     (if cfg_feat_mode cfg = Block then
        (let (ok, fq) = feat_block_attempts 6 x (asr_feat st) in (ok, st\<lparr>asr_feat := fq\<rparr>))
      else
        (case put_nowait x (asr_feat st) of
           Inr fq \<Rightarrow> (True, st\<lparr>asr_feat := fq\<rparr>)
         | Inl _ \<Rightarrow>
             (let (ok, fq, oq, ev) =
                    feat_drop_rounds 3 (cfg_batch_size cfg * 2) x (asr_feat st) (asr_output st) False
              in (ok, st\<lparr>asr_feat := fq, asr_output := oq,
                         last_feat_drop_log_ts :=
                           (if ev then rate_limit now (last_feat_drop_log_ts st) (3 / 2)
                            else last_feat_drop_log_ts st)\<rparr>))))"

subsection \<open>\<open>run_step\<close>\<close>

definition run_step ::
  "('s list list \<Rightarrow> 'f) \<Rightarrow> asr_config \<Rightarrow> timestamp \<Rightarrow> ('s::zero, 'e, 'f) asr_state \<Rightarrow>
   ('s, 'img) custom_state \<Rightarrow> py_error + (('s, 'e, 'f) asr_state \<times> ('s, 'img) custom_state)" where
  "run_step ext cfg now st cs =
     (case pull_frames cfg (cfg_batch_size cfg * 2) st cs of
        Inl e \<Rightarrow> Inl e
      | Inr (st1, cs1) \<Rightarrow>
          (if length (asr_frames st1) \<le> cfg_l cfg + cfg_r cfg then Inr (st1, cs1)
           else
             (let whisper_chunks = ext (asr_frames st1);
                  (ok, st2) = push_feat_with_backpressure cfg now whisper_chunks st1;
                  st3 = (if ok then st2
                         else st2\<lparr>dropped_feat_chunks := dropped_feat_chunks st2 + 1,
                                  last_feat_drop_log_ts := rate_limit now (last_feat_drop_log_ts st2) 2\<rparr>)
              in Inr (st3\<lparr>asr_frames := py_slice_from (asr_frames st3) (- int (cfg_l cfg + cfg_r cfg))\<rparr>,
                      cs1))))"

subsection \<open>The alignment contract\<close>

text \<open>
  The extractor's contract: the feature batch computed from a window of
  \<open>l + r + 2 * batch_size\<close> frames describes (through the ghost function
  \<open>center\<close>) exactly the \<open>2 * batch_size\<close> frames after the left context.
\<close>

definition ext_centers :: "asr_config \<Rightarrow> ('s list list \<Rightarrow> 'f) \<Rightarrow> ('f \<Rightarrow> 's list list) \<Rightarrow> bool" where
  "ext_centers cfg ext center \<longleftrightarrow>
     (\<forall>w. length w = cfg_l cfg + cfg_r cfg + cfg_batch_size cfg * 2 \<longrightarrow>
          center (ext w) = take (cfg_batch_size cfg * 2) (drop (cfg_l cfg) w))"

text \<open>
  The producer invariant: the audio entries waiting on the output queue are, in order,
  the centres of the queued feature batches followed by the frames of the context
  window after its left part, whose batch is not extracted yet.  The synthesis worker
  pairs each feature batch with the next \<open>2 * batch_size\<close> output entries, so this is
  the statement that every batch meets its own audio.
\<close>

definition producer_inv :: "asr_config \<Rightarrow> ('f \<Rightarrow> 's list list) \<Rightarrow> ('s, 'e, 'f) asr_state \<Rightarrow> bool" where
  "producer_inv cfg center st \<longleftrightarrow>
     q_wf (asr_feat st) \<and> 0 < qmax (asr_feat st) \<and>
     length (asr_frames st) = cfg_l cfg + cfg_r cfg \<and>
     (\<forall>b \<in> set (qitems (asr_feat st)). length (center b) = cfg_batch_size cfg * 2) \<and>
     map fst (qitems (asr_output st)) =
       concat (map center (qitems (asr_feat st))) @ drop (cfg_l cfg) (asr_frames st)"

subsection \<open>Behaviour of the producer's operations\<close>

lemma get_audio_frame_fields:
  "get_audio_frame cfg st cs = Inr (entry, st', cs') \<Longrightarrow>
   asr_output st' = asr_output st \<and> asr_feat st' = asr_feat st \<and> asr_frames st' = asr_frames st \<and>
   dropped_feat_chunks st' = dropped_feat_chunks st \<and> last_feat_drop_log_ts st' = last_feat_drop_log_ts st"
  by (auto simp: get_audio_frame_def split: sum.splits if_splits prod.splits)

lemma pull_frames_eq:
  "pull_frames cfg n st cs = Inr (st', cs') \<Longrightarrow>
   \<exists>es. length es = n \<and> asr_frames st' = asr_frames st @ map fst es \<and>
        qitems (asr_output st') = qitems (asr_output st) @ es \<and>
        qmax (asr_output st') = qmax (asr_output st) \<and> asr_feat st' = asr_feat st \<and>
        dropped_feat_chunks st' = dropped_feat_chunks st"
proof (induction n arbitrary: st cs)
  case 0
  then show ?case by simp
next
  case (Suc n)
  from Suc.prems obtain entry st1 cs1 where g: "get_audio_frame cfg st cs = Inr (entry, st1, cs1)"
    and r: "pull_frames cfg n (st1\<lparr>asr_frames := asr_frames st1 @ [fst entry],
                 asr_output := put_unbounded entry (asr_output st1)\<rparr>) cs1 = Inr (st', cs')"
    by (auto split: sum.splits prod.splits)
  from Suc.IH [OF r] obtain es where es: "length es = n"
    "asr_frames st' = asr_frames st1 @ [fst entry] @ map fst es"
    "qitems (asr_output st') = qitems (asr_output st1) @ [entry] @ es"
    "qmax (asr_output st') = qmax (asr_output st1)"
    "asr_feat st' = asr_feat st1" "dropped_feat_chunks st' = dropped_feat_chunks st1"
    by (auto simp: put_unbounded_def)
  with get_audio_frame_fields [OF g] show ?case
    by (intro exI [of _ "entry # es"]) simp
qed

lemma feat_block_attempts_eq:
  "feat_block_attempts n x q =
     (if 0 < n \<and> \<not> q_full q then (True, q\<lparr>qitems := qitems q @ [x]\<rparr>) else (False, q))"
  by (induction n) (auto simp: put_nowait_def)

lemma get_upto_eq: "get_upto k q = q\<lparr>qitems := drop k (qitems q)\<rparr>"
proof (induction k arbitrary: q)
  case 0
  then show ?case by simp
next
  case (Suc k)
  then show ?case by (cases "qitems q") (simp_all add: get_nowait_def)
qed

lemma feat_drop_rounds_full:
  assumes "q_wf fq" "0 < qmax fq" "q_full fq"
  shows "feat_drop_rounds (Suc n) k x fq oq ev =
           (True, fq\<lparr>qitems := tl (qitems fq) @ [x]\<rparr>, oq\<lparr>qitems := drop k (qitems oq)\<rparr>, True)"
proof -
  from assms have len: "length (qitems fq) = qmax fq"
    by (simp add: q_wf_def q_full_def qsize_def)
  with assms(2) obtain y ys where fq: "qitems fq = y # ys"
    by (cases "qitems fq") auto
  with len have "\<not> q_full (fq\<lparr>qitems := ys\<rparr>)"
    by (simp add: q_full_def qsize_def)
  with fq show ?thesis
    by (simp add: put_nowait_def get_upto_eq)
qed

lemma push_feat_block_eq:
  "cfg_feat_mode cfg = Block \<Longrightarrow>
   push_feat_with_backpressure cfg now x st =
     (if q_full (asr_feat st) then (False, st) else (True, st\<lparr>asr_feat := (asr_feat st)\<lparr>qitems := qitems (asr_feat st) @ [x]\<rparr>\<rparr>))"
  by (simp add: push_feat_with_backpressure_def feat_block_attempts_eq)

lemma push_feat_drop_eq:
  assumes "cfg_feat_mode cfg = Drop" "q_wf (asr_feat st)" "0 < qmax (asr_feat st)"
  shows "push_feat_with_backpressure cfg now x st =
     (True, if q_full (asr_feat st)
            then st\<lparr>asr_feat := (asr_feat st)\<lparr>qitems := tl (qitems (asr_feat st)) @ [x]\<rparr>,
                    asr_output := (asr_output st)\<lparr>qitems := drop (cfg_batch_size cfg * 2) (qitems (asr_output st))\<rparr>,
                    last_feat_drop_log_ts := rate_limit now (last_feat_drop_log_ts st) (3 / 2)\<rparr>
            else st\<lparr>asr_feat := (asr_feat st)\<lparr>qitems := qitems (asr_feat st) @ [x]\<rparr>\<rparr>)"
proof (cases "q_full (asr_feat st)")
  case True
  have "feat_drop_rounds 3 (cfg_batch_size cfg * 2) x (asr_feat st) (asr_output st) False =
        (True, (asr_feat st)\<lparr>qitems := tl (qitems (asr_feat st)) @ [x]\<rparr>,
         (asr_output st)\<lparr>qitems := drop (cfg_batch_size cfg * 2) (qitems (asr_output st))\<rparr>, True)"
    using feat_drop_rounds_full [OF assms(2,3) True] by (simp add: numeral_3_eq_3)
  with True assms(1) show ?thesis
    by (simp add: push_feat_with_backpressure_def put_nowait_def)
next
  case False
  with assms(1) show ?thesis
    by (simp add: push_feat_with_backpressure_def put_nowait_def)
qed

lemma push_feat_fields:
  "push_feat_with_backpressure cfg now x st = (ok, st') \<Longrightarrow>
   asr_frames st' = asr_frames st \<and> dropped_feat_chunks st' = dropped_feat_chunks st"
  by (auto simp: push_feat_with_backpressure_def split: if_splits prod.splits sum.splits)

lemma push_feat_drop_window:
  assumes "cfg_feat_mode cfg = Drop" "q_wf (asr_feat st)" "0 < qmax (asr_feat st)"
  shows "qitems (asr_feat (snd (push_feat_with_backpressure cfg now x st))) =
           drop (Suc (length (qitems (asr_feat st))) - qmax (asr_feat st)) (qitems (asr_feat st) @ [x]) \<and>
         qmax (asr_feat (snd (push_feat_with_backpressure cfg now x st))) = qmax (asr_feat st) \<and>
         q_wf (asr_feat (snd (push_feat_with_backpressure cfg now x st)))"
proof (cases "q_full (asr_feat st)")
  case True
  with assms(2) have "length (qitems (asr_feat st)) = qmax (asr_feat st)"
    by (simp add: q_wf_def q_full_def qsize_def)
  with True assms show ?thesis
    by (simp add: push_feat_drop_eq q_wf_def qsize_def drop_Suc tl_append2 tl_drop)
next
  case False
  with assms(2,3) have "length (qitems (asr_feat st)) < qmax (asr_feat st)"
    by (simp add: q_wf_def q_full_def qsize_def)
  with False assms show ?thesis
    by (simp add: push_feat_drop_eq q_wf_def qsize_def)
qed

lemma flush_talk_fields [simp]:
  "qitems (asr_feat (flush_talk st)) = []" "qitems (asr_output (flush_talk st)) = []"
  "qitems (asr_queue (flush_talk st)) = []" "asr_frames (flush_talk st) = asr_frames st"
  "qmax (asr_feat (flush_talk st)) = qmax (asr_feat st)"
  "dropped_feat_chunks (flush_talk st) = dropped_feat_chunks st"
  by (simp_all add: flush_talk_def drain_queue_eq)

lemma window_split:
  assumes "length fr = l + r" "length new = k"
  shows "take k (drop l (fr @ new)) @ drop l (drop k (fr @ new)) = drop l fr @ new"
proof -
  have "take k (drop l (fr @ new)) @ drop k (drop l (fr @ new)) = drop l (fr @ new)"
    by (rule append_take_drop_id)
  moreover have "drop k (drop l (fr @ new)) = drop l (drop k (fr @ new))"
    by (simp only: drop_drop add.commute)
  moreover have "drop l (fr @ new) = drop l fr @ new"
    using assms by simp
  ultimately show ?thesis by simp
qed

lemma center_window:
  assumes ext: "ext_centers cfg ext center" and fr: "length fr = cfg_l cfg + cfg_r cfg"
    and es: "length new = cfg_batch_size cfg * 2"
  shows "center (ext (fr @ new)) @ drop (cfg_l cfg) (drop (cfg_batch_size cfg * 2) (fr @ new)) =
           drop (cfg_l cfg) fr @ new \<and>
         length (center (ext (fr @ new))) = cfg_batch_size cfg * 2"
proof -
  have cx: "center (ext (fr @ new)) = take (cfg_batch_size cfg * 2) (drop (cfg_l cfg) (fr @ new))"
    using ext fr es by (simp add: ext_centers_def)
  show ?thesis
    unfolding cx using window_split [OF fr es] fr es by simp
qed

text \<open>
  One \<open>run_step\<close> on a well-formed queue: it pulls \<open>2 * batch_size\<close> entries and
  ends in one of three ways: the batch is appended, it replaces the oldest batch (only
  under the Drop policy, with the oldest batch's audio), or it is rejected and counted.
\<close>

lemma run_step_outcome:
  assumes lr: "0 < cfg_l cfg + cfg_r cfg" and bs: "0 < cfg_batch_size cfg"
    and len: "length (asr_frames st) = cfg_l cfg + cfg_r cfg"
    and wf: "q_wf (asr_feat st)" "0 < qmax (asr_feat st)"
    and run: "run_step ext cfg now st cs = Inr (st', cs')"
  shows "\<exists>es. length es = cfg_batch_size cfg * 2 \<and>
           asr_frames st' = drop (cfg_batch_size cfg * 2) (asr_frames st @ map fst es) \<and>
           qmax (asr_feat st') = qmax (asr_feat st) \<and>
           ((dropped_feat_chunks st' = dropped_feat_chunks st \<and> \<not> q_full (asr_feat st) \<and>
             qitems (asr_feat st') = qitems (asr_feat st) @ [ext (asr_frames st @ map fst es)] \<and>
             qitems (asr_output st') = qitems (asr_output st) @ es) \<or>
            (dropped_feat_chunks st' = dropped_feat_chunks st \<and> q_full (asr_feat st) \<and>
             cfg_feat_mode cfg = Drop \<and>
             qitems (asr_feat st') = tl (qitems (asr_feat st)) @ [ext (asr_frames st @ map fst es)] \<and>
             qitems (asr_output st') = drop (cfg_batch_size cfg * 2) (qitems (asr_output st) @ es)) \<or>
            (dropped_feat_chunks st' = Suc (dropped_feat_chunks st) \<and> q_full (asr_feat st) \<and>
             qitems (asr_feat st') = qitems (asr_feat st) \<and>
             qitems (asr_output st') = qitems (asr_output st) @ es))"
proof -
  let ?l = "cfg_l cfg" and ?r = "cfg_r cfg" and ?k = "cfg_batch_size cfg * 2"
  from run obtain st1 cs1 where pull: "pull_frames cfg ?k st cs = Inr (st1, cs1)"
    by (auto simp: run_step_def split: sum.splits)
  from pull_frames_eq [OF pull] obtain es where es: "length es = ?k"
    "asr_frames st1 = asr_frames st @ map fst es"
    "qitems (asr_output st1) = qitems (asr_output st) @ es"
    "qmax (asr_output st1) = qmax (asr_output st)" "asr_feat st1 = asr_feat st"
    "dropped_feat_chunks st1 = dropped_feat_chunks st"
    by blast
  let ?w = "asr_frames st1"
  have lw: "length ?w = ?l + ?r + ?k" using es len by simp
  have long: "\<not> length ?w \<le> ?l + ?r" using lw bs by simp
  let ?x = "ext ?w"
  obtain ok2 st2 where push: "push_feat_with_backpressure cfg now ?x st1 = (ok2, st2)"
    by fastforce
  have fr2: "asr_frames st2 = ?w" "dropped_feat_chunks st2 = dropped_feat_chunks st1"
    using push_feat_fields [OF push] by simp_all
  have ps: "py_slice_from ?w (- int ?l - int ?r) = drop ?k ?w"
    using py_slice_from_neg [OF lr, of ?w] lw by simp
  have run': "st' = (if ok2 then st2 else st2\<lparr>dropped_feat_chunks := dropped_feat_chunks st2 + 1,
                  last_feat_drop_log_ts := rate_limit now (last_feat_drop_log_ts st2) 2\<rparr>)
          \<lparr>asr_frames := drop ?k ?w\<rparr>"
    using run pull long push ps fr2 by (auto simp: run_step_def Let_def)
  consider (app) "ok2" "\<not> q_full (asr_feat st1)"
      "st2 = st1\<lparr>asr_feat := (asr_feat st1)\<lparr>qitems := qitems (asr_feat st1) @ [?x]\<rparr>\<rparr>"
    | (evict) "ok2" "q_full (asr_feat st1)" "cfg_feat_mode cfg = Drop"
      "st2 = st1\<lparr>asr_feat := (asr_feat st1)\<lparr>qitems := tl (qitems (asr_feat st1)) @ [?x]\<rparr>,
                 asr_output := (asr_output st1)\<lparr>qitems := drop ?k (qitems (asr_output st1))\<rparr>,
                 last_feat_drop_log_ts := rate_limit now (last_feat_drop_log_ts st1) (3 / 2)\<rparr>"
    | (fail) "\<not> ok2" "q_full (asr_feat st1)" "st2 = st1"
    using push push_feat_block_eq [of cfg now ?x st1] push_feat_drop_eq [of cfg st1 now ?x] wf es(5)
    by (cases "cfg_feat_mode cfg"; cases "q_full (asr_feat st1)") auto
  then show ?thesis
  proof cases
    case app
    with run' es show ?thesis by (intro exI [of _ es]) auto
  next
    case evict
    with run' es show ?thesis by (intro exI [of _ es]) auto
  next
    case fail
    with run' es show ?thesis by (intro exI [of _ es]) auto
  qed
qed

subsection \<open>Alignment of features and audio\<close>

lemma run_step_preserves_alignment:
  assumes ext: "ext_centers cfg ext center" and inv: "producer_inv cfg center st"
    and lr: "0 < cfg_l cfg + cfg_r cfg" and bs: "0 < cfg_batch_size cfg"
    and run: "run_step ext cfg now st cs = Inr (st', cs')"
    and ok: "dropped_feat_chunks st' = dropped_feat_chunks st"
  shows "producer_inv cfg center st'"
proof -
  let ?l = "cfg_l cfg" and ?k = "cfg_batch_size cfg * 2"
  have inv_st: "q_wf (asr_feat st)" "0 < qmax (asr_feat st)" "length (asr_frames st) = ?l + cfg_r cfg"
    "\<forall>b \<in> set (qitems (asr_feat st)). length (center b) = ?k"
    "map fst (qitems (asr_output st)) = concat (map center (qitems (asr_feat st))) @ drop ?l (asr_frames st)"
    using inv by (simp_all add: producer_inv_def)
  from run_step_outcome [OF lr bs inv_st(3,1,2) run] ok obtain es where es: "length es = ?k"
    "asr_frames st' = drop ?k (asr_frames st @ map fst es)" "qmax (asr_feat st') = qmax (asr_feat st)"
    and cases: "(\<not> q_full (asr_feat st) \<and>
             qitems (asr_feat st') = qitems (asr_feat st) @ [ext (asr_frames st @ map fst es)] \<and>
             qitems (asr_output st') = qitems (asr_output st) @ es) \<or>
            (q_full (asr_feat st) \<and>
             qitems (asr_feat st') = tl (qitems (asr_feat st)) @ [ext (asr_frames st @ map fst es)] \<and>
             qitems (asr_output st') = drop ?k (qitems (asr_output st) @ es))"
    by auto
  let ?x = "ext (asr_frames st @ map fst es)"
  have win: "center ?x @ drop ?l (asr_frames st') = drop ?l (asr_frames st) @ map fst es"
    and lx: "length (center ?x) = ?k"
    using center_window [OF ext inv_st(3), of "map fst es"] es(1,2) by simp_all
  have lw: "length (asr_frames st') = ?l + cfg_r cfg" using es(1,2) inv_st(3) by simp
  from cases show ?thesis
  proof
    assume app: "\<not> q_full (asr_feat st) \<and>
             qitems (asr_feat st') = qitems (asr_feat st) @ [?x] \<and>
             qitems (asr_output st') = qitems (asr_output st) @ es"
    show ?thesis
      unfolding producer_inv_def using app inv_st lw lx win es(3)
      by (auto simp: q_wf_def q_full_def qsize_def)
  next
    assume evict: "q_full (asr_feat st) \<and>
             qitems (asr_feat st') = tl (qitems (asr_feat st)) @ [?x] \<and>
             qitems (asr_output st') = drop ?k (qitems (asr_output st) @ es)"
    from evict inv_st(1,2) obtain b0 rest where f: "qitems (asr_feat st) = b0 # rest"
      by (cases "qitems (asr_feat st)") (auto simp: q_full_def qsize_def)
    with inv_st(4) have lb0: "length (center b0) = ?k" by simp
    have "map fst (qitems (asr_output st')) = drop ?k (map fst (qitems (asr_output st)) @ map fst es)"
      using evict by (simp add: drop_map)
    also have "\<dots> = drop ?k (center b0 @ concat (map center rest) @ drop ?l (asr_frames st) @ map fst es)"
      using inv_st(5) f by simp
    also have "\<dots> = concat (map center rest) @ center ?x @ drop ?l (asr_frames st')"
      using lb0 win by simp
    finally have out: "map fst (qitems (asr_output st')) =
       concat (map center rest) @ center ?x @ drop ?l (asr_frames st')" .
    have "length (qitems (asr_feat st)) = qmax (asr_feat st)"
      using evict inv_st(1) by (simp add: q_wf_def q_full_def qsize_def)
    then show ?thesis
      unfolding producer_inv_def using evict inv_st lw lx out es(3) f
      by (auto simp: q_wf_def qsize_def)
  qed
qed

text \<open>
  C14: \<open>warm_up\<close> on a fresh state establishes the alignment invariant: after it the
  output queue holds the \<open>r\<close> right-context frames of the window.
\<close>

theorem warm_up_establishes_alignment:
  assumes "asr_frames st = []" "qitems (asr_output st) = []" "qitems (asr_feat st) = []"
    and "0 < qmax (asr_feat st)"
    and "warm_up cfg st cs = Inr (st', cs')"
  shows "producer_inv cfg center st'"
proof -
  from assms(5) obtain st1 cs1 where pull: "pull_frames cfg (cfg_l cfg + cfg_r cfg) st cs = Inr (st1, cs1)"
    and st': "st' = st1\<lparr>asr_output := (asr_output st1)\<lparr>qitems := drop (cfg_l cfg) (qitems (asr_output st1))\<rparr>\<rparr>"
    by (auto simp: warm_up_def split: sum.splits)
  from pull_frames_eq [OF pull] obtain es where es: "length es = cfg_l cfg + cfg_r cfg"
    "asr_frames st1 = asr_frames st @ map fst es"
    "qitems (asr_output st1) = qitems (asr_output st) @ es" "asr_feat st1 = asr_feat st"
    by blast
  show ?thesis
    unfolding producer_inv_def st' using assms(1-4) es
    by (simp add: q_wf_def qsize_def drop_map)
qed

text \<open>
  C3: when \<open>_push_feat_with_backpressure\<close> gives up on a batch, its
  \<open>2 * batch_size\<close> audio entries stay on the output queue: the queue holds the
  queued batches' audio, then the audio of the lost batch, then the context; the next
  extracted batch will be paired with the lost batch's audio.
\<close>

theorem dropped_batch_misaligns:
  assumes ext: "ext_centers cfg ext center" and inv: "producer_inv cfg center st"
    and lr: "0 < cfg_l cfg + cfg_r cfg" and bs: "0 < cfg_batch_size cfg"
    and run: "run_step ext cfg now st cs = Inr (st', cs')"
    and drop: "dropped_feat_chunks st' \<noteq> dropped_feat_chunks st"
  shows "\<exists>x. length (center x) = cfg_batch_size cfg * 2 \<and>
           qitems (asr_feat st') = qitems (asr_feat st) \<and>
           map fst (qitems (asr_output st')) =
             concat (map center (qitems (asr_feat st'))) @ center x @ drop (cfg_l cfg) (asr_frames st')"
proof -
  let ?l = "cfg_l cfg" and ?k = "cfg_batch_size cfg * 2"
  have inv_st: "q_wf (asr_feat st)" "0 < qmax (asr_feat st)" "length (asr_frames st) = ?l + cfg_r cfg"
    "map fst (qitems (asr_output st)) = concat (map center (qitems (asr_feat st))) @ drop ?l (asr_frames st)"
    using inv by (simp_all add: producer_inv_def)
  from run_step_outcome [OF lr bs inv_st(3,1,2) run] drop obtain es where es: "length es = ?k"
    "asr_frames st' = drop ?k (asr_frames st @ map fst es)"
    "qitems (asr_feat st') = qitems (asr_feat st)" "qitems (asr_output st') = qitems (asr_output st) @ es"
    by auto
  let ?x = "ext (asr_frames st @ map fst es)"
  have win: "center ?x @ drop ?l (asr_frames st') = drop ?l (asr_frames st) @ map fst es"
    and lx: "length (center ?x) = ?k"
    using center_window [OF ext inv_st(3), of "map fst es"] es(1,2) by simp_all
  show ?thesis
    using lx es(3,4) inv_st(4) win by (intro exI [of _ ?x]) simp
qed

text \<open>
  C5: after \<open>flush_talk\<close> the next extracted batch describes frames
  \<open>l .. l + 2 * batch_size\<close> of its window, while the output queue holds the last
  \<open>2 * batch_size\<close> frames of that window: the audio is shifted by the right context
  \<open>r\<close> because \<open>flush_talk\<close> clears the queues but keeps \<open>self.frames\<close>.
\<close>

theorem flush_shifts_audio:
  assumes ext: "ext_centers cfg ext center" and len: "length (asr_frames st) = cfg_l cfg + cfg_r cfg"
    and wf: "q_wf (asr_feat st)" "0 < qmax (asr_feat st)"
    and lr: "0 < cfg_l cfg + cfg_r cfg" and bs: "0 < cfg_batch_size cfg"
    and run: "run_step ext cfg now (flush_talk st) cs = Inr (st', cs')"
  shows "\<exists>w. length w = cfg_l cfg + cfg_r cfg + cfg_batch_size cfg * 2 \<and>
           qitems (asr_feat st') = [ext w] \<and>
           map fst (qitems (asr_output st')) = drop (cfg_l cfg + cfg_r cfg) w \<and>
           center (ext w) = take (cfg_batch_size cfg * 2) (drop (cfg_l cfg) w)"
proof -
  let ?k = "cfg_batch_size cfg * 2"
  have fl: "length (asr_frames (flush_talk st)) = cfg_l cfg + cfg_r cfg"
    "q_wf (asr_feat (flush_talk st))" "0 < qmax (asr_feat (flush_talk st))"
    "\<not> q_full (asr_feat (flush_talk st))"
    using len wf by (simp_all add: q_wf_def q_full_def qsize_def)
  from run_step_outcome [OF lr bs fl(1-3) run] fl(4) obtain es where es: "length es = ?k"
    "qitems (asr_feat st') = [ext (asr_frames st @ map fst es)]"
    "qitems (asr_output st') = es"
    by auto
  let ?w = "asr_frames st @ map fst es"
  have "length ?w = cfg_l cfg + cfg_r cfg + ?k" using len es(1) by simp
  moreover have "drop (cfg_l cfg + cfg_r cfg) ?w = map fst es" using len by simp
  ultimately show ?thesis
    using es ext by (intro exI [of _ ?w]) (simp add: ext_centers_def)
qed

text \<open>
  C36: with the Drop policy and no consumer, the feature queue always holds the newest
  \<open>maxsize\<close> batches pushed, in order (Scenario C).
\<close>

theorem feat_drop_keeps_newest:
  assumes "cfg_feat_mode cfg = Drop" "q_wf (asr_feat st)" "0 < qmax (asr_feat st)"
  shows "qitems (asr_feat (fold (\<lambda>x s. snd (push_feat_with_backpressure cfg now x s)) xs st)) =
           drop (length (qitems (asr_feat st)) + length xs - qmax (asr_feat st)) (qitems (asr_feat st) @ xs)"
  using assms(2,3)
proof (induction xs arbitrary: st)
  case Nil
  then show ?case by (simp add: q_wf_def qsize_def)
next
  case (Cons x xs)
  let ?st1 = "snd (push_feat_with_backpressure cfg now x st)"
  let ?L = "qitems (asr_feat st)" and ?m = "qmax (asr_feat st)"
  from push_feat_drop_window [OF assms(1) Cons.prems] have s1:
    "qitems (asr_feat ?st1) = drop (Suc (length ?L) - ?m) (?L @ [x])"
    "qmax (asr_feat ?st1) = ?m" "q_wf (asr_feat ?st1)"
    by simp_all
  have le: "length ?L \<le> ?m" using Cons.prems by (simp add: q_wf_def qsize_def)
  have "qitems (asr_feat (fold (\<lambda>x s. snd (push_feat_with_backpressure cfg now x s)) (x # xs) st)) =
        drop (length (qitems (asr_feat ?st1)) + length xs - ?m) (qitems (asr_feat ?st1) @ xs)"
    using Cons.IH [of ?st1] s1 Cons.prems by simp
  also have "\<dots> = drop (length (qitems (asr_feat ?st1)) + length xs - ?m + (Suc (length ?L) - ?m)) (?L @ x # xs)"
    unfolding s1(1) by (subst drop_drop_append) simp_all
  also have "length (qitems (asr_feat ?st1)) + length xs - ?m + (Suc (length ?L) - ?m) =
             length ?L + length (x # xs) - ?m"
    using le Cons.prems(2) unfolding s1(1) by simp
  finally show ?case by simp
qed

text \<open>
  C39: with no context (\<open>l + r = 0\<close>), \<open>self.frames[-0:]\<close> is the whole list, so each
  \<open>run_step\<close> grows the window by \<open>2 * batch_size\<close> frames without bound.
\<close>

theorem frames_grow_without_context:
  assumes lr: "cfg_l cfg + cfg_r cfg = 0" and run: "run_step ext cfg now st cs = Inr (st', cs')"
  shows "\<exists>new. length new = cfg_batch_size cfg * 2 \<and> asr_frames st' = asr_frames st @ new"
proof -
  from run obtain st1 cs1 where pull: "pull_frames cfg (cfg_batch_size cfg * 2) st cs = Inr (st1, cs1)"
    by (auto simp: run_step_def split: sum.splits)
  from pull_frames_eq [OF pull] obtain new where new: "length new = cfg_batch_size cfg * 2"
    "asr_frames st1 = asr_frames st @ new" by force
  obtain ok2 st2 where push: "push_feat_with_backpressure cfg now (ext (asr_frames st1)) st1 = (ok2, st2)"
    by fastforce
  have "asr_frames st' = asr_frames st1"
    using run pull lr push push_feat_fields [OF push]
    by (auto simp: run_step_def Let_def split: if_splits)
  with new show ?thesis by (intro exI [of _ new]) simp
qed

subsection \<open>Witnesses\<close>

lemmas run_step_eval = run_step_def get_audio_frame_def get_nowait_def mk_queue_def load_custom_def
  put_unbounded_def push_feat_with_backpressure_def put_nowait_def q_full_def qsize_def
  feat_block_attempts_eq py_slice_from_def warm_up_def flush_talk_def drain_queue_eq

theorem scenario_c_feat_drop:
  "(let cfg = \<lparr>cfg_fps = 50, cfg_chunk = 320, cfg_mode = Drop, cfg_max_chunks = 2,
               cfg_batch_size = 2, cfg_l = 2, cfg_r = 2, cfg_feat_qmax = 2, cfg_feat_mode = Drop\<rparr>;
        st = asr_init cfg :: (int, int, nat) asr_state
    in qitems (asr_feat (fold (\<lambda>x s. snd (push_feat_with_backpressure cfg 0 x s)) [1, 2, 3, 4, 5] st)) = [4, 5])"
  unfolding Let_def
  using feat_drop_keeps_newest [of "\<lparr>cfg_fps = 50, cfg_chunk = 320, cfg_mode = Drop, cfg_max_chunks = 2,
               cfg_batch_size = 2, cfg_l = 2, cfg_r = 2, cfg_feat_qmax = 2, cfg_feat_mode = Drop\<rparr>"
      "asr_init \<lparr>cfg_fps = 50, cfg_chunk = 320, cfg_mode = Drop, cfg_max_chunks = 2,
               cfg_batch_size = 2, cfg_l = 2, cfg_r = 2, cfg_feat_qmax = 2, cfg_feat_mode = Drop\<rparr>" 0 "[1, 2, 3, 4, 5::nat]"]
  by (simp add: asr_init_def mk_queue_def q_wf_def qsize_def)

theorem warm_up_alignment_witness:
  "let cfg = \<lparr>cfg_fps = 4, cfg_chunk = 2, cfg_mode = Block, cfg_max_chunks = 2,
              cfg_batch_size = 1, cfg_l = 2, cfg_r = 3, cfg_feat_qmax = 2, cfg_feat_mode = Block\<rparr>;
       st = asr_init cfg :: (int, int, int list list) asr_state;
       cs = load_custom [] :: (int, unit) custom_state
   in \<exists>st' cs'. warm_up cfg st cs = Inr (st', cs') \<and>
        producer_inv cfg (\<lambda>w. take 2 (drop 2 w)) st'"
proof -
  let ?cfg = "\<lparr>cfg_fps = 4, cfg_chunk = 2, cfg_mode = Block, cfg_max_chunks = 2,
              cfg_batch_size = 1, cfg_l = 2, cfg_r = 3, cfg_feat_qmax = 2, cfg_feat_mode = Block\<rparr>"
  let ?st = "asr_init ?cfg :: (int, int, int list list) asr_state"
  let ?cs = "load_custom [] :: (int, unit) custom_state"
  have "\<exists>st' cs'. warm_up ?cfg ?st ?cs = Inr (st', cs')"
    by (simp add: run_step_eval asr_init_def numeral_2_eq_2 numeral_3_eq_3)
  then obtain st' cs' where r: "warm_up ?cfg ?st ?cs = Inr (st', cs')" by blast
  have "producer_inv ?cfg (\<lambda>w. take 2 (drop 2 w)) st'"
    by (rule warm_up_establishes_alignment [OF _ _ _ _ r]) (simp_all add: asr_init_def mk_queue_def)
  with r show ?thesis unfolding Let_def by blast
qed

theorem dropped_batch_misaligns_witness:
  "let cfg = \<lparr>cfg_fps = 4, cfg_chunk = 2, cfg_mode = Block, cfg_max_chunks = 2,
              cfg_batch_size = 1, cfg_l = 2, cfg_r = 3, cfg_feat_qmax = 1, cfg_feat_mode = Block\<rparr>;
       center = (\<lambda>w::int list list. take 2 (drop 2 w));
       st = \<lparr>asr_queue = mk_queue 2,
             asr_output = \<lparr>qitems = [([4], 0, None), ([5], 0, None), ([6], 0, None), ([7], 0, None), ([8], 0, None)], qmax = 0\<rparr>,
             asr_feat = \<lparr>qitems = [[[2], [3], [4], [5], [6], [7], [8]]], qmax = 1\<rparr>,
             asr_frames = [[4], [5], [6], [7], [8]],
             dropped_audio_chunks = 0, last_drop_log_ts = 0, dropped_feat_chunks = 0,
             last_feat_drop_log_ts = 0\<rparr> :: (int, int, int list list) asr_state;
       cs = load_custom [] :: (int, unit) custom_state
   in ext_centers cfg id center \<and> producer_inv cfg center st \<and>
      (\<exists>st' cs'. run_step id cfg 0 st cs = Inr (st', cs') \<and>
         dropped_feat_chunks st' \<noteq> dropped_feat_chunks st \<and>
         (\<exists>x. length (center x) = 2 \<and> qitems (asr_feat st') = qitems (asr_feat st) \<and>
              map fst (qitems (asr_output st')) =
                concat (map center (qitems (asr_feat st'))) @ center x @ drop 2 (asr_frames st')))"
proof -
  let ?cfg = "\<lparr>cfg_fps = 4, cfg_chunk = 2, cfg_mode = Block, cfg_max_chunks = 2,
              cfg_batch_size = 1, cfg_l = 2, cfg_r = 3, cfg_feat_qmax = 1, cfg_feat_mode = Block\<rparr>"
  let ?center = "\<lambda>w::int list list. take 2 (drop 2 w)"
  let ?st = "\<lparr>asr_queue = mk_queue 2,
             asr_output = \<lparr>qitems = [([4], 0, None), ([5], 0, None), ([6], 0, None), ([7], 0, None), ([8], 0, None)], qmax = 0\<rparr>,
             asr_feat = \<lparr>qitems = [[[2], [3], [4], [5], [6], [7], [8]]], qmax = 1\<rparr>,
             asr_frames = [[4], [5], [6], [7], [8]],
             dropped_audio_chunks = 0, last_drop_log_ts = 0, dropped_feat_chunks = 0,
             last_feat_drop_log_ts = 0\<rparr> :: (int, int, int list list) asr_state"
  let ?cs = "load_custom [] :: (int, unit) custom_state"
  have ext: "ext_centers ?cfg id ?center" by (simp add: ext_centers_def)
  have inv: "producer_inv ?cfg ?center ?st"
    by (simp add: producer_inv_def q_wf_def qsize_def)
  have "\<exists>st' cs'. run_step id ?cfg 0 ?st ?cs = Inr (st', cs') \<and> dropped_feat_chunks st' = 1"
    by (simp add: run_step_eval numeral_2_eq_2)
  then obtain st' cs' where r: "run_step id ?cfg 0 ?st ?cs = Inr (st', cs')"
    and d: "dropped_feat_chunks st' = 1" by blast
  have "\<exists>x. length (?center x) = 2 \<and> qitems (asr_feat st') = qitems (asr_feat ?st) \<and>
              map fst (qitems (asr_output st')) =
                concat (map ?center (qitems (asr_feat st'))) @ ?center x @ drop 2 (asr_frames st')"
    using dropped_batch_misaligns [OF ext inv _ _ r] d by simp
  with ext inv r d show ?thesis unfolding Let_def by auto
qed

theorem flush_shifts_audio_witness:
  "let cfg = \<lparr>cfg_fps = 4, cfg_chunk = 2, cfg_mode = Block, cfg_max_chunks = 2,
              cfg_batch_size = 1, cfg_l = 2, cfg_r = 3, cfg_feat_qmax = 1, cfg_feat_mode = Block\<rparr>;
       center = (\<lambda>w::int list list. take 2 (drop 2 w));
       st = \<lparr>asr_queue = mk_queue 2,
             asr_output = \<lparr>qitems = [([4], 0, None), ([5], 0, None), ([6], 0, None), ([7], 0, None), ([8], 0, None)], qmax = 0\<rparr>,
             asr_feat = \<lparr>qitems = [[[2], [3], [4], [5], [6], [7], [8]]], qmax = 1\<rparr>,
             asr_frames = [[4], [5], [6], [7], [8]],
             dropped_audio_chunks = 0, last_drop_log_ts = 0, dropped_feat_chunks = 0,
             last_feat_drop_log_ts = 0\<rparr> :: (int, int, int list list) asr_state;
       cs = load_custom [] :: (int, unit) custom_state
   in \<exists>st' cs'. run_step id cfg 0 (flush_talk st) cs = Inr (st', cs') \<and>
        (\<exists>w. length w = 7 \<and> qitems (asr_feat st') = [w] \<and>
             map fst (qitems (asr_output st')) = drop 5 w \<and> center w = take 2 (drop 2 w)) \<and>
        qitems (asr_feat st') = [[[4], [5], [6], [7], [8], [0, 0], [0, 0]]] \<and>
        map fst (qitems (asr_output st')) = [[0, 0], [0, 0]]"
proof -
  let ?cfg = "\<lparr>cfg_fps = 4, cfg_chunk = 2, cfg_mode = Block, cfg_max_chunks = 2,
              cfg_batch_size = 1, cfg_l = 2, cfg_r = 3, cfg_feat_qmax = 1, cfg_feat_mode = Block\<rparr>"
  let ?center = "\<lambda>w::int list list. take 2 (drop 2 w)"
  let ?st = "\<lparr>asr_queue = mk_queue 2,
             asr_output = \<lparr>qitems = [([4], 0, None), ([5], 0, None), ([6], 0, None), ([7], 0, None), ([8], 0, None)], qmax = 0\<rparr>,
             asr_feat = \<lparr>qitems = [[[2], [3], [4], [5], [6], [7], [8]]], qmax = 1\<rparr>,
             asr_frames = [[4], [5], [6], [7], [8]],
             dropped_audio_chunks = 0, last_drop_log_ts = 0, dropped_feat_chunks = 0,
             last_feat_drop_log_ts = 0\<rparr> :: (int, int, int list list) asr_state"
  let ?cs = "load_custom [] :: (int, unit) custom_state"
  have ext: "ext_centers ?cfg id ?center" by (simp add: ext_centers_def)
  have "\<exists>st' cs'. run_step id ?cfg 0 (flush_talk ?st) ?cs = Inr (st', cs') \<and>
        qitems (asr_feat st') = [[[4], [5], [6], [7], [8], [0, 0], [0, 0]]] \<and>
        map fst (qitems (asr_output st')) = [[0, 0], [0, 0]]"
    by (simp add: run_step_eval numeral_2_eq_2)
  then obtain st' cs' where r: "run_step id ?cfg 0 (flush_talk ?st) ?cs = Inr (st', cs')"
    and c: "qitems (asr_feat st') = [[[4], [5], [6], [7], [8], [0, 0], [0, 0]]]"
      "map fst (qitems (asr_output st')) = [[0, 0], [0, 0]]" by (elim exE conjE)
  have "\<exists>w. length w = 7 \<and> qitems (asr_feat st') = [w] \<and>
             map fst (qitems (asr_output st')) = drop 5 w \<and> ?center w = take 2 (drop 2 w)"
    using flush_shifts_audio [OF ext _ _ _ _ _ r] by (simp add: q_wf_def qsize_def)
  with r c show ?thesis unfolding Let_def by (intro exI [of _ st'] exI [of _ cs'] conjI)
qed

theorem frames_grow_witness:
  "let cfg = \<lparr>cfg_fps = 4, cfg_chunk = 2, cfg_mode = Block, cfg_max_chunks = 2,
              cfg_batch_size = 1, cfg_l = 0, cfg_r = 0, cfg_feat_qmax = 2, cfg_feat_mode = Block\<rparr>;
       st = (asr_init cfg)\<lparr>asr_frames := [[1]]\<rparr> :: (int, int, int list list) asr_state;
       cs = load_custom [] :: (int, unit) custom_state
   in \<exists>st' cs'. run_step id cfg 0 st cs = Inr (st', cs') \<and>
        (\<exists>new. length new = 2 \<and> asr_frames st' = [[1]] @ new)"
proof -
  let ?cfg = "\<lparr>cfg_fps = 4, cfg_chunk = 2, cfg_mode = Block, cfg_max_chunks = 2,
              cfg_batch_size = 1, cfg_l = 0, cfg_r = 0, cfg_feat_qmax = 2, cfg_feat_mode = Block\<rparr>"
  let ?st = "(asr_init ?cfg)\<lparr>asr_frames := [[1]]\<rparr> :: (int, int, int list list) asr_state"
  let ?cs = "load_custom [] :: (int, unit) custom_state"
  have "\<exists>st' cs'. run_step id ?cfg 0 ?st ?cs = Inr (st', cs')"
    by (simp add: run_step_eval asr_init_def numeral_2_eq_2)
  then obtain st' cs' where r: "run_step id ?cfg 0 ?st ?cs = Inr (st', cs')" by blast
  have "\<exists>new. length new = 2 \<and> asr_frames st' = [[1]] @ new"
    using frames_grow_without_context [OF _ r] by simp
  with r show ?thesis unfolding Let_def by blast
qed

end
