(* ===== verification/Inference.thy ===== *)
theory Inference
  imports FeatureStage FrameIndex
begin

text \<open>
  The synthesis worker \<open>inference\<close> of \<open>src/musereal.py\<close> and the realtime audio
  bridge \<open>_push_realtime_audio_frames\<close> it feeds.  One iteration of the worker's loop
  takes a feature batch from the feature queue (or times out and loops), takes
  \<open>2 * batch_size\<close> audio entries from the output queue, forwards them to the realtime
  bridge, and either emits \<open>batch_size\<close> idle results (all entries silent) or runs the
  UNet/VAE on the batch and emits one result per decoded frame.  Each result is
  \<open>(frame, mirror index, two audio entries)\<close>, \<open>None\<close> as frame for idle.

  The model forward pass is a parameter \<open>synth math x idxs\<close>: the decoded frames for
  the feature batch \<open>x\<close> and the latent positions \<open>idxs\<close>, or the exception it
  raises; \<open>math\<close> is the process-wide flag set by the SDPA fallback
  (\<open>torch.backends.cuda.enable_math_sdp\<close> and friends), which the code switches on
  before its single retry.  An exception that escapes the loop body ends the thread:
  the step's result \<open>Crashed\<close>.  The blocking \<open>audio_out_queue.get()\<close> is modelled at
  batch granularity: the step is \<open>Blocked\<close> when fewer than \<open>2 * batch_size\<close>
  entries are queued.
\<close>

subsection \<open>The realtime audio bridge\<close>

text \<open>
  One frame: up to two attempts of \<open>put_nowait\<close>, evicting the oldest entry after a
  \<open>queue.Full\<close>; the frame is dropped when both attempts fail or the eviction finds the
  queue empty.
\<close>

fun push_rt_attempts :: "nat \<Rightarrow> 'a \<Rightarrow> 'a pyqueue \<Rightarrow> 'a pyqueue" where
  "push_rt_attempts 0 x q = q"
| "push_rt_attempts (Suc n) x q =
     (case put_nowait x q of
        Inr q' \<Rightarrow> q'
      | Inl _ \<Rightarrow> (case get_nowait q of Inl _ \<Rightarrow> q | Inr (_, q') \<Rightarrow> push_rt_attempts n x q'))"

definition push_realtime_audio_frames :: "'a pyqueue option \<Rightarrow> 'a list \<Rightarrow> 'a pyqueue option" where
  "push_realtime_audio_frames rq frames =
     (case rq of None \<Rightarrow> None | Some q \<Rightarrow> Some (fold (push_rt_attempts 2) frames q))"

text \<open>\<open>MuseReal.__init__\<close>: \<open>Queue(maxsize=max(fps * 2, 100))\<close>.\<close>

definition realtime_queue_max :: "nat \<Rightarrow> nat" where
  "realtime_queue_max fps = max (fps * 2) 100"

subsection \<open>The worker's state and one iteration\<close>

type_synonym ('s, 'e, 'v) render_result = "'v option \<times> nat \<times> ('s, 'e) audio_entry list"

record ('s, 'e, 'v) infer_state =
  inf_index :: nat
  inf_results :: "('s, 'e, 'v) render_result list"
  inf_rt :: "('s, 'e) audio_entry pyqueue option"
  inf_math :: bool

datatype 'st infer_result = Blocked | Crashed py_error | Running 'st

definition is_all_silence :: "('s, 'e) audio_entry list \<Rightarrow> bool" where
  "is_all_silence afs = list_all (\<lambda>(f, t, e). t \<noteq> 0) afs"

text \<open>\<open>for i in range(batch_size): idx = __mirror_index(length, index + i)\<close>.\<close>

fun latent_indices :: "nat \<Rightarrow> nat list \<Rightarrow> py_error + nat list" where
  "latent_indices len [] = Inr []"
| "latent_indices len (i # is) =
     (case mirror_index len i of
        Inl e \<Rightarrow> Inl e
      | Inr m \<Rightarrow> (case latent_indices len is of Inl e \<Rightarrow> Inl e | Inr ms \<Rightarrow> Inr (m # ms)))"

text \<open>
  \<open>for i, res_frame in enumerate(frames): res_frame_queue.put((res_frame,
  __mirror_index(length, index), audio_frames[i*2:i*2+2])); index += 1\<close>, shared by
  the idle branch (frames all \<open>None\<close>) and the synthesis branch.
\<close>

fun emit_results ::
  "nat \<Rightarrow> ('s, 'e) audio_entry list \<Rightarrow> nat \<Rightarrow> nat \<Rightarrow> 'v option list \<Rightarrow>
   py_error + (('s, 'e, 'v) render_result list \<times> nat)" where
  "emit_results len afs i idx [] = Inr ([], idx)"
| "emit_results len afs i idx (v # vs) =
     (case mirror_index len idx of
        Inl e \<Rightarrow> Inl e
      | Inr m \<Rightarrow>
          (case emit_results len afs (Suc i) (Suc idx) vs of
             Inl e \<Rightarrow> Inl e
           | Inr (rs, idx') \<Rightarrow> Inr ((v, m, py_slice afs (i * 2) (i * 2 + 2)) # rs, idx')))"

text \<open>
  The forward pass with the SDPA fallback: a \<open>RuntimeError\<close> carrying one of the two
  kernel messages switches the process to math-only attention and retries once; any
  other exception, or a failing retry, propagates.
\<close>

definition run_synth ::
  "(bool \<Rightarrow> 'f \<Rightarrow> nat list \<Rightarrow> py_error + 'v list) \<Rightarrow> bool \<Rightarrow> 'f \<Rightarrow> nat list \<Rightarrow>
   py_error + ('v list \<times> bool)" where
  "run_synth synth math x idxs =
     (case synth math x idxs of
        Inr recon \<Rightarrow> Inr (recon, math)
      | Inl SdpaKernelError \<Rightarrow>
          (case synth True x idxs of Inl e \<Rightarrow> Inl e | Inr recon \<Rightarrow> Inr (recon, True))
      | Inl e \<Rightarrow> Inl e)"

text \<open>
  The rest of an iteration once the worker holds the feature batch \<open>x\<close>
  (\<open>whisper_chunks\<close>): the \<open>2 * batch_size\<close> blocking \<open>audio_out_queue.get()\<close> calls,
  the realtime forward, then silence skip or synthesis.  \<open>Blocked\<close>: fewer entries are
  queued, so the worker waits, still holding \<open>x\<close>.
\<close>

definition infer_finish ::
  "(bool \<Rightarrow> 'f \<Rightarrow> nat list \<Rightarrow> py_error + 'v list) \<Rightarrow> nat \<Rightarrow> nat \<Rightarrow> 'f \<Rightarrow>
   ('s, 'e, 'f) asr_state \<Rightarrow> ('s, 'e, 'v) infer_state \<Rightarrow>
   (('s, 'e, 'f) asr_state \<times> ('s, 'e, 'v) infer_state) infer_result" where
  "infer_finish synth bs len x st ist =
     (if qsize (asr_output st) < bs * 2 then Blocked
      else
        (let afs = take (bs * 2) (qitems (asr_output st));
             st1 = st\<lparr>asr_output := (asr_output st)\<lparr>qitems := drop (bs * 2) (qitems (asr_output st))\<rparr>\<rparr>;
             ist1 = ist\<lparr>inf_rt := push_realtime_audio_frames (inf_rt ist) afs\<rparr>
         in if is_all_silence afs then
              (case emit_results len afs 0 (inf_index ist) (replicate bs None) of
                 Inl e \<Rightarrow> Crashed e
               | Inr (rs, idx') \<Rightarrow>
                   Running (st1, ist1\<lparr>inf_index := idx', inf_results := inf_results ist @ rs\<rparr>))
            else
              (case latent_indices len [inf_index ist..<inf_index ist + bs] of
                 Inl e \<Rightarrow> Crashed e
               | Inr idxs \<Rightarrow>
                   (case run_synth synth (inf_math ist) x idxs of
                      Inl e \<Rightarrow> Crashed e
                    | Inr (recon, math') \<Rightarrow>
                        (case emit_results len afs 0 (inf_index ist) (map Some recon) of
                           Inl e \<Rightarrow> Crashed e
                         | Inr (rs, idx') \<Rightarrow>
                             Running (st1, ist1\<lparr>inf_index := idx', inf_results := inf_results ist @ rs,
                                                inf_math := math'\<rparr>))))))"

text \<open>
  One iteration of the loop run by itself: \<open>audio_feat_queue.get(timeout=1)\<close> (an empty
  queue times out and the loop goes round), then \<open>infer_finish\<close>.  In the composed
  pipeline the two halves are separate steps, so the producer can run in between.
\<close>

definition infer_step ::
  "(bool \<Rightarrow> 'f \<Rightarrow> nat list \<Rightarrow> py_error + 'v list) \<Rightarrow> nat \<Rightarrow> nat \<Rightarrow>
   ('s, 'e, 'f) asr_state \<Rightarrow> ('s, 'e, 'v) infer_state \<Rightarrow>
   (('s, 'e, 'f) asr_state \<times> ('s, 'e, 'v) infer_state) infer_result" where
  "infer_step synth bs len st ist =
     (case get_nowait (asr_feat st) of
        Inl _ \<Rightarrow> Running (st, ist)
      | Inr (x, fq) \<Rightarrow> infer_finish synth bs len x (st\<lparr>asr_feat := fq\<rparr>) ist)"

subsection \<open>Behaviour of one iteration\<close>

lemma emit_results_ok:
  "0 < len \<Longrightarrow> \<exists>rs. emit_results len afs i idx vs = Inr (rs, idx + length vs) \<and> map fst rs = vs \<and>
     map (\<lambda>r. fst (snd r)) rs = map (mirror_res len) [idx..<idx + length vs] \<and>
     map (\<lambda>r. snd (snd r)) rs = map (\<lambda>k. py_slice afs (k * 2) (k * 2 + 2)) [i..<i + length vs]"
proof (induction vs arbitrary: i idx)
  case Nil
  then show ?case by simp
next
  case (Cons v vs)
  then obtain rs where "emit_results len afs (Suc i) (Suc idx) vs = Inr (rs, Suc idx + length vs)"
    "map fst rs = vs" "map (\<lambda>r. fst (snd r)) rs = map (mirror_res len) [Suc idx..<Suc idx + length vs]"
    "map (\<lambda>r. snd (snd r)) rs = map (\<lambda>k. py_slice afs (k * 2) (k * 2 + 2)) [Suc i..<Suc i + length vs]"
    by blast
  moreover have "[idx..<idx + length (v # vs)] = idx # [Suc idx..<Suc idx + length vs]"
    "[i..<i + length (v # vs)] = i # [Suc i..<Suc i + length vs]"
    by (simp_all add: upt_conv_Cons del: upt.simps)
  ultimately show ?case using Cons.prems by simp
qed

lemma emit_results_zero: "emit_results 0 afs i idx (v # vs) = Inl ZeroDivisionError"
  by simp

lemma latent_indices_ok: "0 < len \<Longrightarrow> latent_indices len is = Inr (map (mirror_res len) is)"
  by (induction "is") simp_all

lemma latent_indices_zero: "latent_indices 0 (i # is) = Inl ZeroDivisionError"
  by simp

lemma emit_results_Inr:
  assumes r: "emit_results len afs i idx vs = Inr (rs, idx')"
  shows "idx' = idx + length vs \<and> length rs = length vs \<and> map fst rs = vs \<and>
   map (\<lambda>r. fst (snd r)) rs = map (mirror_res len) [idx..<idx + length vs] \<and>
   map (\<lambda>r. snd (snd r)) rs = map (\<lambda>k. py_slice afs (k * 2) (k * 2 + 2)) [i..<i + length vs]"
proof (cases "len = 0 \<and> vs \<noteq> []")
  case True
  then obtain v vs' where "vs = v # vs'" by (cases vs) auto
  with True r show ?thesis by simp
next
  case False
  then consider "vs = []" | "0 < len" by auto
  then show ?thesis
  proof cases
    case 1
    with r show ?thesis by simp
  next
    case 2
    from emit_results_ok [OF 2, of afs i idx vs] r show ?thesis by (auto dest: map_eq_imp_length_eq)
  qed
qed

lemma push_rt_attempts_window:
  assumes "q_wf q" "0 < qmax q"
  shows "qitems (push_rt_attempts 2 x q) = drop (Suc (length (qitems q)) - qmax q) (qitems q @ [x]) \<and>
         qmax (push_rt_attempts 2 x q) = qmax q"
proof (cases "q_full q")
  case True
  with assms have len: "length (qitems q) = qmax q"
    by (simp add: q_wf_def q_full_def qsize_def)
  with assms(2) obtain y ys where q: "qitems q = y # ys" by (cases "qitems q") auto
  with len have "\<not> q_full (q\<lparr>qitems := ys\<rparr>)" by (simp add: q_full_def qsize_def)
  with True q len show ?thesis
    by (simp add: numeral_2_eq_2 put_nowait_def get_nowait_def)
next
  case False
  with assms have "length (qitems q) < qmax q"
    by (simp add: q_wf_def q_full_def qsize_def)
  with False show ?thesis
    by (simp add: numeral_2_eq_2 put_nowait_def)
qed

lemma run_synth_math:
  "run_synth synth math x idxs = Inr (recon, math') \<Longrightarrow> math \<longrightarrow> math'"
  by (auto simp: run_synth_def split: sum.splits py_error.splits)

lemma audio_pairs:
  "length afs = bs * 2 \<Longrightarrow> concat (map (\<lambda>k. py_slice afs (k * 2) (k * 2 + 2)) [0..<bs]) = afs"
  using concat_pairs [of afs bs] by (simp add: mult.commute)

lemma sdpa_fallback_sticky:
  assumes "infer_step synth bs len st ist = Running (st', ist')"
  shows "inf_math ist \<longrightarrow> inf_math ist'"
  using assms
  by (auto simp: infer_step_def infer_finish_def Let_def split: sum.splits prod.splits if_splits dest: run_synth_math)

lemma producer_inv_output:
  assumes "producer_inv cfg center st" "qitems (asr_feat st) = x # rest"
  shows "cfg_batch_size cfg * 2 \<le> qsize (asr_output st) \<and>
         map fst (take (cfg_batch_size cfg * 2) (qitems (asr_output st))) = center x \<and>
         map fst (drop (cfg_batch_size cfg * 2) (qitems (asr_output st))) =
           concat (map center rest) @ drop (cfg_l cfg) (asr_frames st)"
proof -
  have lx: "length (center x) = cfg_batch_size cfg * 2"
    and out: "map fst (qitems (asr_output st)) = center x @ concat (map center rest) @ drop (cfg_l cfg) (asr_frames st)"
    using assms by (simp_all add: producer_inv_def)
  have "length (qitems (asr_output st)) = length (map fst (qitems (asr_output st)))" by simp
  then have "cfg_batch_size cfg * 2 \<le> length (qitems (asr_output st))" using out lx by simp
  moreover have "map fst (take (cfg_batch_size cfg * 2) (qitems (asr_output st))) = center x"
    using out lx by (simp add: take_map [symmetric])
  moreover have "map fst (drop (cfg_batch_size cfg * 2) (qitems (asr_output st))) =
           concat (map center rest) @ drop (cfg_l cfg) (asr_frames st)"
    using out lx by (simp add: drop_map [symmetric])
  ultimately show ?thesis by (simp add: qsize_def)
qed

lemma infer_finish_asr:
  "infer_finish synth bs len x st ist = Running (st', ist') \<Longrightarrow>
   bs * 2 \<le> qsize (asr_output st) \<and>
   st' = st\<lparr>asr_output := (asr_output st)\<lparr>qitems := drop (bs * 2) (qitems (asr_output st))\<rparr>\<rparr>"
  by (auto simp: infer_finish_def Let_def not_less split: sum.splits prod.splits if_splits)

lemma infer_step_asr:
  "infer_step synth bs len st ist = Running (st', ist') \<Longrightarrow>
   st' = st \<or>
   (\<exists>x rest. qitems (asr_feat st) = x # rest \<and> bs * 2 \<le> qsize (asr_output st) \<and>
      st' = st\<lparr>asr_feat := (asr_feat st)\<lparr>qitems := rest\<rparr>,
               asr_output := (asr_output st)\<lparr>qitems := drop (bs * 2) (qitems (asr_output st))\<rparr>\<rparr>)"
  by (cases "qitems (asr_feat st)")
     (auto simp: infer_step_def infer_finish_def get_nowait_def Let_def not_less split: sum.splits prod.splits if_splits)

lemma infer_step_keeps_producer_inv:
  assumes inv: "producer_inv cfg center st"
    and run: "infer_step synth (cfg_batch_size cfg) len st ist = Running (st', ist')"
  shows "producer_inv cfg center st'"
  using infer_step_asr [OF run]
proof
  assume "st' = st" with inv show ?thesis by simp
next
  assume "\<exists>x rest. qitems (asr_feat st) = x # rest \<and> cfg_batch_size cfg * 2 \<le> qsize (asr_output st) \<and>
      st' = st\<lparr>asr_feat := (asr_feat st)\<lparr>qitems := rest\<rparr>,
               asr_output := (asr_output st)\<lparr>qitems := drop (cfg_batch_size cfg * 2) (qitems (asr_output st))\<rparr>\<rparr>"
  then obtain x rest where f: "qitems (asr_feat st) = x # rest" and
    st': "st' = st\<lparr>asr_feat := (asr_feat st)\<lparr>qitems := rest\<rparr>,
               asr_output := (asr_output st)\<lparr>qitems := drop (cfg_batch_size cfg * 2) (qitems (asr_output st))\<rparr>\<rparr>"
    by blast
  from producer_inv_output [OF inv f] have o: "map fst (drop (cfg_batch_size cfg * 2) (qitems (asr_output st))) =
           concat (map center rest) @ drop (cfg_l cfg) (asr_frames st)" by blast
  show ?thesis
    using inv f o unfolding st' by (auto simp: producer_inv_def q_wf_def qsize_def)
qed

text \<open>What the results of a finished iteration carry: the consumed audio entries, in pairs,
  from the front of the output queue.\<close>

lemma infer_finish_audio:
  assumes "infer_finish synth bs len x st ist = Running (st', ist')"
  shows "\<exists>rs. inf_results ist' = inf_results ist @ rs \<and>
           concat (map (\<lambda>r. snd (snd r)) rs) = take (2 * length rs) (take (bs * 2) (qitems (asr_output st)))"
proof -
  let ?afs = "take (bs * 2) (qitems (asr_output st))"
  have pairs: "concat (map (\<lambda>r. snd (snd r)) rs) = take (2 * length rs) ?afs"
    if "emit_results len ?afs 0 idx vs = Inr (rs, idx')" for rs idx' idx and vs :: "'v option list"
  proof -
    from emit_results_Inr [OF that] have "length rs = length vs"
      "map (\<lambda>r. snd (snd r)) rs = map (\<lambda>k. py_slice ?afs (k * 2) (k * 2 + 2)) [0..<length vs]"
      by simp_all
    then show ?thesis using concat_pairs [of ?afs "length vs"] by simp
  qed
  show ?thesis
    using assms
    by (auto simp: infer_finish_def Let_def split: if_splits sum.splits prod.splits dest: pairs)
qed

subsection \<open>Properties of the worker\<close>

lemma infer_finish_index:
  assumes "infer_finish synth bs len x st ist = Running (st', ist')"
  shows "\<exists>rs. inf_results ist' = inf_results ist @ rs \<and> inf_index ist' = inf_index ist + length rs \<and>
           map (\<lambda>r. fst (snd r)) rs = map (mirror_res len) [inf_index ist..<inf_index ist']"
  using assms
  by (auto simp: infer_finish_def Let_def split: sum.splits prod.splits if_splits
      dest!: emit_results_Inr)

lemma infer_step_index:
  assumes "infer_step synth bs len st ist = Running (st', ist')"
  shows "\<exists>rs. inf_results ist' = inf_results ist @ rs \<and> inf_index ist' = inf_index ist + length rs \<and>
           map (\<lambda>r. fst (snd r)) rs = map (mirror_res len) [inf_index ist..<inf_index ist']"
  using assms
  by (auto simp: infer_step_def split: sum.splits prod.splits dest: infer_finish_index)

text \<open>
  C16: a batch whose \<open>2 * batch_size\<close> audio entries are all non-speech is not
  synthesised: the step does not depend on the model, emits \<open>batch_size\<close> idle
  results carrying the audio in pairs, and advances the index by \<open>batch_size\<close>.
\<close>

theorem silence_skips_synthesis:
  fixes synth synth' :: "bool \<Rightarrow> 'f \<Rightarrow> nat list \<Rightarrow> py_error + 'v list"
  assumes feat: "qitems (asr_feat st) = x # rest" and room: "bs * 2 \<le> qsize (asr_output st)"
    and sil: "is_all_silence (take (bs * 2) (qitems (asr_output st)))" and len: "0 < len"
  shows "infer_step synth bs len st ist = infer_step synth' bs len st ist \<and>
         (\<exists>st' ist' rs. infer_step synth bs len st ist = Running (st', ist') \<and>
            inf_results ist' = inf_results ist @ rs \<and> map fst rs = replicate bs None \<and>
            inf_index ist' = inf_index ist + bs \<and> inf_math ist' = inf_math ist \<and>
            concat (map (\<lambda>r. snd (snd r)) rs) = take (bs * 2) (qitems (asr_output st)))"
proof -
  let ?afs = "take (bs * 2) (qitems (asr_output st))"
  from emit_results_ok [OF len, of ?afs 0 "inf_index ist" "replicate bs (None :: 'v option)"] obtain rs where
    e: "emit_results len ?afs 0 (inf_index ist) (replicate bs (None :: 'v option)) = Inr (rs, inf_index ist + bs)"
    "map fst rs = replicate bs None"
    "map (\<lambda>r. snd (snd r)) rs = map (\<lambda>k. py_slice ?afs (k * 2) (k * 2 + 2)) [0..<bs]"
    by auto
  have la: "length ?afs = bs * 2" using room by (simp add: qsize_def)
  show ?thesis
    using feat room sil e audio_pairs [OF la]
    by (simp add: infer_step_def infer_finish_def get_nowait_def Let_def not_less)
qed

text \<open>
  C17: a batch with speech is synthesised: when the forward pass returns
  \<open>batch_size\<close> frames, the step consumes the batch and its audio, emits one result per
  frame with consecutive mirror indices, and passes every consumed audio entry on, in
  order, in pairs.
\<close>

theorem speech_batch_rendered:
  assumes feat: "qitems (asr_feat st) = x # rest" and room: "bs * 2 \<le> qsize (asr_output st)"
    and sp: "\<not> is_all_silence (take (bs * 2) (qitems (asr_output st)))" and len: "0 < len"
    and syn: "run_synth synth (inf_math ist) x (map (mirror_res len) [inf_index ist..<inf_index ist + bs]) =
              Inr (recon, math')"
    and lr: "length recon = bs"
  shows "\<exists>st' ist' rs. infer_step synth bs len st ist = Running (st', ist') \<and>
            qitems (asr_feat st') = rest \<and> qitems (asr_output st') = drop (bs * 2) (qitems (asr_output st)) \<and>
            inf_results ist' = inf_results ist @ rs \<and> map fst rs = map Some recon \<and>
            map (\<lambda>r. fst (snd r)) rs = map (mirror_res len) [inf_index ist..<inf_index ist + bs] \<and>
            concat (map (\<lambda>r. snd (snd r)) rs) = take (bs * 2) (qitems (asr_output st)) \<and>
            inf_index ist' = inf_index ist + bs \<and> inf_math ist' = math'"
proof -
  let ?afs = "take (bs * 2) (qitems (asr_output st))"
  from emit_results_ok [OF len, of ?afs 0 "inf_index ist" "map Some recon"] lr obtain rs where
    e: "emit_results len ?afs 0 (inf_index ist) (map Some recon) = Inr (rs, inf_index ist + bs)"
    "map fst rs = map Some recon"
    "map (\<lambda>r. fst (snd r)) rs = map (mirror_res len) [inf_index ist..<inf_index ist + bs]"
    "map (\<lambda>r. snd (snd r)) rs = map (\<lambda>k. py_slice ?afs (k * 2) (k * 2 + 2)) [0..<bs]"
    by auto
  have la: "length ?afs = bs * 2" using room by (simp add: qsize_def)
  show ?thesis
    using feat room sp e syn audio_pairs [OF la] latent_indices_ok [OF len]
    by (simp add: infer_step_def infer_finish_def get_nowait_def Let_def not_less)
qed

text \<open>
  C6: an exception of the forward pass other than the SDPA kernel failure is not
  caught: it ends the worker thread, so no later batch is rendered (Scenario D of the
  specification expects the batch to be skipped and the loop to go on).
\<close>

theorem synth_error_kills_worker:
  assumes feat: "qitems (asr_feat st) = x # rest" and room: "bs * 2 \<le> qsize (asr_output st)"
    and sp: "\<not> is_all_silence (take (bs * 2) (qitems (asr_output st)))" and len: "0 < len"
    and err: "synth (inf_math ist) x (map (mirror_res len) [inf_index ist..<inf_index ist + bs]) = Inl e"
    and ne: "e \<noteq> SdpaKernelError"
  shows "infer_step synth bs len st ist = Crashed e"
proof -
  have "run_synth synth (inf_math ist) x (map (mirror_res len) [inf_index ist..<inf_index ist + bs]) = Inl e"
    using err ne by (cases e) (simp_all add: run_synth_def)
  then show ?thesis
    using feat room sp latent_indices_ok [OF len]
    by (simp add: infer_step_def infer_finish_def get_nowait_def Let_def not_less)
qed

text \<open>
  C38: with an empty latent cycle the first batch the worker takes raises
  \<open>ZeroDivisionError\<close> inside the thread.
\<close>

theorem empty_latents_crash:
  fixes st :: "('s, 'e, 'f) asr_state" and ist :: "('s, 'e, 'v) infer_state"
  assumes "qitems (asr_feat st) = x # rest" "bs * 2 \<le> qsize (asr_output st)" "0 < bs"
  shows "infer_step synth bs 0 st ist = Crashed ZeroDivisionError"
proof -
  obtain b where bs: "bs = Suc b" using assms(3) by (cases bs) auto
  have "latent_indices 0 [inf_index ist..<inf_index ist + bs] = Inl ZeroDivisionError"
    unfolding bs by (simp add: upt_conv_Cons del: upt.simps)
  moreover have "emit_results 0 afs 0 (inf_index ist) (replicate bs (None :: 'v option)) = Inl ZeroDivisionError"
    for afs :: "('s, 'e) audio_entry list"
    unfolding bs by simp
  ultimately show ?thesis
    using assms(1,2) by (simp add: infer_step_def infer_finish_def get_nowait_def Let_def not_less)
qed

text \<open>
  C37: an SDPA kernel failure switches the process to math-only attention and the
  batch is retried once; when the retry succeeds the batch is rendered and the switch
  stays on.
\<close>

theorem sdpa_fallback_retries:
  assumes feat: "qitems (asr_feat st) = x # rest" and room: "bs * 2 \<le> qsize (asr_output st)"
    and sp: "\<not> is_all_silence (take (bs * 2) (qitems (asr_output st)))" and len: "0 < len"
    and e1: "synth (inf_math ist) x (map (mirror_res len) [inf_index ist..<inf_index ist + bs]) = Inl SdpaKernelError"
    and ok: "synth True x (map (mirror_res len) [inf_index ist..<inf_index ist + bs]) = Inr recon"
    and lr: "length recon = bs"
  shows "\<exists>st' ist' rs. infer_step synth bs len st ist = Running (st', ist') \<and> inf_math ist' \<and>
            inf_results ist' = inf_results ist @ rs \<and> map fst rs = map Some recon \<and>
            inf_index ist' = inf_index ist + bs"
proof -
  let ?afs = "take (bs * 2) (qitems (asr_output st))"
  from emit_results_ok [OF len, of ?afs 0 "inf_index ist" "map Some recon"] lr obtain rs where
    e: "emit_results len ?afs 0 (inf_index ist) (map Some recon) = Inr (rs, inf_index ist + bs)"
    "map fst rs = map Some recon"
    by auto
  have "run_synth synth (inf_math ist) x (map (mirror_res len) [inf_index ist..<inf_index ist + bs]) =
        Inr (recon, True)"
    using e1 ok by (simp add: run_synth_def)
  then show ?thesis
    using feat room sp e latent_indices_ok [OF len]
    by (simp add: infer_step_def infer_finish_def get_nowait_def Let_def not_less)
qed

text \<open>
  C7: under the producer's alignment invariant, when a batch is queued the worker does not
  block, the results it emits for the batch carry, in order, the audio frames the batch
  was extracted for (as many pairs as results), and the invariant still holds after it.
\<close>

theorem consume_aligned:
  assumes inv: "producer_inv cfg center st" and feat: "qitems (asr_feat st) = x # rest"
  shows "infer_step synth (cfg_batch_size cfg) len st ist \<noteq> Blocked \<and>
         (\<forall>st' ist'. infer_step synth (cfg_batch_size cfg) len st ist = Running (st', ist') \<longrightarrow>
            producer_inv cfg center st' \<and>
            (\<exists>rs. inf_results ist' = inf_results ist @ rs \<and>
                  map fst (concat (map (\<lambda>r. snd (snd r)) rs)) = take (2 * length rs) (center x)))"
proof (intro conjI allI impI)
  let ?k = "cfg_batch_size cfg * 2"
  have room: "?k \<le> qsize (asr_output st)" and c: "map fst (take ?k (qitems (asr_output st))) = center x"
    using producer_inv_output [OF inv feat] by simp_all
  have step: "infer_step synth (cfg_batch_size cfg) len st ist =
      infer_finish synth (cfg_batch_size cfg) len x (st\<lparr>asr_feat := (asr_feat st)\<lparr>qitems := rest\<rparr>\<rparr>) ist"
    using feat by (simp add: infer_step_def get_nowait_def)
  show "infer_step synth (cfg_batch_size cfg) len st ist \<noteq> Blocked"
    using room unfolding step by (auto simp: infer_finish_def Let_def not_less split: sum.splits prod.splits)
  fix st' ist'
  assume run: "infer_step synth (cfg_batch_size cfg) len st ist = Running (st', ist')"
  show "producer_inv cfg center st'" by (rule infer_step_keeps_producer_inv [OF inv run])
  obtain rs where rs: "inf_results ist' = inf_results ist @ rs"
    "concat (map (\<lambda>r. snd (snd r)) rs) = take (2 * length rs) (take ?k (qitems (asr_output st)))"
    using infer_finish_audio [OF run [unfolded step]] by auto
  have "map fst (concat (map (\<lambda>r. snd (snd r)) rs)) =
      take (2 * length rs) (map fst (take ?k (qitems (asr_output st))))"
    unfolding rs(2) by (rule take_map [symmetric])
  then have "map fst (concat (map (\<lambda>r. snd (snd r)) rs)) = take (2 * length rs) (center x)"
    using c by simp
  then show "\<exists>rs. inf_results ist' = inf_results ist @ rs \<and>
                  map fst (concat (map (\<lambda>r. snd (snd r)) rs)) = take (2 * length rs) (center x)"
    using rs(1) by blast
qed

text \<open>
  The realtime bridge keeps the newest \<open>maxsize\<close> audio entries of everything
  forwarded, in order: on overflow it evicts the oldest entry.
\<close>

theorem realtime_bridge_keeps_newest:
  assumes "q_wf q" "0 < qmax q"
  shows "push_realtime_audio_frames (Some q) frames =
           Some (q\<lparr>qitems := drop (length (qitems q) + length frames - qmax q) (qitems q @ frames)\<rparr>)"
proof -
  have "qitems (fold (push_rt_attempts 2) frames q) =
        drop (length (qitems q) + length frames - qmax q) (qitems q @ frames) \<and>
        qmax (fold (push_rt_attempts 2) frames q) = qmax q"
    by (rule fold_keeps_newest [where g = "\<lambda>q. q", OF push_rt_attempts_window assms])
  then show ?thesis by (simp add: push_realtime_audio_frames_def)
qed

subsection \<open>Witnesses\<close>

lemmas infer_eval = infer_step_def infer_finish_def get_nowait_def qsize_def is_all_silence_def run_synth_def
  push_realtime_audio_frames_def py_slice_def

theorem silence_skips_synthesis_witness:
  "let st = \<lparr>asr_queue = mk_queue 2, asr_output = \<lparr>qitems = [([0], 1, None), ([0], 1, None)], qmax = 0\<rparr>,
             asr_feat = \<lparr>qitems = [9], qmax = 2\<rparr>, asr_frames = [],
             dropped_audio_chunks = 0, last_drop_log_ts = 0, dropped_feat_chunks = 0,
             last_feat_drop_log_ts = 0\<rparr> :: (int, int, int) asr_state;
       ist = \<lparr>inf_index = 4, inf_results = [], inf_rt = None, inf_math = False\<rparr> :: (int, int, int) infer_state
   in infer_step ((\<lambda>m x idxs. Inl ModelError) :: bool \<Rightarrow> int \<Rightarrow> nat list \<Rightarrow> py_error + int list) 1 3 st ist =
        infer_step ((\<lambda>m x idxs. Inr [x]) :: bool \<Rightarrow> int \<Rightarrow> nat list \<Rightarrow> py_error + int list) 1 3 st ist \<and>
      (\<exists>st' ist' rs. infer_step ((\<lambda>m x idxs. Inl ModelError) :: bool \<Rightarrow> int \<Rightarrow> nat list \<Rightarrow> py_error + int list) 1 3 st ist = Running (st', ist') \<and>
         inf_results ist' = inf_results ist @ rs \<and> map fst rs = replicate 1 None \<and>
         inf_index ist' = inf_index ist + 1 \<and> inf_math ist' = inf_math ist \<and>
         concat (map (\<lambda>r. snd (snd r)) rs) = take (1 * 2) (qitems (asr_output st)))"
  unfolding Let_def
  by (rule silence_skips_synthesis) (simp_all add: qsize_def is_all_silence_def)

theorem speech_batch_rendered_witness:
  "let st = \<lparr>asr_queue = mk_queue 2, asr_output = \<lparr>qitems = [([5], 0, None), ([6], 0, None)], qmax = 0\<rparr>,
             asr_feat = \<lparr>qitems = [9], qmax = 2\<rparr>, asr_frames = [],
             dropped_audio_chunks = 0, last_drop_log_ts = 0, dropped_feat_chunks = 0,
             last_feat_drop_log_ts = 0\<rparr> :: (int, int, int) asr_state;
       ist = \<lparr>inf_index = 4, inf_results = [], inf_rt = None, inf_math = False\<rparr> :: (int, int, int) infer_state
   in \<exists>st' ist' rs. infer_step ((\<lambda>m x idxs. Inr [x + 1]) :: bool \<Rightarrow> int \<Rightarrow> nat list \<Rightarrow> py_error + int list) 1 3 st ist = Running (st', ist') \<and>
        qitems (asr_feat st') = [] \<and> qitems (asr_output st') = drop (1 * 2) (qitems (asr_output st)) \<and>
        inf_results ist' = inf_results ist @ rs \<and> map fst rs = map Some [10] \<and>
        map (\<lambda>r. fst (snd r)) rs = map (mirror_res 3) [inf_index ist..<inf_index ist + 1] \<and>
        concat (map (\<lambda>r. snd (snd r)) rs) = take (1 * 2) (qitems (asr_output st)) \<and>
        inf_index ist' = inf_index ist + 1 \<and> inf_math ist' = False"
  unfolding Let_def
  by (rule speech_batch_rendered) (simp_all add: qsize_def is_all_silence_def run_synth_def)

theorem synth_error_kills_worker_witness:
  "let st = \<lparr>asr_queue = mk_queue 2, asr_output = \<lparr>qitems = [([5], 0, None), ([6], 0, None)], qmax = 0\<rparr>,
             asr_feat = \<lparr>qitems = [9], qmax = 2\<rparr>, asr_frames = [],
             dropped_audio_chunks = 0, last_drop_log_ts = 0, dropped_feat_chunks = 0,
             last_feat_drop_log_ts = 0\<rparr> :: (int, int, int) asr_state;
       ist = \<lparr>inf_index = 4, inf_results = [], inf_rt = None, inf_math = False\<rparr> :: (int, int, int) infer_state
   in infer_step ((\<lambda>m x idxs. Inl ModelRuntimeError) :: bool \<Rightarrow> int \<Rightarrow> nat list \<Rightarrow> py_error + int list) 1 3 st ist = Crashed ModelRuntimeError"
  unfolding Let_def
  by (rule synth_error_kills_worker) (simp_all add: qsize_def is_all_silence_def)

theorem empty_latents_crash_witness:
  "let st = \<lparr>asr_queue = mk_queue 2, asr_output = \<lparr>qitems = [([5], 0, None), ([6], 0, None)], qmax = 0\<rparr>,
             asr_feat = \<lparr>qitems = [9], qmax = 2\<rparr>, asr_frames = [],
             dropped_audio_chunks = 0, last_drop_log_ts = 0, dropped_feat_chunks = 0,
             last_feat_drop_log_ts = 0\<rparr> :: (int, int, int) asr_state;
       ist = \<lparr>inf_index = 4, inf_results = [], inf_rt = None, inf_math = False\<rparr> :: (int, int, int) infer_state
   in infer_step ((\<lambda>m x idxs. Inr [x]) :: bool \<Rightarrow> int \<Rightarrow> nat list \<Rightarrow> py_error + int list) 1 0 st ist = Crashed ZeroDivisionError"
  unfolding Let_def
  by (rule empty_latents_crash) (simp_all add: qsize_def)

theorem sdpa_fallback_retries_witness:
  "let st = \<lparr>asr_queue = mk_queue 2, asr_output = \<lparr>qitems = [([5], 0, None), ([6], 0, None)], qmax = 0\<rparr>,
             asr_feat = \<lparr>qitems = [9], qmax = 2\<rparr>, asr_frames = [],
             dropped_audio_chunks = 0, last_drop_log_ts = 0, dropped_feat_chunks = 0,
             last_feat_drop_log_ts = 0\<rparr> :: (int, int, int) asr_state;
       ist = \<lparr>inf_index = 4, inf_results = [], inf_rt = None, inf_math = False\<rparr> :: (int, int, int) infer_state
   in \<exists>st' ist' rs. infer_step ((\<lambda>m x idxs. if m then Inr [x] else Inl SdpaKernelError)
          :: bool \<Rightarrow> int \<Rightarrow> nat list \<Rightarrow> py_error + int list) 1 3 st ist = Running (st', ist') \<and>
        inf_math ist' \<and> inf_results ist' = inf_results ist @ rs \<and> map fst rs = map Some [9] \<and>
        inf_index ist' = inf_index ist + 1"
  unfolding Let_def
  by (rule sdpa_fallback_retries) (simp_all add: qsize_def is_all_silence_def)

theorem realtime_bridge_keeps_newest_witness:
  "q_wf \<lparr>qitems = [1, 2::int], qmax = 2\<rparr> \<and> 0 < qmax \<lparr>qitems = [1, 2::int], qmax = 2\<rparr> \<and>
   push_realtime_audio_frames (Some \<lparr>qitems = [1, 2::int], qmax = 2\<rparr>) [3, 4, 5] =
     Some \<lparr>qitems = [4, 5], qmax = 2\<rparr>"
  using realtime_bridge_keeps_newest [of "\<lparr>qitems = [1, 2::int], qmax = 2\<rparr>" "[3, 4, 5]"]
  by (simp add: q_wf_def qsize_def)

theorem consume_aligned_witness:
  "let cfg = \<lparr>cfg_fps = 4, cfg_chunk = 2, cfg_mode = Block, cfg_max_chunks = 2,
              cfg_batch_size = 1, cfg_l = 2, cfg_r = 3, cfg_feat_qmax = 2, cfg_feat_mode = Block\<rparr>;
       center = (\<lambda>w::int list list. take 2 (drop 2 w));
       st = \<lparr>asr_queue = mk_queue 2,
             asr_output = \<lparr>qitems = [([4], 0, None), ([5], 0, None), ([6], 0, None), ([7], 0, None), ([8], 0, None)], qmax = 0\<rparr>,
             asr_feat = \<lparr>qitems = [[[2], [3], [4], [5], [6], [7], [8]]], qmax = 2\<rparr>,
             asr_frames = [[4], [5], [6], [7], [8]],
             dropped_audio_chunks = 0, last_drop_log_ts = 0, dropped_feat_chunks = 0,
             last_feat_drop_log_ts = 0\<rparr> :: (int, int, int list list) asr_state;
       ist = \<lparr>inf_index = 0, inf_results = [], inf_rt = None, inf_math = False\<rparr> :: (int, int, int) infer_state;
       synth = ((\<lambda>m x idxs. Inr [0]) :: bool \<Rightarrow> int list list \<Rightarrow> nat list \<Rightarrow> py_error + int list)
   in producer_inv cfg center st \<and>
      infer_step synth (cfg_batch_size cfg) 3 st ist \<noteq> Blocked \<and>
      (\<forall>st' ist'. infer_step synth (cfg_batch_size cfg) 3 st ist = Running (st', ist') \<longrightarrow>
         producer_inv cfg center st' \<and>
         (\<exists>rs. inf_results ist' = inf_results ist @ rs \<and>
               map fst (concat (map (\<lambda>r. snd (snd r)) rs)) = take (2 * length rs) (center [[2], [3], [4], [5], [6], [7], [8]])))"
proof -
  let ?cfg = "\<lparr>cfg_fps = 4, cfg_chunk = 2, cfg_mode = Block, cfg_max_chunks = 2,
              cfg_batch_size = 1, cfg_l = 2, cfg_r = 3, cfg_feat_qmax = 2, cfg_feat_mode = Block\<rparr>"
  let ?center = "\<lambda>w::int list list. take 2 (drop 2 w)"
  let ?st = "\<lparr>asr_queue = mk_queue 2,
             asr_output = \<lparr>qitems = [([4], 0, None), ([5], 0, None), ([6], 0, None), ([7], 0, None), ([8], 0, None)], qmax = 0\<rparr>,
             asr_feat = \<lparr>qitems = [[[2], [3], [4], [5], [6], [7], [8]]], qmax = 2\<rparr>,
             asr_frames = [[4], [5], [6], [7], [8]],
             dropped_audio_chunks = 0, last_drop_log_ts = 0, dropped_feat_chunks = 0,
             last_feat_drop_log_ts = 0\<rparr> :: (int, int, int list list) asr_state"
  have inv: "producer_inv ?cfg ?center ?st"
    by (simp add: producer_inv_def q_wf_def qsize_def)
  show ?thesis unfolding Let_def
    using consume_aligned [OF inv, of "[[2], [3], [4], [5], [6], [7], [8]]" "[]"
        "(\<lambda>m x idxs. Inr [0]) :: bool \<Rightarrow> int list list \<Rightarrow> nat list \<Rightarrow> py_error + int list" 3
        "\<lparr>inf_index = 0, inf_results = [], inf_rt = None, inf_math = False\<rparr> :: (int, int, int) infer_state"] inv
    by simp
qed

end
