(* ===== verification/Pipeline.thy ===== *)
theory Pipeline
  imports Inference
begin

text \<open>
  The MuseTalk pipeline of one session as a composition of its threads: the TTS
  thread's \<open>put_audio_frame\<close> (\<open>Tts\<close>), the render loop's \<open>asr.run_step\<close>
  (\<open>Extract\<close>, \<open>MuseReal.render\<close>), the \<open>inference\<close> worker and \<open>flush_talk\<close> on
  an interruption (\<open>Flush\<close>).  The worker's iteration is two steps, as in the code:
  \<open>InferGet\<close> is \<open>audio_feat_queue.get\<close> (\<open>musereal.py:217\<close>), after which the worker
  holds the batch (\<open>p_held\<close>, the local \<open>whisper_chunks\<close>); \<open>Infer\<close> is the rest of the
  iteration (\<open>infer_finish\<close>: the \<open>audio_out_queue.get()\<close> calls and the synthesis).
  The other threads can run in between.  The \<open>2 * batch_size\<close> audio gets are one step:
  the worker is the output queue's only consumer and the producer only appends to it
  under the Block policy, so the worker takes the same entries whether it takes them
  one at a time or together once they are all queued.  The threads share the ASR
  state's queues; a schedule is any sequence of events.  An exception of \<open>run_step\<close>
  (a \<open>KeyError\<close> of a custom clip, excluded by \<open>custom_wf\<close>) or a crash of the
  worker ends the run.  A worker waiting for audio leaves the state unchanged.
\<close>

record ('s, 'e, 'f, 'v, 'img) pipe_state =
  p_asr :: "('s, 'e, 'f) asr_state"
  p_custom :: "('s, 'img) custom_state"
  p_infer :: "('s, 'e, 'v) infer_state"
  p_held :: "'f option"

datatype ('s, 'e) pipe_event = Tts timestamp "'s list" 'e | Extract timestamp | InferGet | Infer | Flush

fun pipe_step ::
  "('s list list \<Rightarrow> 'f) \<Rightarrow> (bool \<Rightarrow> 'f \<Rightarrow> nat list \<Rightarrow> py_error + 'v list) \<Rightarrow> asr_config \<Rightarrow> nat \<Rightarrow>
   ('s, 'e) pipe_event \<Rightarrow> ('s::zero, 'e, 'f, 'v, 'img) pipe_state \<Rightarrow> py_error + ('s, 'e, 'f, 'v, 'img) pipe_state" where
  "pipe_step ext synth cfg len (Tts now x i) ps =
     (case put_audio_frame cfg now x i (p_asr ps) of
        None \<Rightarrow> Inr ps
      | Some st' \<Rightarrow> Inr (ps\<lparr>p_asr := st'\<rparr>))"
| "pipe_step ext synth cfg len (Extract now) ps =
     (case run_step ext cfg now (p_asr ps) (p_custom ps) of
        Inl e \<Rightarrow> Inl e
      | Inr (st', cs') \<Rightarrow> Inr (ps\<lparr>p_asr := st', p_custom := cs'\<rparr>))"
| "pipe_step ext synth cfg len InferGet ps =
     (case p_held ps of
        Some _ \<Rightarrow> Inr ps
      | None \<Rightarrow>
          (case get_nowait (asr_feat (p_asr ps)) of
             Inl _ \<Rightarrow> Inr ps
           | Inr (x, fq) \<Rightarrow> Inr (ps\<lparr>p_asr := (p_asr ps)\<lparr>asr_feat := fq\<rparr>, p_held := Some x\<rparr>)))"
| "pipe_step ext synth cfg len Infer ps =
     (case p_held ps of
        None \<Rightarrow> Inr ps
      | Some x \<Rightarrow>
          (case infer_finish synth (cfg_batch_size cfg) len x (p_asr ps) (p_infer ps) of
             Blocked \<Rightarrow> Inr ps
           | Crashed e \<Rightarrow> Inl e
           | Running (st', ist') \<Rightarrow> Inr (ps\<lparr>p_asr := st', p_infer := ist', p_held := None\<rparr>)))"
| "pipe_step ext synth cfg len Flush ps = Inr (ps\<lparr>p_asr := flush_talk (p_asr ps)\<rparr>)"

fun pipe_run ::
  "('s list list \<Rightarrow> 'f) \<Rightarrow> (bool \<Rightarrow> 'f \<Rightarrow> nat list \<Rightarrow> py_error + 'v list) \<Rightarrow> asr_config \<Rightarrow> nat \<Rightarrow>
   ('s, 'e) pipe_event list \<Rightarrow> ('s::zero, 'e, 'f, 'v, 'img) pipe_state \<Rightarrow> py_error + ('s, 'e, 'f, 'v, 'img) pipe_state" where
  "pipe_run ext synth cfg len [] ps = Inr ps"
| "pipe_run ext synth cfg len (ev # evs) ps =
     (case pipe_step ext synth cfg len ev ps of Inl e \<Rightarrow> Inl e | Inr ps' \<Rightarrow> pipe_run ext synth cfg len evs ps')"

text \<open>The shape of the producer state that every step keeps, also rejections and flushes.\<close>

definition pipe_shape :: "asr_config \<Rightarrow> ('s, 'e, 'f) asr_state \<Rightarrow> bool" where
  "pipe_shape cfg st \<longleftrightarrow>
     q_wf (asr_feat st) \<and> 0 < qmax (asr_feat st) \<and> length (asr_frames st) = cfg_l cfg + cfg_r cfg"

text \<open>
  The alignment invariant of the composed pipeline: the batch the worker holds comes
  before the queued batches, and the output queue holds their audio in that order,
  then the right context.  With no batch held it is \<open>producer_inv\<close>.
\<close>

definition held_batches :: "'f option \<Rightarrow> 'f list" where
  "held_batches h = (case h of None \<Rightarrow> [] | Some x \<Rightarrow> [x])"

definition pipe_aligned ::
  "asr_config \<Rightarrow> ('f \<Rightarrow> 's list list) \<Rightarrow> ('s, 'e, 'f, 'v, 'img) pipe_state \<Rightarrow> bool" where
  "pipe_aligned cfg center ps \<longleftrightarrow>
     pipe_shape cfg (p_asr ps) \<and>
     (\<forall>b \<in> set (held_batches (p_held ps) @ qitems (asr_feat (p_asr ps))).
        length (center b) = cfg_batch_size cfg * 2) \<and>
     map fst (qitems (asr_output (p_asr ps))) =
       concat (map center (held_batches (p_held ps) @ qitems (asr_feat (p_asr ps)))) @
       drop (cfg_l cfg) (asr_frames (p_asr ps))"

subsection \<open>Steps of the composed system\<close>

lemma pipe_aligned_idle:
  "p_held ps = None \<Longrightarrow> pipe_aligned cfg center ps \<longleftrightarrow> producer_inv cfg center (p_asr ps)"
  by (simp add: pipe_aligned_def pipe_shape_def producer_inv_def held_batches_def conj_assoc)

lemma put_audio_frame_fields:
  "put_audio_frame cfg now x i st = Some st' \<Longrightarrow>
   asr_feat st' = asr_feat st \<and> asr_output st' = asr_output st \<and> asr_frames st' = asr_frames st \<and>
   dropped_feat_chunks st' = dropped_feat_chunks st"
  by (auto simp: put_audio_frame_def put_audio_block_def put_audio_nonblock_def account_drops_def Let_def
      split: sum.splits prod.splits if_splits)

lemma run_step_dropped_mono:
  assumes "0 < cfg_l cfg + cfg_r cfg" "0 < cfg_batch_size cfg"
    "length (asr_frames st) = cfg_l cfg + cfg_r cfg" "q_wf (asr_feat st)" "0 < qmax (asr_feat st)"
    "run_step ext cfg now st cs = Inr (st', cs')"
  shows "dropped_feat_chunks st \<le> dropped_feat_chunks st'"
  using run_step_outcome [OF assms] by auto

lemma run_step_shape:
  assumes lr: "0 < cfg_l cfg + cfg_r cfg" and bs: "0 < cfg_batch_size cfg" and sh: "pipe_shape cfg st"
    and r: "run_step ext cfg now st cs = Inr (st', cs')"
  shows "pipe_shape cfg st' \<and> dropped_feat_chunks st \<le> dropped_feat_chunks st'"
proof -
  have pi: "length (asr_frames st) = cfg_l cfg + cfg_r cfg" "q_wf (asr_feat st)" "0 < qmax (asr_feat st)"
    using sh by (simp_all add: pipe_shape_def)
  from run_step_outcome [OF lr bs pi r] pi show ?thesis
    by (auto simp: pipe_shape_def q_wf_def q_full_def qsize_def)
qed

lemma pipe_step_shape:
  assumes lr: "0 < cfg_l cfg + cfg_r cfg" and bs: "0 < cfg_batch_size cfg"
    and sh: "pipe_shape cfg (p_asr ps)" and step: "pipe_step ext synth cfg len ev ps = Inr ps'"
  shows "pipe_shape cfg (p_asr ps') \<and> dropped_feat_chunks (p_asr ps) \<le> dropped_feat_chunks (p_asr ps')"
proof (cases ev)
  case (Tts now x i)
  with step sh show ?thesis
    by (auto simp: pipe_shape_def split: option.splits dest!: put_audio_frame_fields)
next
  case (Extract now)
  with step obtain st' cs' where r: "run_step ext cfg now (p_asr ps) (p_custom ps) = Inr (st', cs')"
    and ps': "ps' = ps\<lparr>p_asr := st', p_custom := cs'\<rparr>"
    by (auto split: sum.splits)
  with run_step_shape [OF lr bs sh r] show ?thesis by simp
next
  case InferGet
  with step sh show ?thesis
    by (auto simp: pipe_shape_def q_wf_def qsize_def get_nowait_def split: option.splits list.splits)
next
  case Infer
  with step sh show ?thesis
    by (auto simp: pipe_shape_def split: option.splits infer_result.splits dest!: infer_finish_asr)
next
  case Flush
  with step sh show ?thesis
    by (auto simp: pipe_shape_def q_wf_def qsize_def)
qed

lemma pipe_run_dropped_mono:
  assumes lr: "0 < cfg_l cfg + cfg_r cfg" and bs: "0 < cfg_batch_size cfg"
  shows "pipe_shape cfg (p_asr ps) \<Longrightarrow> pipe_run ext synth cfg len evs ps = Inr ps' \<Longrightarrow>
         dropped_feat_chunks (p_asr ps) \<le> dropped_feat_chunks (p_asr ps')"
proof (induction evs arbitrary: ps)
  case Nil
  then show ?case by simp
next
  case (Cons ev evs)
  from Cons.prems(2) obtain ps1 where s1: "pipe_step ext synth cfg len ev ps = Inr ps1"
    and r: "pipe_run ext synth cfg len evs ps1 = Inr ps'"
    by (auto split: sum.splits)
  from pipe_step_shape [OF lr bs Cons.prems(1) s1] Cons.IH [OF _ r] show ?case by fastforce
qed

lemma pipe_aligned_held:
  assumes inv: "pipe_aligned cfg center ps" and held: "p_held ps = Some x"
  shows "cfg_batch_size cfg * 2 \<le> qsize (asr_output (p_asr ps)) \<and>
         map fst (take (cfg_batch_size cfg * 2) (qitems (asr_output (p_asr ps)))) = center x \<and>
         map fst (drop (cfg_batch_size cfg * 2) (qitems (asr_output (p_asr ps)))) =
           concat (map center (qitems (asr_feat (p_asr ps)))) @ drop (cfg_l cfg) (asr_frames (p_asr ps))"
proof -
  let ?out = "qitems (asr_output (p_asr ps))" and ?k = "cfg_batch_size cfg * 2"
  have lx: "length (center x) = ?k"
    and out: "map fst ?out = center x @ concat (map center (qitems (asr_feat (p_asr ps)))) @
                drop (cfg_l cfg) (asr_frames (p_asr ps))"
    using inv held by (simp_all add: pipe_aligned_def held_batches_def)
  have "length ?out = length (map fst ?out)" by simp
  then have "?k \<le> length ?out" using out lx by simp
  moreover have "map fst (take ?k ?out) = center x"
    using out lx by (simp add: take_map [symmetric])
  moreover have "map fst (drop ?k ?out) =
           concat (map center (qitems (asr_feat (p_asr ps)))) @ drop (cfg_l cfg) (asr_frames (p_asr ps))"
    using out lx by (simp add: drop_map [symmetric])
  ultimately show ?thesis by (simp add: qsize_def)
qed

text \<open>Under the Block policy an accepted batch is appended with its audio: no batch is evicted.\<close>

lemma run_step_block_aligned:
  assumes ext: "ext_centers cfg ext center" and lr: "0 < cfg_l cfg + cfg_r cfg"
    and bs: "0 < cfg_batch_size cfg" and blk: "cfg_feat_mode cfg = Block"
    and inv: "pipe_aligned cfg center ps"
    and r: "run_step ext cfg now (p_asr ps) (p_custom ps) = Inr (st', cs')"
    and ok: "dropped_feat_chunks st' = dropped_feat_chunks (p_asr ps)"
  shows "pipe_aligned cfg center (ps\<lparr>p_asr := st', p_custom := cs'\<rparr>)"
proof -
  let ?st = "p_asr ps" and ?H = "held_batches (p_held ps)" and ?l = "cfg_l cfg"
    and ?k = "cfg_batch_size cfg * 2"
  have sh: "q_wf (asr_feat ?st)" "0 < qmax (asr_feat ?st)" "length (asr_frames ?st) = ?l + cfg_r cfg"
    and lens: "\<forall>b \<in> set (?H @ qitems (asr_feat ?st)). length (center b) = ?k"
    and out: "map fst (qitems (asr_output ?st)) =
                concat (map center (?H @ qitems (asr_feat ?st))) @ drop ?l (asr_frames ?st)"
    using inv by (simp_all add: pipe_aligned_def pipe_shape_def)
  from run_step_outcome [OF lr bs sh(3,1,2) r] ok blk obtain es where es: "length es = ?k"
    "asr_frames st' = drop ?k (asr_frames ?st @ map fst es)" "qmax (asr_feat st') = qmax (asr_feat ?st)"
    "\<not> q_full (asr_feat ?st)"
    "qitems (asr_feat st') = qitems (asr_feat ?st) @ [ext (asr_frames ?st @ map fst es)]"
    "qitems (asr_output st') = qitems (asr_output ?st) @ es"
    by auto
  let ?x = "ext (asr_frames ?st @ map fst es)"
  have win: "center ?x @ drop ?l (asr_frames st') = drop ?l (asr_frames ?st) @ map fst es"
    and lx: "length (center ?x) = ?k"
    using center_window [OF ext sh(3), of "map fst es"] es(1,2) by simp_all
  have "map fst (qitems (asr_output st')) =
          concat (map center (?H @ qitems (asr_feat st'))) @ drop ?l (asr_frames st')"
    using out es(5,6) win by simp
  moreover have "pipe_shape cfg st'"
    using sh es by (simp add: pipe_shape_def q_wf_def q_full_def qsize_def)
  moreover have "\<forall>b \<in> set (?H @ qitems (asr_feat st')). length (center b) = ?k"
    using lens lx es(5) by auto
  ultimately show ?thesis by (simp add: pipe_aligned_def)
qed

lemma pipe_step_alignment:
  assumes ext: "ext_centers cfg ext center" and lr: "0 < cfg_l cfg + cfg_r cfg"
    and bs: "0 < cfg_batch_size cfg" and blk: "cfg_feat_mode cfg = Block"
    and inv: "pipe_aligned cfg center ps" and ev: "ev \<noteq> Flush"
    and step: "pipe_step ext synth cfg len ev ps = Inr ps'"
  shows "dropped_feat_chunks (p_asr ps) \<le> dropped_feat_chunks (p_asr ps') \<and>
         (dropped_feat_chunks (p_asr ps') = dropped_feat_chunks (p_asr ps) \<longrightarrow> pipe_aligned cfg center ps')"
proof (cases ev)
  case (Tts now x i)
  with step inv show ?thesis
    by (auto simp: pipe_aligned_def pipe_shape_def split: option.splits dest!: put_audio_frame_fields)
next
  case (Extract now)
  with step obtain st' cs' where r: "run_step ext cfg now (p_asr ps) (p_custom ps) = Inr (st', cs')"
    and ps': "ps' = ps\<lparr>p_asr := st', p_custom := cs'\<rparr>"
    by (auto split: sum.splits)
  have pi: "length (asr_frames (p_asr ps)) = cfg_l cfg + cfg_r cfg" "q_wf (asr_feat (p_asr ps))"
    "0 < qmax (asr_feat (p_asr ps))"
    using inv by (simp_all add: pipe_aligned_def pipe_shape_def)
  show ?thesis
    using run_step_dropped_mono [OF lr bs pi r] run_step_block_aligned [OF ext lr bs blk inv r] ps' by simp
next
  case InferGet
  show ?thesis
  proof (cases "p_held ps")
    case None
    show ?thesis
    proof (cases "qitems (asr_feat (p_asr ps))")
      case Nil
      with InferGet None step inv show ?thesis by (simp add: get_nowait_def)
    next
      case (Cons x rest)
      with InferGet None step have ps': "ps' = ps\<lparr>p_asr := (p_asr ps)\<lparr>asr_feat := (asr_feat (p_asr ps))\<lparr>qitems := rest\<rparr>\<rparr>,
                                                 p_held := Some x\<rparr>"
        by (simp add: get_nowait_def)
      show ?thesis
        using inv None Cons unfolding ps'
        by (auto simp: pipe_aligned_def pipe_shape_def held_batches_def q_wf_def qsize_def)
    qed
  next
    case (Some x)
    with InferGet step show ?thesis using inv by simp
  qed
next
  case Infer
  show ?thesis
  proof (cases "p_held ps")
    case None
    with Infer step inv show ?thesis by simp
  next
    case (Some x)
    show ?thesis
    proof (cases "infer_finish synth (cfg_batch_size cfg) len x (p_asr ps) (p_infer ps)")
      case (Running s)
      obtain st' ist' where s: "s = (st', ist')" by (cases s)
      with Running Infer Some step have ps': "ps' = ps\<lparr>p_asr := st', p_infer := ist', p_held := None\<rparr>" by simp
      from infer_finish_asr [OF Running [unfolded s]] have
        st': "st' = (p_asr ps)\<lparr>asr_output := (asr_output (p_asr ps))\<lparr>qitems :=
                 drop (cfg_batch_size cfg * 2) (qitems (asr_output (p_asr ps)))\<rparr>\<rparr>" by blast
      have "map fst (drop (cfg_batch_size cfg * 2) (qitems (asr_output (p_asr ps)))) =
           concat (map center (qitems (asr_feat (p_asr ps)))) @ drop (cfg_l cfg) (asr_frames (p_asr ps))"
        using pipe_aligned_held [OF inv Some] by blast
      then show ?thesis
        using inv Some unfolding ps' st'
        by (auto simp: pipe_aligned_def pipe_shape_def held_batches_def q_wf_def qsize_def)
    qed (use Infer Some step inv in auto)
  qed
next
  case Flush
  with ev show ?thesis by simp
qed

subsection \<open>Properties of every schedule\<close>

text \<open>
  C2: under the default Block policy of the feature queue, in every schedule of the
  producer, the TTS thread and the worker (its get and the rest of its iteration as
  separate steps) that contains no flush and in which no feature batch was rejected, the
  alignment invariant holds throughout; whenever the worker holds a batch, the first
  \<open>2 * batch_size\<close> entries of the output queue are queued and are exactly the audio
  frames that batch was extracted for.
\<close>

theorem pipeline_alignment:
  assumes ext: "ext_centers cfg ext center" and lr: "0 < cfg_l cfg + cfg_r cfg"
    and bs: "0 < cfg_batch_size cfg" and blk: "cfg_feat_mode cfg = Block"
    and inv: "pipe_aligned cfg center ps" and nf: "Flush \<notin> set evs"
    and run: "pipe_run ext synth cfg len evs ps = Inr ps'"
    and nd: "dropped_feat_chunks (p_asr ps') = dropped_feat_chunks (p_asr ps)"
  shows "pipe_aligned cfg center ps' \<and>
         (\<forall>x. p_held ps' = Some x \<longrightarrow>
            cfg_batch_size cfg * 2 \<le> qsize (asr_output (p_asr ps')) \<and>
            map fst (take (cfg_batch_size cfg * 2) (qitems (asr_output (p_asr ps')))) = center x)"
proof -
  have "dropped_feat_chunks (p_asr ps) \<le> dropped_feat_chunks (p_asr ps') \<and>
        (dropped_feat_chunks (p_asr ps') = dropped_feat_chunks (p_asr ps) \<longrightarrow> pipe_aligned cfg center ps')"
    using inv nf run
  proof (induction evs arbitrary: ps)
    case Nil
    then show ?case by simp
  next
    case (Cons ev evs)
    from Cons.prems(3) obtain ps1 where s1: "pipe_step ext synth cfg len ev ps = Inr ps1"
      and r: "pipe_run ext synth cfg len evs ps1 = Inr ps'"
      by (auto split: sum.splits)
    from Cons.prems(2) have ev: "ev \<noteq> Flush" and nf': "Flush \<notin> set evs" by auto
    from pipe_step_alignment [OF ext lr bs blk Cons.prems(1) ev s1] have
      d1: "dropped_feat_chunks (p_asr ps) \<le> dropped_feat_chunks (p_asr ps1)"
      and i1: "dropped_feat_chunks (p_asr ps1) = dropped_feat_chunks (p_asr ps) \<Longrightarrow> pipe_aligned cfg center ps1"
      by blast+
    show ?case
    proof (cases "dropped_feat_chunks (p_asr ps1) = dropped_feat_chunks (p_asr ps)")
      case True
      with Cons.IH [OF i1 [OF True] nf' r] d1 show ?thesis by simp
    next
      case False
      with d1 have "dropped_feat_chunks (p_asr ps) < dropped_feat_chunks (p_asr ps1)" by simp
      moreover have "pipe_shape cfg (p_asr ps1)"
        using pipe_step_shape [OF lr bs _ s1] Cons.prems(1) by (simp add: pipe_aligned_def)
      then have "dropped_feat_chunks (p_asr ps1) \<le> dropped_feat_chunks (p_asr ps')"
        using pipe_run_dropped_mono [OF lr bs _ r] by blast
      ultimately show ?thesis by simp
    qed
  qed
  then have pi: "pipe_aligned cfg center ps'" using nd by simp
  then show ?thesis using pipe_aligned_held [OF pi] by blast
qed

text \<open>
  C4: under the Drop policy the alignment breaks while the worker holds a batch: when
  the producer finds the feature queue full it evicts the oldest queued batch together
  with the first \<open>2 * batch_size\<close> entries of the output queue, which are the audio of
  the batch the worker holds.  The worker then takes the evicted batch's audio for its
  batch.
\<close>

theorem eviction_misaligns_held_batch:
  assumes ext: "ext_centers cfg ext center" and lr: "0 < cfg_l cfg + cfg_r cfg"
    and bs: "0 < cfg_batch_size cfg"
    and inv: "pipe_aligned cfg center ps" and held: "p_held ps = Some x"
    and full: "q_full (asr_feat (p_asr ps))"
    and r: "run_step ext cfg now (p_asr ps) (p_custom ps) = Inr (st', cs')"
    and ok: "dropped_feat_chunks st' = dropped_feat_chunks (p_asr ps)"
  shows "cfg_feat_mode cfg = Drop \<and>
         (\<exists>b rest x'. qitems (asr_feat (p_asr ps)) = b # rest \<and> qitems (asr_feat st') = rest @ [x'] \<and>
            map fst (take (cfg_batch_size cfg * 2) (qitems (asr_output st'))) = center b)"
proof -
  let ?st = "p_asr ps" and ?l = "cfg_l cfg" and ?k = "cfg_batch_size cfg * 2"
  have sh: "q_wf (asr_feat ?st)" "0 < qmax (asr_feat ?st)" "length (asr_frames ?st) = ?l + cfg_r cfg"
    using inv by (simp_all add: pipe_aligned_def pipe_shape_def)
  from run_step_outcome [OF lr bs sh(3,1,2) r] ok full obtain es where
    drop: "cfg_feat_mode cfg = Drop"
    and f': "qitems (asr_feat st') = tl (qitems (asr_feat ?st)) @ [ext (asr_frames ?st @ map fst es)]"
    and o': "qitems (asr_output st') = drop ?k (qitems (asr_output ?st) @ es)"
    by auto
  from full sh(2) obtain b rest where f: "qitems (asr_feat ?st) = b # rest"
    by (cases "qitems (asr_feat ?st)") (auto simp: q_full_def qsize_def)
  have lx: "length (center x) = ?k" and lb: "length (center b) = ?k"
    and out: "map fst (qitems (asr_output ?st)) = center x @ center b @ concat (map center rest) @ drop ?l (asr_frames ?st)"
    using inv held f by (simp_all add: pipe_aligned_def held_batches_def)
  have "map fst (qitems (asr_output st')) = drop ?k (map fst (qitems (asr_output ?st)) @ map fst es)"
    using o' by (simp add: drop_map)
  also have "\<dots> = center b @ concat (map center rest) @ drop ?l (asr_frames ?st) @ map fst es"
    using out lx by simp
  finally have "map fst (take ?k (qitems (asr_output st'))) = center b"
    using lb by (simp add: take_map [symmetric])
  with drop f f' show ?thesis by auto
qed

text \<open>
  C15: in every schedule, the results the worker has emitted carry the mirror indices of
  \<open>0, 1, ..., index - 1\<close> in order: the frame index never skips or repeats.
\<close>

theorem pipeline_index_gapless:
  assumes run: "pipe_run ext synth cfg len evs ps = Inr ps'"
    and inv: "map (\<lambda>r. fst (snd r)) (inf_results (p_infer ps)) = map (mirror_res len) [0..<inf_index (p_infer ps)]"
  shows "map (\<lambda>r. fst (snd r)) (inf_results (p_infer ps')) = map (mirror_res len) [0..<inf_index (p_infer ps')] \<and>
         inf_index (p_infer ps) \<le> inf_index (p_infer ps')"
  using run inv
proof (induction evs arbitrary: ps)
  case Nil
  then show ?case by simp
next
  case (Cons ev evs)
  from Cons.prems(1) obtain ps1 where s1: "pipe_step ext synth cfg len ev ps = Inr ps1"
    and r: "pipe_run ext synth cfg len evs ps1 = Inr ps'"
    by (auto split: sum.splits)
  have "map (\<lambda>r. fst (snd r)) (inf_results (p_infer ps1)) = map (mirror_res len) [0..<inf_index (p_infer ps1)] \<and>
        inf_index (p_infer ps) \<le> inf_index (p_infer ps1)"
  proof (cases ev)
    case Infer
    show ?thesis
    proof (cases "p_held ps")
      case (Some x)
      show ?thesis
      proof (cases "infer_finish synth (cfg_batch_size cfg) len x (p_asr ps) (p_infer ps)")
        case (Running s)
        obtain st' ist' where s: "s = (st', ist')" by (cases s)
        with Running Infer Some s1 have ps1: "ps1 = ps\<lparr>p_asr := st', p_infer := ist', p_held := None\<rparr>" by simp
        from infer_finish_index [OF Running [unfolded s]] obtain rs where
          rs: "inf_results ist' = inf_results (p_infer ps) @ rs"
          "inf_index ist' = inf_index (p_infer ps) + length rs"
          "map (\<lambda>r. fst (snd r)) rs = map (mirror_res len) [inf_index (p_infer ps)..<inf_index ist']"
          by blast
        have "[0..<inf_index ist'] = [0..<inf_index (p_infer ps)] @ [inf_index (p_infer ps)..<inf_index ist']"
          using rs(2) upt_add_eq_append [of 0 "inf_index (p_infer ps)" "length rs"] by simp
        with rs Cons.prems(2) ps1 show ?thesis by simp
      qed (use Infer Some s1 Cons.prems(2) in auto)
    qed (use Infer s1 Cons.prems(2) in auto)
  qed (use s1 Cons.prems(2) in \<open>auto split: option.splits sum.splits\<close>)
  with Cons.IH [OF r] show ?case by auto
qed

subsection \<open>Witnesses\<close>

lemmas pipe_eval = run_step_eval infer_eval put_audio_frame_def put_audio_block_def mirror_res_def
  numeral_2_eq_2

theorem pipeline_alignment_witness:
  "let cfg = \<lparr>cfg_fps = 4, cfg_chunk = 2, cfg_mode = Block, cfg_max_chunks = 2,
              cfg_batch_size = 1, cfg_l = 2, cfg_r = 3, cfg_feat_qmax = 2, cfg_feat_mode = Block\<rparr>;
       ps = \<lparr>p_asr = \<lparr>asr_queue = mk_queue 2,
             asr_output = \<lparr>qitems = [([4], 0, None), ([5], 0, None), ([6], 0, None), ([7], 0, None), ([8], 0, None)], qmax = 0\<rparr>,
             asr_feat = \<lparr>qitems = [[[2], [3], [4], [5], [6], [7], [8]]], qmax = 2\<rparr>,
             asr_frames = [[4], [5], [6], [7], [8]],
             dropped_audio_chunks = 0, last_drop_log_ts = 0, dropped_feat_chunks = 0,
             last_feat_drop_log_ts = 0\<rparr>,
         p_custom = load_custom [],
         p_infer = \<lparr>inf_index = 0, inf_results = [], inf_rt = None, inf_math = False\<rparr>,
         p_held = None\<rparr>
         :: (int, int, int list list, int, unit) pipe_state
   in ext_centers cfg (id :: int list list \<Rightarrow> int list list) (\<lambda>w::int list list. take 2 (drop 2 w)) \<and>
      pipe_aligned cfg (\<lambda>w::int list list. take 2 (drop 2 w)) ps \<and>
      (\<exists>ps'. pipe_run id ((\<lambda>m x idxs. Inr [0]) :: bool \<Rightarrow> int list list \<Rightarrow> nat list \<Rightarrow> py_error + int list) cfg 3
               [InferGet, Infer, Tts 0 [1] 7, Extract 0, InferGet, Extract 0] ps = Inr ps' \<and>
         dropped_feat_chunks (p_asr ps') = dropped_feat_chunks (p_asr ps) \<and>
         p_held ps' \<noteq> None \<and>
         pipe_aligned cfg (\<lambda>w::int list list. take 2 (drop 2 w)) ps' \<and>
         (\<forall>x. p_held ps' = Some x \<longrightarrow>
            cfg_batch_size cfg * 2 \<le> qsize (asr_output (p_asr ps')) \<and>
            map fst (take (cfg_batch_size cfg * 2) (qitems (asr_output (p_asr ps')))) = take 2 (drop 2 x)))"
proof -
  let ?cfg = "\<lparr>cfg_fps = 4, cfg_chunk = 2, cfg_mode = Block, cfg_max_chunks = 2,
              cfg_batch_size = 1, cfg_l = 2, cfg_r = 3, cfg_feat_qmax = 2, cfg_feat_mode = Block\<rparr>"
  let ?ps = "\<lparr>p_asr = \<lparr>asr_queue = mk_queue 2,
             asr_output = \<lparr>qitems = [([4], 0, None), ([5], 0, None), ([6], 0, None), ([7], 0, None), ([8], 0, None)], qmax = 0\<rparr>,
             asr_feat = \<lparr>qitems = [[[2], [3], [4], [5], [6], [7], [8]]], qmax = 2\<rparr>,
             asr_frames = [[4], [5], [6], [7], [8]],
             dropped_audio_chunks = 0, last_drop_log_ts = 0, dropped_feat_chunks = 0,
             last_feat_drop_log_ts = 0\<rparr>,
         p_custom = load_custom [],
         p_infer = \<lparr>inf_index = 0, inf_results = [], inf_rt = None, inf_math = False\<rparr>,
         p_held = None\<rparr>
         :: (int, int, int list list, int, unit) pipe_state"
  let ?center = "\<lambda>w::int list list. take 2 (drop 2 w)"
  let ?evs = "[InferGet, Infer, Tts 0 [1] 7, Extract 0, InferGet, Extract 0] :: (int, int) pipe_event list"
  let ?synth = "(\<lambda>m x idxs. Inr [0]) :: bool \<Rightarrow> int list list \<Rightarrow> nat list \<Rightarrow> py_error + int list"
  have ext: "ext_centers ?cfg id ?center" by (simp add: ext_centers_def)
  have inv: "pipe_aligned ?cfg ?center ?ps"
    by (simp add: pipe_aligned_def pipe_shape_def held_batches_def q_wf_def qsize_def)
  have "\<exists>ps'. pipe_run id ?synth ?cfg 3 ?evs ?ps = Inr ps' \<and> dropped_feat_chunks (p_asr ps') = 0 \<and>
          p_held ps' \<noteq> None"
    by (simp add: pipe_eval infer_finish_def)
  then obtain ps' where r: "pipe_run id ?synth ?cfg 3 ?evs ?ps = Inr ps'"
    and d: "dropped_feat_chunks (p_asr ps') = 0" and h: "p_held ps' \<noteq> None" by (elim exE conjE)
  have c: "pipe_aligned ?cfg ?center ps' \<and>
         (\<forall>x. p_held ps' = Some x \<longrightarrow>
            cfg_batch_size ?cfg * 2 \<le> qsize (asr_output (p_asr ps')) \<and>
            map fst (take (cfg_batch_size ?cfg * 2) (qitems (asr_output (p_asr ps')))) = ?center x)"
    by (rule pipeline_alignment [OF ext _ _ _ inv _ r]) (simp_all add: d)
  have d0: "dropped_feat_chunks (p_asr ps') = dropped_feat_chunks (p_asr ?ps)" by (simp add: d)
  show ?thesis unfolding Let_def
    using ext inv r d0 h c by blast
qed

theorem eviction_misaligns_held_batch_witness:
  "let cfg = \<lparr>cfg_fps = 4, cfg_chunk = 2, cfg_mode = Block, cfg_max_chunks = 2,
              cfg_batch_size = 1, cfg_l = 2, cfg_r = 3, cfg_feat_qmax = 1, cfg_feat_mode = Drop\<rparr>;
       ps = \<lparr>p_asr = \<lparr>asr_queue = mk_queue 2,
             asr_output = \<lparr>qitems = [([4], 0, None), ([5], 0, None), ([6], 0, None), ([7], 0, None),
                                     ([8], 0, None), ([9], 0, None), ([10], 0, None)], qmax = 0\<rparr>,
             asr_feat = \<lparr>qitems = [[[0], [0], [6], [7]]], qmax = 1\<rparr>,
             asr_frames = [[6], [7], [8], [9], [10]],
             dropped_audio_chunks = 0, last_drop_log_ts = 0, dropped_feat_chunks = 0,
             last_feat_drop_log_ts = 0\<rparr>,
         p_custom = load_custom [],
         p_infer = \<lparr>inf_index = 0, inf_results = [], inf_rt = None, inf_math = False\<rparr>,
         p_held = Some [[0], [0], [4], [5]]\<rparr>
         :: (int, int, int list list, int, unit) pipe_state;
       center = (\<lambda>w::int list list. take 2 (drop 2 w))
   in ext_centers cfg (id :: int list list \<Rightarrow> int list list) center \<and>
      pipe_aligned cfg center ps \<and> q_full (asr_feat (p_asr ps)) \<and>
      (\<exists>st' cs'. run_step id cfg 0 (p_asr ps) (p_custom ps) = Inr (st', cs') \<and>
         dropped_feat_chunks st' = dropped_feat_chunks (p_asr ps) \<and>
         cfg_feat_mode cfg = Drop \<and>
         (\<exists>b rest x'. qitems (asr_feat (p_asr ps)) = b # rest \<and> qitems (asr_feat st') = rest @ [x'] \<and>
            map fst (take (cfg_batch_size cfg * 2) (qitems (asr_output st'))) = center b) \<and>
         map fst (take (cfg_batch_size cfg * 2) (qitems (asr_output st'))) \<noteq> center [[0], [0], [4], [5]])"
proof -
  let ?cfg = "\<lparr>cfg_fps = 4, cfg_chunk = 2, cfg_mode = Block, cfg_max_chunks = 2,
              cfg_batch_size = 1, cfg_l = 2, cfg_r = 3, cfg_feat_qmax = 1, cfg_feat_mode = Drop\<rparr>"
  let ?ps = "\<lparr>p_asr = \<lparr>asr_queue = mk_queue 2,
             asr_output = \<lparr>qitems = [([4], 0, None), ([5], 0, None), ([6], 0, None), ([7], 0, None),
                                     ([8], 0, None), ([9], 0, None), ([10], 0, None)], qmax = 0\<rparr>,
             asr_feat = \<lparr>qitems = [[[0], [0], [6], [7]]], qmax = 1\<rparr>,
             asr_frames = [[6], [7], [8], [9], [10]],
             dropped_audio_chunks = 0, last_drop_log_ts = 0, dropped_feat_chunks = 0,
             last_feat_drop_log_ts = 0\<rparr>,
         p_custom = load_custom [],
         p_infer = \<lparr>inf_index = 0, inf_results = [], inf_rt = None, inf_math = False\<rparr>,
         p_held = Some [[0], [0], [4], [5]]\<rparr>
         :: (int, int, int list list, int, unit) pipe_state"
  let ?center = "\<lambda>w::int list list. take 2 (drop 2 w)"
  have ext: "ext_centers ?cfg id ?center" by (simp add: ext_centers_def)
  have inv: "pipe_aligned ?cfg ?center ?ps"
    by (simp add: pipe_aligned_def pipe_shape_def held_batches_def q_wf_def qsize_def)
  have full: "q_full (asr_feat (p_asr ?ps))" by (simp add: q_full_def qsize_def)
  have "\<exists>st' cs'. run_step id ?cfg 0 (p_asr ?ps) (p_custom ?ps) = Inr (st', cs') \<and>
          dropped_feat_chunks st' = 0 \<and> map fst (take 2 (qitems (asr_output st'))) = [[6], [7]]"
    by (simp add: pipe_eval numeral_3_eq_3 get_upto_eq)
  then obtain st' cs' where r: "run_step id ?cfg 0 (p_asr ?ps) (p_custom ?ps) = Inr (st', cs')"
    and d: "dropped_feat_chunks st' = 0" and o: "map fst (take 2 (qitems (asr_output st'))) = [[6], [7]]"
    by (elim exE conjE)
  have d0: "dropped_feat_chunks st' = dropped_feat_chunks (p_asr ?ps)" by (simp add: d)
  have c: "cfg_feat_mode ?cfg = Drop \<and>
         (\<exists>b rest x'. qitems (asr_feat (p_asr ?ps)) = b # rest \<and> qitems (asr_feat st') = rest @ [x'] \<and>
            map fst (take (cfg_batch_size ?cfg * 2) (qitems (asr_output st'))) = ?center b)"
    by (rule eviction_misaligns_held_batch [OF ext _ _ inv _ full r d0]) simp_all
  have ne: "map fst (take (cfg_batch_size ?cfg * 2) (qitems (asr_output st'))) \<noteq> ?center [[0], [0], [4], [5]]"
    using o by simp
  show ?thesis unfolding Let_def
    using ext inv full r d0 c ne by blast
qed

theorem pipeline_index_gapless_witness:
  "let cfg = \<lparr>cfg_fps = 4, cfg_chunk = 2, cfg_mode = Block, cfg_max_chunks = 2,
              cfg_batch_size = 1, cfg_l = 2, cfg_r = 3, cfg_feat_qmax = 2, cfg_feat_mode = Block\<rparr>;
       ps = \<lparr>p_asr = \<lparr>asr_queue = mk_queue 2,
             asr_output = \<lparr>qitems = [([4], 0, None), ([5], 0, None), ([6], 0, None), ([7], 0, None), ([8], 0, None)], qmax = 0\<rparr>,
             asr_feat = \<lparr>qitems = [[[2], [3], [4], [5], [6], [7], [8]]], qmax = 2\<rparr>,
             asr_frames = [[4], [5], [6], [7], [8]],
             dropped_audio_chunks = 0, last_drop_log_ts = 0, dropped_feat_chunks = 0,
             last_feat_drop_log_ts = 0\<rparr>,
         p_custom = load_custom [],
         p_infer = \<lparr>inf_index = 0, inf_results = [], inf_rt = None, inf_math = False\<rparr>,
         p_held = None\<rparr>
         :: (int, int, int list list, int, unit) pipe_state
   in \<exists>ps'. pipe_run id ((\<lambda>m x idxs. Inr [0]) :: bool \<Rightarrow> int list list \<Rightarrow> nat list \<Rightarrow> py_error + int list) cfg 3
               [InferGet, Infer, Tts 0 [1] 7, Extract 0, InferGet, Extract 0, Infer] ps = Inr ps' \<and>
        map (\<lambda>r. fst (snd r)) (inf_results (p_infer ps')) = map (mirror_res 3) [0..<inf_index (p_infer ps')] \<and>
        inf_index (p_infer ps) \<le> inf_index (p_infer ps') \<and> inf_index (p_infer ps') = 2"
proof -
  let ?cfg = "\<lparr>cfg_fps = 4, cfg_chunk = 2, cfg_mode = Block, cfg_max_chunks = 2,
              cfg_batch_size = 1, cfg_l = 2, cfg_r = 3, cfg_feat_qmax = 2, cfg_feat_mode = Block\<rparr>"
  let ?ps = "\<lparr>p_asr = \<lparr>asr_queue = mk_queue 2,
             asr_output = \<lparr>qitems = [([4], 0, None), ([5], 0, None), ([6], 0, None), ([7], 0, None), ([8], 0, None)], qmax = 0\<rparr>,
             asr_feat = \<lparr>qitems = [[[2], [3], [4], [5], [6], [7], [8]]], qmax = 2\<rparr>,
             asr_frames = [[4], [5], [6], [7], [8]],
             dropped_audio_chunks = 0, last_drop_log_ts = 0, dropped_feat_chunks = 0,
             last_feat_drop_log_ts = 0\<rparr>,
         p_custom = load_custom [],
         p_infer = \<lparr>inf_index = 0, inf_results = [], inf_rt = None, inf_math = False\<rparr>,
         p_held = None\<rparr>
         :: (int, int, int list list, int, unit) pipe_state"
  let ?evs = "[InferGet, Infer, Tts 0 [1] 7, Extract 0, InferGet, Extract 0, Infer] :: (int, int) pipe_event list"
  let ?synth = "(\<lambda>m x idxs. Inr [0]) :: bool \<Rightarrow> int list list \<Rightarrow> nat list \<Rightarrow> py_error + int list"
  have "\<exists>ps'. pipe_run id ?synth ?cfg 3 ?evs ?ps = Inr ps' \<and> inf_index (p_infer ps') = 2"
    by (simp add: pipe_eval infer_finish_def)
  then obtain ps' where r: "pipe_run id ?synth ?cfg 3 ?evs ?ps = Inr ps'"
    and i: "inf_index (p_infer ps') = 2" by (elim exE conjE)
  have c: "map (\<lambda>r. fst (snd r)) (inf_results (p_infer ps')) = map (mirror_res 3) [0..<inf_index (p_infer ps')] \<and>
        inf_index (p_infer ?ps) \<le> inf_index (p_infer ps')"
    by (rule pipeline_index_gapless [OF r]) simp
  show ?thesis unfolding Let_def using r i c by blast
qed

end
