(* ===== verification/AVSync.thy ===== *)
theory AVSync
  imports Inference CustomState
begin

text \<open>
  AVSyncOutput: \<open>BaseReal.process_frames\<close> in \<open>src/basereal.py\<close>.  The thread takes
  render results \<open>(frame, idx, audio pair)\<close> from \<open>res_frame_queue\<close>, classifies the
  pair as raw silence, derives the speaking flag with a hangover, chooses the video frame
  (the idle asset or a custom clip image, the held last speaking frame in short gaps, or
  the synthesised face pasted back) with a cross-fade on every state switch, and emits the
  frame and the pair's audio.  In realtime mode the audio comes from the realtime bridge
  instead, and the result backlog is discarded down to one entry before each read.

  Images are an abstract type \<open>'img\<close>; \<open>cv2.addWeighted(a, 1 - alpha, b, alpha, 0)\<close>
  is a parameter \<open>blend a b alpha\<close>, \<open>paste_back_frame\<close> a parameter \<open>paste\<close>
  (\<open>None\<close> when it raises).  The two clock readings of one iteration are \<open>now\<close>
  (line 603) and \<open>tnow\<close> (the \<open>time.time()\<close> of the fade test and of alpha).  The
  watermark \<open>cv2.putText\<close>, recording and the virtual camera device are not modelled:
  the emitted video frames are a list.
\<close>

subsection \<open>Configuration\<close>

text \<open>\<open>float(os.getenv(key, default).strip())\<close> with the exception swallowed.\<close>

definition env_float :: "rat env_num \<Rightarrow> rat \<Rightarrow> rat" where
  "env_float v dflt = (case v of Num x \<Rightarrow> x | _ \<Rightarrow> dflt)"

definition clamp :: "rat \<Rightarrow> rat \<Rightarrow> rat \<Rightarrow> rat" where
  "clamp lo hi x = max lo (min hi x)"

record av_env =
  env_enable_transition :: "string option"
  env_transition_sec :: "rat env_num"
  env_hangover_sec :: "rat env_num"
  env_log_cooldown_sec :: "rat env_num"
  env_vcam_queue_sec :: "rat env_num"
  env_vcam_keep_sec :: "rat env_num"

record av_config =
  av_transition :: bool
  av_transition_sec :: rat
  av_hangover_sec :: rat
  av_log_cooldown_sec :: rat
  av_realtime :: bool
  av_vcam_qmax :: nat
  av_vcam_keep :: nat

definition av_config_of :: "nat \<Rightarrow> bool \<Rightarrow> av_env \<Rightarrow> av_config" where
  "av_config_of fps realtime env =
     (let qsec = clamp (1 / 10) 10 (env_float (env_vcam_queue_sec env) (3 / 5));
          ksec = max (1 / 25) (min qsec (env_float (env_vcam_keep_sec env) (1 / 5)));
          qmax = max 8 (nat (py_round (qsec * of_nat fps)));
          keep = max 2 (min (qmax - 1) (nat (py_round (ksec * of_nat fps))))
      in \<lparr>av_transition = (getenv_norm (env_enable_transition env) ''1'' \<notin> {''0'', ''false'', ''no''}),
          av_transition_sec = clamp 0 2 (env_float (env_transition_sec env) (4 / 25)),
          av_hangover_sec = clamp 0 2 (env_float (env_hangover_sec env) (7 / 20)),
          av_log_cooldown_sec = clamp 0 5 (env_float (env_log_cooldown_sec env) (2 / 5)),
          av_realtime = realtime, av_vcam_qmax = qmax, av_vcam_keep = keep\<rparr>)"

subsection \<open>State\<close>

record ('s, 'e, 'img) av_state =
  av_last_speaking :: bool
  av_transition_start :: real
  av_last_switch_log_ts :: real
  av_last_silent_frame :: "'img option"
  av_last_speaking_frame :: "'img option"
  av_last_voice_ts :: real
  av_speaking :: bool
  av_video :: "'img list"
  av_audio :: "('s, 'e) audio_entry list"

definition av_init :: "real \<Rightarrow> ('s, 'e, 'img) av_state" where
  "av_init now =
     \<lparr>av_last_speaking = False, av_transition_start = now, av_last_switch_log_ts = 0,
      av_last_silent_frame = None, av_last_speaking_frame = None, av_last_voice_ts = 0,
      av_speaking = False, av_video = [], av_audio = []\<rparr>"

subsection \<open>One render result\<close>

text \<open>
  \<open>raw_silence = (audio_frames[0][1] != 0 and audio_frames[1][1] != 0)\<close>: the
  second entry is only read when the first is not speech.
\<close>

definition raw_silence :: "('s, 'e) audio_entry list \<Rightarrow> py_error + bool" where
  "raw_silence afs =
     (case afs of
        [] \<Rightarrow> Inl IndexError
      | a # rest \<Rightarrow>
          if fst (snd a) = 0 then Inr False
          else (case rest of [] \<Rightarrow> Inl IndexError | b # _ \<Rightarrow> Inr (fst (snd b) \<noteq> 0)))"

text \<open>Speaking flag and switch bookkeeping (lines 603--619).\<close>

definition av_classify ::
  "av_config \<Rightarrow> real \<Rightarrow> bool \<Rightarrow> ('s, 'e, 'img) av_state \<Rightarrow> ('s, 'e, 'img) av_state" where
  "av_classify cfg now raw st =
     (let voice = (if raw then av_last_voice_ts st else now);
          cur = (\<not> raw \<or> now - voice \<le> of_rat (av_hangover_sec cfg));
          switch = (av_transition cfg \<and> cur \<noteq> av_last_speaking st);
          log = (switch \<and> of_rat (av_log_cooldown_sec cfg) \<le> now - av_last_switch_log_ts st)
      in st\<lparr>av_last_voice_ts := voice, av_speaking := cur,
            av_last_switch_log_ts := (if log then now else av_last_switch_log_ts st),
            av_transition_start := (if switch then now else av_transition_start st),
            av_last_speaking := cur\<rparr>)"

text \<open>The cross-fade test of lines 630 and 649 and its weight.\<close>

definition fading :: "av_config \<Rightarrow> real \<Rightarrow> ('s, 'e, 'img) av_state \<Rightarrow> bool" where
  "fading cfg tnow st \<longleftrightarrow>
     av_transition cfg \<and> 0 < av_transition_sec cfg \<and>
     tnow - av_transition_start st < of_rat (av_transition_sec cfg)"

definition fade_alpha :: "av_config \<Rightarrow> real \<Rightarrow> ('s, 'e, 'img) av_state \<Rightarrow> real" where
  "fade_alpha cfg tnow st = min 1 ((tnow - av_transition_start st) / of_rat (av_transition_sec cfg))"

text \<open>
  The idle image: a custom clip image when the pair's audio type has a custom image
  loop (advancing its counter), the avatar's asset \<open>frame_list_cycle[idx]\<close> otherwise.
\<close>

definition idle_target ::
  "'img list \<Rightarrow> int \<Rightarrow> nat \<Rightarrow> ('s, 'img) custom_state \<Rightarrow> py_error + ('img \<times> ('s, 'img) custom_state)" where
  "idle_target cycle t idx cs =
     (case custom_index cs t of
        Some ci \<Rightarrow>
          (case custom_img_cycle cs t of
             None \<Rightarrow> Inl KeyError
           | Some imgs \<Rightarrow>
               (case mirror_index (length imgs) ci of
                  Inl e \<Rightarrow> Inl e
                | Inr m \<Rightarrow> Inr (imgs ! m, cs\<lparr>custom_index := (custom_index cs)(t \<mapsto> ci + 1)\<rparr>)))
      | None \<Rightarrow> (if idx < length cycle then Inr (cycle ! idx, cs) else Inl IndexError))"

text \<open>
  The frame of lines 621--655: \<open>None\<close> when \<open>paste_back_frame\<close> raises (the
  iteration ends with \<open>continue\<close>), otherwise the frame to show, with the remembered
  last silent or last speaking frame updated.
\<close>

definition av_frame ::
  "av_config \<Rightarrow> 'img list \<Rightarrow> ('v option \<Rightarrow> nat \<Rightarrow> 'img option) \<Rightarrow> ('img \<Rightarrow> 'img \<Rightarrow> real \<Rightarrow> 'img) \<Rightarrow>
   real \<Rightarrow> bool \<Rightarrow> 'v option \<Rightarrow> nat \<Rightarrow> int \<Rightarrow> ('s, 'e, 'img) av_state \<Rightarrow> ('s, 'img) custom_state \<Rightarrow>
   py_error + ('img option \<times> ('s, 'e, 'img) av_state \<times> ('s, 'img) custom_state)" where
  "av_frame cfg cycle paste blend tnow raw res_frame idx t st cs =
     (if raw \<and> \<not> av_speaking st then
        (case idle_target cycle t idx cs of
           Inl e \<Rightarrow> Inl e
         | Inr (target, cs') \<Rightarrow>
             (let combine = (case av_last_speaking_frame st of
                               Some f \<Rightarrow> if fading cfg tnow st then blend f target (fade_alpha cfg tnow st)
                                         else target
                             | None \<Rightarrow> target)
              in Inr (Some combine,
                      if av_transition cfg then st\<lparr>av_last_silent_frame := Some combine\<rparr> else st, cs')))
      else if raw then
        (case av_last_speaking_frame st of
           Some f \<Rightarrow> if av_transition cfg then Inr (Some f, st, cs)
                     else if idx < length cycle then Inr (Some (cycle ! idx), st, cs) else Inl IndexError
         | None \<Rightarrow> if idx < length cycle then Inr (Some (cycle ! idx), st, cs) else Inl IndexError)
      else
        (case paste res_frame idx of
           None \<Rightarrow> Inr (None, st, cs)
         | Some current \<Rightarrow>
             (let combine = (case av_last_silent_frame st of
                               Some f \<Rightarrow> if fading cfg tnow st then blend f current (fade_alpha cfg tnow st)
                                         else current
                             | None \<Rightarrow> current)
              in Inr (Some combine,
                      if av_transition cfg then st\<lparr>av_last_speaking_frame := Some combine\<rparr> else st, cs))))"

text \<open>Lines 657--686: send the frame, then the pair's audio unless it came from the bridge.\<close>

definition av_emit :: "av_config \<Rightarrow> ('s, 'e) audio_entry list \<Rightarrow> 'img \<Rightarrow> ('s, 'e, 'img) av_state \<Rightarrow> ('s, 'e, 'img) av_state" where
  "av_emit cfg afs img st =
     st\<lparr>av_video := av_video st @ [img],
        av_audio := (if av_realtime cfg then av_audio st else av_audio st @ afs)\<rparr>"

text \<open>Lines 603--686 for one result; \<open>Inl\<close> is an exception that ends the thread.\<close>

definition av_render ::
  "av_config \<Rightarrow> 'img list \<Rightarrow> ('v option \<Rightarrow> nat \<Rightarrow> 'img option) \<Rightarrow> ('img \<Rightarrow> 'img \<Rightarrow> real \<Rightarrow> 'img) \<Rightarrow>
   real \<Rightarrow> real \<Rightarrow> ('s, 'e, 'v) render_result \<Rightarrow> ('s, 'e, 'img) av_state \<Rightarrow> ('s, 'img) custom_state \<Rightarrow>
   py_error + (('s, 'e, 'img) av_state \<times> ('s, 'img) custom_state)" where
  "av_render cfg cycle paste blend now tnow res st cs =
     (case res of (res_frame, idx, afs) \<Rightarrow>
        (case raw_silence afs of
           Inl e \<Rightarrow> Inl e
         | Inr raw \<Rightarrow>
             (case av_frame cfg cycle paste blend tnow raw res_frame idx (fst (snd (hd afs)))
                     (av_classify cfg now raw st) cs of
                Inl e \<Rightarrow> Inl e
              | Inr (None, st2, cs') \<Rightarrow> Inr (st2, cs')
              | Inr (Some img, st2, cs') \<Rightarrow> Inr (av_emit cfg afs img st2, cs'))))"

subsection \<open>The loop\<close>

text \<open>
  Realtime mode, before each read: emit every queued bridge entry, then discard results
  while more than one is queued.
\<close>

definition drain_realtime ::
  "('s, 'e) audio_entry pyqueue \<Rightarrow> ('s, 'e, 'img) av_state \<Rightarrow> ('s, 'e) audio_entry pyqueue \<times> ('s, 'e, 'img) av_state" where
  "drain_realtime rq st = (rq\<lparr>qitems := []\<rparr>, st\<lparr>av_audio := av_audio st @ qitems rq\<rparr>)"

function discard_backlog :: "'a pyqueue \<Rightarrow> 'a pyqueue" where
  "discard_backlog q =
     (if qsize q \<le> 1 then q
      else (case get_nowait q of Inl _ \<Rightarrow> q | Inr (_, q') \<Rightarrow> discard_backlog q'))"
  by pat_completeness auto
termination
  by (relation "measure qsize") (auto simp: get_nowait_def qsize_def split: list.splits)

declare discard_backlog.simps [simp del]

record ('s, 'e, 'v, 'img) av_sys =
  av_results :: "('s, 'e, 'v) render_result pyqueue"
  av_rt :: "('s, 'e) audio_entry pyqueue"
  av_st :: "('s, 'e, 'img) av_state"
  av_cs :: "('s, 'img) custom_state"

text \<open>One iteration of \<open>while not quit_event.is_set()\<close>; a timed-out read loops.\<close>

definition av_iteration ::
  "av_config \<Rightarrow> 'img list \<Rightarrow> ('v option \<Rightarrow> nat \<Rightarrow> 'img option) \<Rightarrow> ('img \<Rightarrow> 'img \<Rightarrow> real \<Rightarrow> 'img) \<Rightarrow>
   real \<Rightarrow> real \<Rightarrow> ('s, 'e, 'v, 'img) av_sys \<Rightarrow> py_error + ('s, 'e, 'v, 'img) av_sys" where
  "av_iteration cfg cycle paste blend now tnow sys =
     (let sys1 = (if av_realtime cfg
                  then (case drain_realtime (av_rt sys) (av_st sys) of
                          (rq, st) \<Rightarrow> sys\<lparr>av_rt := rq, av_st := st, av_results := discard_backlog (av_results sys)\<rparr>)
                  else sys)
      in case get_nowait (av_results sys1) of
           Inl _ \<Rightarrow> Inr sys1
         | Inr (res, q) \<Rightarrow>
             (case av_render cfg cycle paste blend now tnow res (av_st sys1) (av_cs sys1) of
                Inl e \<Rightarrow> Inl e
              | Inr (st', cs') \<Rightarrow> Inr (sys1\<lparr>av_results := q, av_st := st', av_cs := cs'\<rparr>)))"

text \<open>The loop, one pair of clock readings per iteration.\<close>

fun av_loop ::
  "av_config \<Rightarrow> 'img list \<Rightarrow> ('v option \<Rightarrow> nat \<Rightarrow> 'img option) \<Rightarrow> ('img \<Rightarrow> 'img \<Rightarrow> real \<Rightarrow> 'img) \<Rightarrow>
   (real \<times> real) list \<Rightarrow> ('s, 'e, 'v, 'img) av_sys \<Rightarrow> py_error + ('s, 'e, 'v, 'img) av_sys" where
  "av_loop cfg cycle paste blend [] sys = Inr sys"
| "av_loop cfg cycle paste blend ((now, tnow) # clocks) sys =
     (case av_iteration cfg cycle paste blend now tnow sys of
        Inl e \<Rightarrow> Inl e
      | Inr sys' \<Rightarrow> av_loop cfg cycle paste blend clocks sys')"

subsection \<open>Behaviour of one iteration\<close>

lemma av_classify_fields [simp]:
  "av_video (av_classify cfg now raw st) = av_video st"
  "av_audio (av_classify cfg now raw st) = av_audio st"
  "av_last_silent_frame (av_classify cfg now raw st) = av_last_silent_frame st"
  "av_last_speaking_frame (av_classify cfg now raw st) = av_last_speaking_frame st"
  "av_speaking (av_classify cfg now raw st) = (\<not> raw \<or> now - (if raw then av_last_voice_ts st else now) \<le> of_rat (av_hangover_sec cfg))"
  "av_last_voice_ts (av_classify cfg now raw st) = (if raw then av_last_voice_ts st else now)"
  "av_last_speaking (av_classify cfg now raw st) = av_speaking (av_classify cfg now raw st)"
  by (simp_all add: av_classify_def Let_def)

lemma av_frame_fields:
  assumes "av_frame cfg cycle paste blend tnow raw f idx t st cs = Inr (img, st', cs')"
  shows "av_speaking st' = av_speaking st \<and> av_last_voice_ts st' = av_last_voice_ts st \<and>
         av_last_speaking st' = av_last_speaking st \<and> av_transition_start st' = av_transition_start st \<and>
         av_video st' = av_video st \<and> av_audio st' = av_audio st"
  using assms
  by (auto simp: av_frame_def Let_def split: sum.splits prod.splits if_splits option.splits)

lemma av_frame_None:
  "av_frame cfg cycle paste blend tnow raw f idx t st cs = Inr (None, st2, cs') \<Longrightarrow>
   \<not> raw \<and> paste f idx = None \<and> st2 = st \<and> cs' = cs"
  by (auto simp: av_frame_def Let_def split: sum.splits prod.splits if_splits option.splits)

lemma av_render_fields:
  assumes "av_render cfg cycle paste blend now tnow (f, idx, afs) st cs = Inr (st', cs')"
  shows "\<exists>raw img st2. raw_silence afs = Inr raw \<and>
           av_speaking st' = av_speaking (av_classify cfg now raw st) \<and>
           av_last_voice_ts st' = av_last_voice_ts (av_classify cfg now raw st) \<and>
           av_frame cfg cycle paste blend tnow raw f idx (fst (snd (hd afs))) (av_classify cfg now raw st) cs =
             Inr (img, st2, cs') \<and>
           (img = None \<longrightarrow> st' = st2) \<and> (\<forall>i. img = Some i \<longrightarrow> st' = av_emit cfg afs i st2)"
proof -
  from assms obtain raw where raw: "raw_silence afs = Inr raw"
    by (auto simp: av_render_def split: sum.splits)
  with assms obtain img st2 where fr: "av_frame cfg cycle paste blend tnow raw f idx (fst (snd (hd afs)))
      (av_classify cfg now raw st) cs = Inr (img, st2, cs')"
    and st': "(img = None \<longrightarrow> st' = st2) \<and> (\<forall>i. img = Some i \<longrightarrow> st' = av_emit cfg afs i st2)"
    by (auto simp: av_render_def split: sum.splits prod.splits option.splits)
  from av_frame_fields [OF fr] st' raw fr show ?thesis
    by (cases img) (auto simp: av_emit_def)
qed

lemma av_render_realtime_audio:
  assumes rt: "av_realtime cfg"
    and r: "av_render cfg cycle paste blend now tnow (f, idx, afs) st cs = Inr (st', cs')"
  shows "av_audio st' = av_audio st"
proof -
  from av_render_fields [OF r] obtain raw img st2 where
    fr: "av_frame cfg cycle paste blend tnow raw f idx (fst (snd (hd afs))) (av_classify cfg now raw st) cs =
             Inr (img, st2, cs')"
    and e: "(img = None \<longrightarrow> st' = st2) \<and> (\<forall>i. img = Some i \<longrightarrow> st' = av_emit cfg afs i st2)"
    by blast
  have "av_audio st2 = av_audio st" using av_frame_fields [OF fr] by simp
  with e rt show ?thesis by (cases img) (simp_all add: av_emit_def)
qed

lemma discard_backlog_eq:
  "discard_backlog q = q\<lparr>qitems := drop (qsize q - 1) (qitems q)\<rparr>"
proof (induction q rule: discard_backlog.induct)
  case (1 q)
  show ?case
  proof (cases "qsize q \<le> 1")
    case True
    then show ?thesis by (simp add: discard_backlog.simps)
  next
    case False
    then obtain y ys where q: "qitems q = y # ys" by (cases "qitems q") (auto simp: qsize_def)
    have "discard_backlog q = discard_backlog (q\<lparr>qitems := ys\<rparr>)"
      using False q by (simp add: discard_backlog.simps get_nowait_def)
    also have "\<dots> = q\<lparr>qitems := drop (length ys - 1) ys\<rparr>"
      using 1 [OF False] False q by (simp add: get_nowait_def qsize_def)
    finally show ?thesis using False q by (simp add: qsize_def drop_Cons')
  qed
qed

lemma av_iteration_step:
  assumes "av_iteration cfg cycle paste blend now tnow sys = Inr sys'"
  shows "(\<exists>k. qitems (av_results sys') = drop k (qitems (av_results sys))) \<and>
         ((av_speaking (av_st sys') = av_speaking (av_st sys) \<and>
           av_last_voice_ts (av_st sys') = av_last_voice_ts (av_st sys)) \<or>
          (\<exists>r \<in> set (qitems (av_results sys)). \<exists>raw. raw_silence (snd (snd r)) = Inr raw \<and>
             av_speaking (av_st sys') = av_speaking (av_classify cfg now raw (av_st sys)) \<and>
             av_last_voice_ts (av_st sys') = av_last_voice_ts (av_classify cfg now raw (av_st sys))))"
proof -
  define sys1 where "sys1 = (if av_realtime cfg
                  then (case drain_realtime (av_rt sys) (av_st sys) of
                          (rq, st) \<Rightarrow> sys\<lparr>av_rt := rq, av_st := st, av_results := discard_backlog (av_results sys)\<rparr>)
                  else sys)"
  have r1: "\<exists>k. qitems (av_results sys1) = drop k (qitems (av_results sys))"
    by (auto simp: sys1_def drain_realtime_def discard_backlog_eq intro: exI [of _ 0])
  have v1: "av_speaking (av_st sys1) = av_speaking (av_st sys)"
    "av_last_voice_ts (av_st sys1) = av_last_voice_ts (av_st sys)"
    by (simp_all add: sys1_def drain_realtime_def)
  have it: "av_iteration cfg cycle paste blend now tnow sys =
     (case get_nowait (av_results sys1) of
        Inl _ \<Rightarrow> Inr sys1
      | Inr (res, q) \<Rightarrow>
          (case av_render cfg cycle paste blend now tnow res (av_st sys1) (av_cs sys1) of
             Inl e \<Rightarrow> Inl e
           | Inr (st', cs') \<Rightarrow> Inr (sys1\<lparr>av_results := q, av_st := st', av_cs := cs'\<rparr>)))"
    unfolding av_iteration_def Let_def sys1_def by (rule refl)
  show ?thesis
  proof (cases "qitems (av_results sys1)")
    case Nil
    with assms it have "sys' = sys1" by (simp add: get_nowait_def)
    with r1 v1 show ?thesis by simp
  next
    case (Cons r rest)
    obtain f idx afs where r: "r = (f, idx, afs)" by (cases r) auto
    have g: "get_nowait (av_results sys1) = Inr (r, (av_results sys1)\<lparr>qitems := rest\<rparr>)"
      using Cons by (simp add: get_nowait_def)
    obtain st' cs' where
      rd: "av_render cfg cycle paste blend now tnow r (av_st sys1) (av_cs sys1) = Inr (st', cs')"
      using assms unfolding it g by (auto split: sum.split_asm)
    have sys': "sys' = sys1\<lparr>av_results := (av_results sys1)\<lparr>qitems := rest\<rparr>, av_st := st', av_cs := cs'\<rparr>"
      using assms unfolding it g by (simp add: rd)
    from r1 obtain k where k: "qitems (av_results sys1) = drop k (qitems (av_results sys))" by blast
    with Cons have mem: "r \<in> set (qitems (av_results sys))"
      by (metis in_set_dropD list.set_intros(1))
    have rest: "qitems (av_results sys') = drop (Suc k) (qitems (av_results sys))"
    proof -
      have "rest = tl (drop k (qitems (av_results sys)))" using k Cons by (metis list.sel(3))
      then show ?thesis using sys' by (simp add: drop_Suc tl_drop)
    qed
    from av_render_fields [OF rd [unfolded r]] obtain raw where
      f: "raw_silence afs = Inr raw" "av_speaking st' = av_speaking (av_classify cfg now raw (av_st sys1))"
      "av_last_voice_ts st' = av_last_voice_ts (av_classify cfg now raw (av_st sys1))"
      by blast
    have c: "av_speaking (av_classify cfg now raw (av_st sys1)) = av_speaking (av_classify cfg now raw (av_st sys))"
      "av_last_voice_ts (av_classify cfg now raw (av_st sys1)) = av_last_voice_ts (av_classify cfg now raw (av_st sys))"
      using v1 by simp_all
    have "raw_silence (snd (snd r)) = Inr raw \<and>
          av_speaking (av_st sys') = av_speaking (av_classify cfg now raw (av_st sys)) \<and>
          av_last_voice_ts (av_st sys') = av_last_voice_ts (av_classify cfg now raw (av_st sys))"
      using f c r sys' by simp
    with mem rest show ?thesis by blast
  qed
qed

lemma av_iteration_head:
  assumes nrt: "\<not> av_realtime cfg" and q: "qitems (av_results sys) = r # rest"
    and it: "av_iteration cfg cycle paste blend now tnow sys = Inr sys'"
  shows "qitems (av_results sys') = rest \<and>
         (\<exists>raw. raw_silence (snd (snd r)) = Inr raw \<and>
            av_speaking (av_st sys') = av_speaking (av_classify cfg now raw (av_st sys)) \<and>
            av_last_voice_ts (av_st sys') = av_last_voice_ts (av_classify cfg now raw (av_st sys)))"
proof -
  obtain f idx afs where r: "r = (f, idx, afs)" by (cases r) auto
  have g: "get_nowait (av_results sys) = Inr (r, (av_results sys)\<lparr>qitems := rest\<rparr>)"
    using q by (simp add: get_nowait_def)
  have it': "av_iteration cfg cycle paste blend now tnow sys =
     (case av_render cfg cycle paste blend now tnow r (av_st sys) (av_cs sys) of
        Inl e \<Rightarrow> Inl e
      | Inr (st', cs') \<Rightarrow> Inr (sys\<lparr>av_results := (av_results sys)\<lparr>qitems := rest\<rparr>, av_st := st', av_cs := cs'\<rparr>))"
    by (simp add: av_iteration_def nrt g)
  obtain st' cs' where
    rd: "av_render cfg cycle paste blend now tnow r (av_st sys) (av_cs sys) = Inr (st', cs')"
    and sys': "sys' = sys\<lparr>av_results := (av_results sys)\<lparr>qitems := rest\<rparr>, av_st := st', av_cs := cs'\<rparr>"
    using it unfolding it'
    by (cases "av_render cfg cycle paste blend now tnow r (av_st sys) (av_cs sys)") (auto split: prod.splits)
  from av_render_fields [OF rd [unfolded r]] obtain raw where
    f: "raw_silence afs = Inr raw" "av_speaking st' = av_speaking (av_classify cfg now raw (av_st sys))"
    "av_last_voice_ts st' = av_last_voice_ts (av_classify cfg now raw (av_st sys))"
    by blast
  show ?thesis using f r sys' by simp
qed

lemma av_loop_silent:
  "\<forall>r \<in> set (qitems (av_results sys)). raw_silence (snd (snd r)) = Inr True \<Longrightarrow>
   av_loop cfg cycle paste blend clocks sys = Inr sys' \<Longrightarrow>
   av_last_voice_ts (av_st sys') = av_last_voice_ts (av_st sys) \<and>
   (av_speaking (av_st sys') = av_speaking (av_st sys) \<or>
    (\<exists>c \<in> set clocks. av_speaking (av_st sys') =
        (fst c - av_last_voice_ts (av_st sys) \<le> of_rat (av_hangover_sec cfg))))"
proof (induction clocks arbitrary: sys)
  case Nil
  then show ?case by simp
next
  case (Cons c clocks)
  obtain now tnow where c: "c = (now, tnow)" by (cases c)
  from Cons.prems(2) c obtain sys1 where it: "av_iteration cfg cycle paste blend now tnow sys = Inr sys1"
    and r: "av_loop cfg cycle paste blend clocks sys1 = Inr sys'"
    by (auto split: sum.splits)
  from av_iteration_step [OF it] obtain k where
    k: "qitems (av_results sys1) = drop k (qitems (av_results sys))"
    and st1: "(av_speaking (av_st sys1) = av_speaking (av_st sys) \<and>
           av_last_voice_ts (av_st sys1) = av_last_voice_ts (av_st sys)) \<or>
          (\<exists>r \<in> set (qitems (av_results sys)). \<exists>raw. raw_silence (snd (snd r)) = Inr raw \<and>
             av_speaking (av_st sys1) = av_speaking (av_classify cfg now raw (av_st sys)) \<and>
             av_last_voice_ts (av_st sys1) = av_last_voice_ts (av_classify cfg now raw (av_st sys)))"
    by blast
  have sil1: "\<forall>r \<in> set (qitems (av_results sys1)). raw_silence (snd (snd r)) = Inr True"
    using Cons.prems(1) k by (auto dest: in_set_dropD)
  have v1: "av_last_voice_ts (av_st sys1) = av_last_voice_ts (av_st sys) \<and>
    (av_speaking (av_st sys1) = av_speaking (av_st sys) \<or>
     av_speaking (av_st sys1) = (now - av_last_voice_ts (av_st sys) \<le> of_rat (av_hangover_sec cfg)))"
    using st1 Cons.prems(1) by auto
  from Cons.IH [OF sil1 r] v1 c show ?case by auto
qed

lemma clamp_bounds: "lo \<le> hi \<Longrightarrow> lo \<le> clamp lo hi x \<and> clamp lo hi x \<le> hi"
  by (simp add: clamp_def)

subsection \<open>Properties of the output stage\<close>

text \<open>
  C8: Scenario A: a run of results whose audio pairs are all raw silence, read long
  enough after the last voice (more than the hangover), never makes the avatar speak.
\<close>

theorem silence_never_speaks:
  assumes sil: "\<forall>r \<in> set (qitems (av_results sys)). raw_silence (snd (snd r)) = Inr True"
    and late: "\<forall>c \<in> set clocks. of_rat (av_hangover_sec cfg) < fst c - av_last_voice_ts (av_st sys)"
    and quiet: "\<not> av_speaking (av_st sys)"
    and run: "av_loop cfg cycle paste blend clocks sys = Inr sys'"
  shows "\<not> av_speaking (av_st sys')"
  using av_loop_silent [OF sil run] late quiet by fastforce

text \<open>
  C9: Scenario B: after a result with speech read at time \<open>n0\<close>, the speaking flag
  stays on through the following silent results as long as they are read within the
  hangover, and the last voice time stays \<open>n0\<close>.
\<close>

theorem hangover_keeps_speaking:
  assumes nrt: "\<not> av_realtime cfg" and q: "qitems (av_results sys) = r0 # rs"
    and voice: "raw_silence (snd (snd r0)) = Inr False"
    and sil: "\<forall>r \<in> set rs. raw_silence (snd (snd r)) = Inr True"
    and near: "\<forall>c \<in> set clocks. fst c - n0 \<le> of_rat (av_hangover_sec cfg)"
    and run: "av_loop cfg cycle paste blend ((n0, t0) # clocks) sys = Inr sys'"
  shows "av_speaking (av_st sys') \<and> av_last_voice_ts (av_st sys') = n0"
proof -
  obtain sys1 where it: "av_iteration cfg cycle paste blend n0 t0 sys = Inr sys1"
    and r: "av_loop cfg cycle paste blend clocks sys1 = Inr sys'"
    using run by (cases "av_iteration cfg cycle paste blend n0 t0 sys") simp_all
  from av_iteration_head [OF nrt q it] voice have
    s1: "qitems (av_results sys1) = rs" "av_speaking (av_st sys1)" "av_last_voice_ts (av_st sys1) = n0"
    by auto
  have "av_last_voice_ts (av_st sys') = n0 \<and>
        (av_speaking (av_st sys') = True \<or>
         (\<exists>c \<in> set clocks. av_speaking (av_st sys') = (fst c - n0 \<le> of_rat (av_hangover_sec cfg))))"
    using av_loop_silent [OF _ r] sil s1 by simp
  with near show ?thesis by auto
qed

text \<open>
  C10: outside realtime mode every result that is rendered emits exactly one video frame
  and its two audio entries; the only result that emits nothing is a speech pair whose
  \<open>paste_back_frame\<close> raised.
\<close>

theorem av_render_lockstep:
  assumes nrt: "\<not> av_realtime cfg"
    and r: "av_render cfg cycle paste blend now tnow (f, idx, afs) st cs = Inr (st', cs')"
  shows "(\<exists>img. av_video st' = av_video st @ [img] \<and> av_audio st' = av_audio st @ afs) \<or>
         (av_video st' = av_video st \<and> av_audio st' = av_audio st \<and>
          raw_silence afs = Inr False \<and> paste f idx = None)"
proof -
  from av_render_fields [OF r] obtain raw img st2 where
    raw: "raw_silence afs = Inr raw"
    and fr: "av_frame cfg cycle paste blend tnow raw f idx (fst (snd (hd afs))) (av_classify cfg now raw st) cs =
             Inr (img, st2, cs')"
    and e: "(img = None \<longrightarrow> st' = st2) \<and> (\<forall>i. img = Some i \<longrightarrow> st' = av_emit cfg afs i st2)"
    by blast
  have va: "av_video st2 = av_video st" "av_audio st2 = av_audio st"
    using av_frame_fields [OF fr] by simp_all
  show ?thesis
  proof (cases img)
    case None
    from av_frame_None [OF fr [unfolded None]] have "\<not> raw" "paste f idx = None" by simp_all
    with None e va raw show ?thesis by simp
  next
    case (Some i)
    with e va nrt show ?thesis by (simp add: av_emit_def)
  qed
qed

text \<open>
  C11: when \<open>paste_back_frame\<close> raises on a speech pair, the iteration ends with
  \<open>continue\<close>: neither the frame nor the pair's audio is emitted, so 40 ms of speech is
  lost from the output while the speaking flag is set.
\<close>

theorem paste_failure_drops_pair:
  assumes sp: "raw_silence afs = Inr False" and pf: "paste f idx = None"
  shows "\<exists>st'. av_render cfg cycle paste blend now tnow (f, idx, afs) st cs = Inr (st', cs) \<and>
           av_video st' = av_video st \<and> av_audio st' = av_audio st \<and> av_speaking st'"
  using sp pf by (simp add: av_render_def av_frame_def)

text \<open>
  In a short gap (raw silence within the hangover) with transitions enabled, the
  last speaking frame is shown again instead of the idle asset.
\<close>

theorem gap_holds_speaking_frame:
  assumes sil: "raw_silence afs = Inr True"
    and near: "now - av_last_voice_ts st \<le> of_rat (av_hangover_sec cfg)"
    and tr: "av_transition cfg" and held: "av_last_speaking_frame st = Some fr"
  shows "\<exists>st'. av_render cfg cycle paste blend now tnow (f, idx, afs) st cs = Inr (st', cs) \<and>
           av_video st' = av_video st @ [fr] \<and> av_speaking st'"
  using sil near tr held by (simp add: av_render_def av_frame_def av_emit_def)

text \<open>
  When speech ends (the hangover expired) with transitions enabled, the switch
  starts a cross-fade at \<open>now\<close>: the frame shown is the blend of the last speaking
  frame and the idle asset with weight \<open>(tnow - now) / transition_sec\<close>.
\<close>

theorem fade_to_idle:
  assumes sil: "raw_silence afs = Inr True" and t: "fst (snd (hd afs)) = t"
    and quiet: "of_rat (av_hangover_sec cfg) < now - av_last_voice_ts st"
    and was: "av_last_speaking st" and tr: "av_transition cfg" and pos: "0 < av_transition_sec cfg"
    and held: "av_last_speaking_frame st = Some fr" and nc: "custom_index cs t = None"
    and idx: "idx < length cycle"
    and early: "0 \<le> tnow - now" "tnow - now < of_rat (av_transition_sec cfg)"
  shows "\<exists>st'. av_render cfg cycle paste blend now tnow (f, idx, afs) st cs = Inr (st', cs) \<and>
           av_video st' = av_video st @ [blend fr (cycle ! idx) ((tnow - now) / of_rat (av_transition_sec cfg))] \<and>
           \<not> av_speaking st' \<and> av_transition_start st' = now"
proof -
  have a: "min 1 ((tnow - now) / of_rat (av_transition_sec cfg)) = (tnow - now) / of_rat (av_transition_sec cfg)"
    using early pos by (simp add: zero_less_of_rat_iff)
  show ?thesis
    using sil t quiet was tr pos held nc idx early a
    by (simp add: av_render_def av_frame_def av_emit_def av_classify_def Let_def idle_target_def
        fading_def fade_alpha_def)
qed

text \<open>
  C18: in realtime mode an iteration emits every queued bridge entry and leaves no
  result queued: the results behind the newest are discarded with their frames.
\<close>

theorem realtime_no_backlog:
  assumes rt: "av_realtime cfg"
    and it: "av_iteration cfg cycle paste blend now tnow sys = Inr sys'"
  shows "qitems (av_results sys') = [] \<and> qitems (av_rt sys') = [] \<and>
         av_audio (av_st sys') = av_audio (av_st sys) @ qitems (av_rt sys)"
proof -
  define sys1 where "sys1 = (if av_realtime cfg
                  then (case drain_realtime (av_rt sys) (av_st sys) of
                          (rq, st) \<Rightarrow> sys\<lparr>av_rt := rq, av_st := st, av_results := discard_backlog (av_results sys)\<rparr>)
                  else sys)"
  have it': "av_iteration cfg cycle paste blend now tnow sys =
     (case get_nowait (av_results sys1) of
        Inl _ \<Rightarrow> Inr sys1
      | Inr (res, q) \<Rightarrow>
          (case av_render cfg cycle paste blend now tnow res (av_st sys1) (av_cs sys1) of
             Inl e \<Rightarrow> Inl e
           | Inr (st', cs') \<Rightarrow> Inr (sys1\<lparr>av_results := q, av_st := st', av_cs := cs'\<rparr>)))"
    unfolding av_iteration_def Let_def sys1_def by (rule refl)
  have s1: "av_results sys1 = discard_backlog (av_results sys)" "qitems (av_rt sys1) = []"
    "av_audio (av_st sys1) = av_audio (av_st sys) @ qitems (av_rt sys)"
    by (simp_all add: sys1_def rt drain_realtime_def)
  have short: "length (qitems (av_results sys1)) \<le> 1"
    by (simp add: s1 discard_backlog_eq qsize_def)
  show ?thesis
  proof (cases "qitems (av_results sys1)")
    case Nil
    then have "sys' = sys1" using it unfolding it' by (simp add: get_nowait_def)
    with Nil s1 show ?thesis by simp
  next
    case (Cons r rest)
    with short have rest: "rest = []" by simp
    obtain f idx afs where r: "r = (f, idx, afs)" by (cases r) auto
    have g: "get_nowait (av_results sys1) = Inr (r, (av_results sys1)\<lparr>qitems := []\<rparr>)"
      using Cons rest by (simp add: get_nowait_def)
    obtain st' cs' where
      rd: "av_render cfg cycle paste blend now tnow r (av_st sys1) (av_cs sys1) = Inr (st', cs')"
      and sys': "sys' = sys1\<lparr>av_results := (av_results sys1)\<lparr>qitems := []\<rparr>, av_st := st', av_cs := cs'\<rparr>"
      using it unfolding it' g
      by (cases "av_render cfg cycle paste blend now tnow r (av_st sys1) (av_cs sys1)") (auto split: prod.splits)
    have "av_audio st' = av_audio (av_st sys1)"
      using av_render_realtime_audio [OF rt rd [unfolded r]] .
    then show ?thesis unfolding sys' using s1 by simp
  qed
qed

text \<open>
  The environment can only set the hangover and the fade to 0..2 s and the log
  cooldown to 0..5 s, and the virtual-camera audio queue keeps at least 2 and fewer than
  its at least 8 slots.
\<close>

theorem av_config_bounds:
  "0 \<le> av_hangover_sec (av_config_of fps rt env) \<and> av_hangover_sec (av_config_of fps rt env) \<le> 2 \<and>
   0 \<le> av_transition_sec (av_config_of fps rt env) \<and> av_transition_sec (av_config_of fps rt env) \<le> 2 \<and>
   0 \<le> av_log_cooldown_sec (av_config_of fps rt env) \<and> av_log_cooldown_sec (av_config_of fps rt env) \<le> 5 \<and>
   8 \<le> av_vcam_qmax (av_config_of fps rt env) \<and> 2 \<le> av_vcam_keep (av_config_of fps rt env) \<and>
   av_vcam_keep (av_config_of fps rt env) < av_vcam_qmax (av_config_of fps rt env)"
proof -
  define qsec where "qsec = clamp (1 / 10) 10 (env_float (env_vcam_queue_sec env) (3 / 5))"
  define ksec where "ksec = max (1 / 25) (min qsec (env_float (env_vcam_keep_sec env) (1 / 5)))"
  define qmax where "qmax = max 8 (nat (py_round (qsec * of_nat fps)))"
  define keep where "keep = max 2 (min (qmax - 1) (nat (py_round (ksec * of_nat fps))))"
  have c: "av_hangover_sec (av_config_of fps rt env) = clamp 0 2 (env_float (env_hangover_sec env) (7 / 20))"
    "av_transition_sec (av_config_of fps rt env) = clamp 0 2 (env_float (env_transition_sec env) (4 / 25))"
    "av_log_cooldown_sec (av_config_of fps rt env) = clamp 0 5 (env_float (env_log_cooldown_sec env) (2 / 5))"
    "av_vcam_qmax (av_config_of fps rt env) = qmax" "av_vcam_keep (av_config_of fps rt env) = keep"
    unfolding av_config_of_def Let_def qsec_def ksec_def qmax_def keep_def
    by (simp_all only: av_config.select_convs)
  have q: "8 \<le> qmax" by (simp add: qmax_def)
  have k: "2 \<le> keep \<and> keep < qmax" using q by (simp add: keep_def)
  show ?thesis using c q k clamp_bounds [of 0 2] clamp_bounds [of 0 5] by simp
qed

subsection \<open>Witnesses\<close>

lemmas av_eval = av_loop.simps av_iteration_def av_render_def av_frame_def av_emit_def av_classify_def
  raw_silence_def idle_target_def fading_def fade_alpha_def get_nowait_def load_custom_def Let_def
  drain_realtime_def of_rat_divide

theorem silence_never_speaks_witness:
  "let cfg = \<lparr>av_transition = True, av_transition_sec = 4 / 25, av_hangover_sec = 7 / 20,
              av_log_cooldown_sec = 2 / 5, av_realtime = False, av_vcam_qmax = 12, av_vcam_keep = 4\<rparr>;
       sys = \<lparr>av_results = \<lparr>qitems = [(None, 0, [([0], 1, None), ([0], 1, None)]),
                                     (None, 1, [([0], 1, None), ([0], 1, None)])], qmax = 2\<rparr>,
              av_rt = mk_queue 100, av_st = av_init 0, av_cs = load_custom []\<rparr>
              :: (int, int, int, int) av_sys
   in \<exists>sys'. av_loop cfg [7, 8] (\<lambda>f i. f) (\<lambda>a b x. if x < 1 / 2 then a else b) [(10, 10), (11, 11)] sys = Inr sys' \<and>
        \<not> av_speaking (av_st sys')"
proof -
  let ?cfg = "\<lparr>av_transition = True, av_transition_sec = 4 / 25, av_hangover_sec = 7 / 20,
              av_log_cooldown_sec = 2 / 5, av_realtime = False, av_vcam_qmax = 12, av_vcam_keep = 4\<rparr>"
  let ?sys = "\<lparr>av_results = \<lparr>qitems = [(None, 0, [([0], 1, None), ([0], 1, None)]),
                                     (None, 1, [([0], 1, None), ([0], 1, None)])], qmax = 2\<rparr>,
              av_rt = mk_queue 100, av_st = av_init 0, av_cs = load_custom []\<rparr>
              :: (int, int, int, int) av_sys"
  let ?blend = "\<lambda>a b (x::real). if x < 1 / 2 then a else (b::int)"
  have "\<exists>sys'. av_loop ?cfg [7, 8] (\<lambda>f i. f) ?blend [(10, 10), (11, 11)] ?sys = Inr sys'"
    by (simp add: av_eval av_init_def)
  then obtain sys' where r: "av_loop ?cfg [7, 8] (\<lambda>f i. f) ?blend [(10, 10), (11, 11)] ?sys = Inr sys'"
    by blast
  have "\<not> av_speaking (av_st sys')"
    by (rule silence_never_speaks [OF _ _ _ r]) (simp_all add: raw_silence_def av_init_def of_rat_divide)
  with r show ?thesis unfolding Let_def by blast
qed


theorem hangover_keeps_speaking_witness:
  "let cfg = \<lparr>av_transition = True, av_transition_sec = 4 / 25, av_hangover_sec = 7 / 20,
              av_log_cooldown_sec = 2 / 5, av_realtime = False, av_vcam_qmax = 12, av_vcam_keep = 4\<rparr>;
       sys = \<lparr>av_results = \<lparr>qitems = [(Some 9, 0, [([5], 0, Some 3), ([6], 0, None)]), (None, 1, [([0], 1, None), ([0], 1, None)])], qmax = 2\<rparr>,
              av_rt = mk_queue 100, av_st = av_init 0, av_cs = load_custom []\<rparr>
              :: (int, int, int, int) av_sys
   in \<exists>sys'. av_loop cfg [7, 8] (\<lambda>f i. f) (\<lambda>a b (x::real). if x < 1 / 2 then a else (b::int)) [(10, 10), (51 / 5, 51 / 5)] sys = Inr sys' \<and>
        av_speaking (av_st sys') \<and> av_last_voice_ts (av_st sys') = 10"
proof -
  let ?cfg = "\<lparr>av_transition = True, av_transition_sec = 4 / 25, av_hangover_sec = 7 / 20,
              av_log_cooldown_sec = 2 / 5, av_realtime = False, av_vcam_qmax = 12, av_vcam_keep = 4\<rparr>"
  let ?sys = "\<lparr>av_results = \<lparr>qitems = [(Some 9, 0, [([5], 0, Some 3), ([6], 0, None)]), (None, 1, [([0], 1, None), ([0], 1, None)])], qmax = 2\<rparr>,
              av_rt = mk_queue 100, av_st = av_init 0, av_cs = load_custom []\<rparr>
              :: (int, int, int, int) av_sys"
  have "\<exists>sys'. av_loop ?cfg [7, 8] (\<lambda>f i. f) (\<lambda>a b (x::real). if x < 1 / 2 then a else (b::int)) [(10, 10), (51 / 5, 51 / 5)] ?sys = Inr sys'"
    by (simp add: av_eval av_init_def)
  then obtain sys' where r: "av_loop ?cfg [7, 8] (\<lambda>f i. f) (\<lambda>a b (x::real). if x < 1 / 2 then a else (b::int)) [(10, 10), (51 / 5, 51 / 5)] ?sys = Inr sys'"
    by blast
  have "av_speaking (av_st sys') \<and> av_last_voice_ts (av_st sys') = 10"
  proof -
    have q: "qitems (av_results ?sys) = (Some 9, 0, [([5], 0, Some 3), ([6], 0, None)]) # [(None, 1, [([0], 1, None), ([0], 1, None)])]"
      by simp
    show ?thesis
      by (rule hangover_keeps_speaking [OF _ q _ _ _ r]) (simp_all add: raw_silence_def of_rat_divide)
  qed
  with r show ?thesis unfolding Let_def by blast
qed

theorem av_render_lockstep_witness:
  "\<not> av_realtime (\<lparr>av_transition = True, av_transition_sec = 4 / 25, av_hangover_sec = 7 / 20,
              av_log_cooldown_sec = 2 / 5, av_realtime = False, av_vcam_qmax = 12, av_vcam_keep = 4\<rparr>) \<and>
   av_render (\<lparr>av_transition = True, av_transition_sec = 4 / 25, av_hangover_sec = 7 / 20,
              av_log_cooldown_sec = 2 / 5, av_realtime = False, av_vcam_qmax = 12, av_vcam_keep = 4\<rparr>) [7, 8] (\<lambda>f i. f) (\<lambda>a b (x::real). if x < 1 / 2 then a else (b::int)) 10 10 (Some 9, 1, [([5], 0, Some 3), ([6], 0, None)]) (av_init 0 :: (int, int, int) av_state)
     (load_custom [] :: (int, int) custom_state) =
   Inr ((av_init 0)\<lparr>av_last_voice_ts := 10, av_speaking := True, av_last_speaking := True,
          av_transition_start := 10, av_last_switch_log_ts := 10, av_last_speaking_frame := Some 9,
          av_video := [9], av_audio := [([5], 0, Some 3), ([6], 0, None)]\<rparr>, load_custom []) \<and>
   ((\<exists>img. [9::int] = [] @ [img] \<and> [([5], 0, Some 3), ([6], 0, None)] = [] @ [([5], 0, Some 3), ([6], 0, None)]) \<or>
    ([9::int] = [] \<and> [([5], 0, Some 3), ([6], 0, None)] = ([] :: (int, int) audio_entry list) \<and>
     raw_silence [([5], 0, Some 3), ([6], 0, None)] = Inr False \<and> (\<lambda>f (i::nat). f) (Some (9::int)) 1 = None))"
proof -
  have r: "av_render (\<lparr>av_transition = True, av_transition_sec = 4 / 25, av_hangover_sec = 7 / 20,
              av_log_cooldown_sec = 2 / 5, av_realtime = False, av_vcam_qmax = 12, av_vcam_keep = 4\<rparr>) [7, 8] (\<lambda>f i. f) (\<lambda>a b (x::real). if x < 1 / 2 then a else (b::int)) 10 10 (Some 9, 1, [([5], 0, Some 3), ([6], 0, None)]) (av_init 0 :: (int, int, int) av_state)
     (load_custom [] :: (int, int) custom_state) =
   Inr ((av_init 0)\<lparr>av_last_voice_ts := 10, av_speaking := True, av_last_speaking := True,
          av_transition_start := 10, av_last_switch_log_ts := 10, av_last_speaking_frame := Some 9,
          av_video := [9], av_audio := [([5], 0, Some 3), ([6], 0, None)]\<rparr>, load_custom [])"
    by (simp add: av_eval av_init_def)
  from av_render_lockstep [OF _ r] r show ?thesis by (simp add: av_init_def)
qed

theorem paste_failure_drops_pair_witness:
  "\<exists>st'. av_render (\<lparr>av_transition = True, av_transition_sec = 4 / 25, av_hangover_sec = 7 / 20,
              av_log_cooldown_sec = 2 / 5, av_realtime = False, av_vcam_qmax = 12, av_vcam_keep = 4\<rparr>) [7, 8] (\<lambda>(f::int option) (i::nat). None :: int option) (\<lambda>a b (x::real). if x < 1 / 2 then a else (b::int)) 10 10
     (Some 9, 1, [([5], 0, Some 3), ([6], 0, None)]) (av_init 0 :: (int, int, int) av_state)
     (load_custom [] :: (int, int) custom_state) = Inr (st', load_custom []) \<and>
     av_video st' = [] \<and> av_audio st' = [] \<and> av_speaking st'"
  using paste_failure_drops_pair [where afs = "[([5], 0, Some 3), ([6], 0, None)]"
      and paste = "\<lambda>(f::int option) (i::nat). None :: int option" and f = "Some 9" and idx = 1
      and cfg = "\<lparr>av_transition = True, av_transition_sec = 4 / 25, av_hangover_sec = 7 / 20,
              av_log_cooldown_sec = 2 / 5, av_realtime = False, av_vcam_qmax = 12, av_vcam_keep = 4\<rparr>" and cycle = "[7, 8]" and blend = "(\<lambda>a b (x::real). if x < 1 / 2 then a else (b::int))" and now = 10 and tnow = 10
      and st = "av_init 0 :: (int, int, int) av_state" and cs = "load_custom [] :: (int, int) custom_state"]
  by (simp add: raw_silence_def av_init_def)

theorem gap_holds_speaking_frame_witness:
  "\<exists>st'. av_render (\<lparr>av_transition = True, av_transition_sec = 4 / 25, av_hangover_sec = 7 / 20,
              av_log_cooldown_sec = 2 / 5, av_realtime = False, av_vcam_qmax = 12, av_vcam_keep = 4\<rparr>) [7, 8] (\<lambda>f i. f) (\<lambda>a b (x::real). if x < 1 / 2 then a else (b::int)) 10 10 (None, 1, [([0], 1, None), ([0], 1, None)])
     ((av_init 0)\<lparr>av_last_voice_ts := 99 / 10, av_last_speaking_frame := Some 5\<rparr> :: (int, int, int) av_state)
     (load_custom [] :: (int, int) custom_state) = Inr (st', load_custom []) \<and>
     av_video st' = [] @ [5] \<and> av_speaking st'"
  using gap_holds_speaking_frame [of "[([0], 1, None), ([0], 1, None)]" 10
      "(av_init 0)\<lparr>av_last_voice_ts := 99 / 10, av_last_speaking_frame := Some 5\<rparr> :: (int, int, int) av_state"
      "\<lparr>av_transition = True, av_transition_sec = 4 / 25, av_hangover_sec = 7 / 20,
              av_log_cooldown_sec = 2 / 5, av_realtime = False, av_vcam_qmax = 12, av_vcam_keep = 4\<rparr>" 5 "[7, 8]" "\<lambda>f i. f" "(\<lambda>a b (x::real). if x < 1 / 2 then a else (b::int))" 10 None 1 "load_custom [] :: (int, int) custom_state"]
  by (simp add: raw_silence_def av_init_def of_rat_divide)

theorem fade_to_idle_witness:
  "\<exists>st'. av_render (\<lparr>av_transition = True, av_transition_sec = 4 / 25, av_hangover_sec = 7 / 20,
              av_log_cooldown_sec = 2 / 5, av_realtime = False, av_vcam_qmax = 12, av_vcam_keep = 4\<rparr>) [7, 8] (\<lambda>f i. f) (\<lambda>a b (x::real). if x < 1 / 2 then a else (b::int)) 10 (1001 / 100) (None, 1, [([0], 1, None), ([0], 1, None)])
     ((av_init 0)\<lparr>av_last_voice_ts := 9, av_last_speaking := True, av_speaking := True,
        av_last_speaking_frame := Some 5\<rparr> :: (int, int, int) av_state)
     (load_custom [] :: (int, int) custom_state) = Inr (st', load_custom []) \<and>
     av_video st' = [5] \<and> \<not> av_speaking st' \<and> av_transition_start st' = 10"
  using fade_to_idle [where afs = "[([0], 1, None), ([0], 1, None)]" and t = 1
      and st = "(av_init 0)\<lparr>av_last_voice_ts := 9, av_last_speaking := True, av_speaking := True,
        av_last_speaking_frame := Some 5\<rparr> :: (int, int, int) av_state"
      and cfg = "\<lparr>av_transition = True, av_transition_sec = 4 / 25, av_hangover_sec = 7 / 20,
              av_log_cooldown_sec = 2 / 5, av_realtime = False, av_vcam_qmax = 12, av_vcam_keep = 4\<rparr>" and now = 10 and fr = 5 and cs = "load_custom [] :: (int, int) custom_state"
      and idx = 1 and cycle = "[7, 8]" and tnow = "1001 / 100" and paste = "\<lambda>f (i::nat). f :: int option"
      and blend = "(\<lambda>a b (x::real). if x < 1 / 2 then a else (b::int))" and f = None]
  by (simp add: raw_silence_def av_init_def of_rat_divide load_custom_def)

theorem realtime_no_backlog_witness:
  "let sys = \<lparr>av_results = \<lparr>qitems = [(None, 0, [([0], 1, None), ([0], 1, None)]), (Some 9, 1, [([5], 0, Some 3), ([6], 0, None)])], qmax = 2\<rparr>,
              av_rt = \<lparr>qitems = [([4], 0, None)], qmax = 100\<rparr>, av_st = av_init 0, av_cs = load_custom []\<rparr>
              :: (int, int, int, int) av_sys
   in \<exists>sys'. av_iteration (\<lparr>av_transition = True, av_transition_sec = 4 / 25, av_hangover_sec = 7 / 20,
              av_log_cooldown_sec = 2 / 5, av_realtime = True, av_vcam_qmax = 12, av_vcam_keep = 4\<rparr>) [7, 8] (\<lambda>f i. f) (\<lambda>a b (x::real). if x < 1 / 2 then a else (b::int)) 10 10 sys = Inr sys' \<and>
        qitems (av_results sys') = [] \<and> qitems (av_rt sys') = [] \<and>
        av_audio (av_st sys') = av_audio (av_st sys) @ qitems (av_rt sys) \<and> av_video (av_st sys') = [9]"
proof -
  let ?sys = "\<lparr>av_results = \<lparr>qitems = [(None, 0, [([0], 1, None), ([0], 1, None)]), (Some 9, 1, [([5], 0, Some 3), ([6], 0, None)])], qmax = 2\<rparr>,
              av_rt = \<lparr>qitems = [([4], 0, None)], qmax = 100\<rparr>, av_st = av_init 0, av_cs = load_custom []\<rparr>
              :: (int, int, int, int) av_sys"
  have "\<exists>sys'. av_iteration (\<lparr>av_transition = True, av_transition_sec = 4 / 25, av_hangover_sec = 7 / 20,
              av_log_cooldown_sec = 2 / 5, av_realtime = True, av_vcam_qmax = 12, av_vcam_keep = 4\<rparr>) [7, 8] (\<lambda>f i. f) (\<lambda>a b (x::real). if x < 1 / 2 then a else (b::int)) 10 10 ?sys = Inr sys' \<and> av_video (av_st sys') = [9]"
    by (simp add: av_eval av_init_def discard_backlog_eq qsize_def)
  then obtain sys' where r: "av_iteration (\<lparr>av_transition = True, av_transition_sec = 4 / 25, av_hangover_sec = 7 / 20,
              av_log_cooldown_sec = 2 / 5, av_realtime = True, av_vcam_qmax = 12, av_vcam_keep = 4\<rparr>) [7, 8] (\<lambda>f i. f) (\<lambda>a b (x::real). if x < 1 / 2 then a else (b::int)) 10 10 ?sys = Inr sys'"
    and v: "av_video (av_st sys') = [9]" by blast
  show ?thesis unfolding Let_def using realtime_no_backlog [OF _ r] r v by simp
qed

end
