(* ===== verification/SpeechSegments.thy ===== *)
theory SpeechSegments
  imports Prelude
begin

text \<open>
  Speech segmentation: \<open>SpeakerDispatcher._split_text_for_speech\<close> in
  \<open>src/apps/control_api/speaker_dispatcher.py\<close>.  A text longer than
  \<open>max_chars\<close> code points is cut into segments of at most \<open>max_chars\<close>: the
  character loop fills a buffer and, once it is full, cuts it after the last break
  character if that lies at least \<open>soft_min_chars\<close> in, else at \<open>max_chars\<close>.
  Segments are stripped and empty ones dropped.  The theorems show that the segments of a
  long text are the stripped pieces of a cut of the text into consecutive pieces (a round
  trip up to whitespace at the cuts) and that every segment is non-empty and within the
  bound.
\<close>

subsection \<open>Speech segmentation\<close>

text \<open>The break characters of \<open>punct\<close> as code points: the ideographic full stop
  U+3002, the fullwidth \<open>! ? ; ,\<close> (U+FF01, U+FF1F, U+FF1B, U+FF0C), their ASCII forms and
  the newline.\<close>

definition speech_punct :: "nat list" where
  "speech_punct = [12290, 65281, 65311, 33, 63, 65307, 59, 65292, 44, 10]"

text \<open>
  \<open>for idx, rem_ch in enumerate(buf, start=1): if rem_ch in punct: last_break_idx = idx\<close>
  with \<open>last_break_idx = -1\<close> before.
\<close>

fun last_break_from :: "nat \<Rightarrow> int \<Rightarrow> ustr \<Rightarrow> int" where
  "last_break_from i lb [] = lb"
| "last_break_from i lb (c # cs) =
     last_break_from (Suc i) (if c \<in> set speech_punct then int i else lb) cs"

text \<open>One pass of the character loop of \<open>_split_text_for_speech\<close>; the state is
  \<open>(chunks, buf, last_break_idx)\<close>.\<close>

definition split_step :: "int \<Rightarrow> int \<Rightarrow> nat \<Rightarrow> ustr list \<times> ustr \<times> int \<Rightarrow> ustr list \<times> ustr \<times> int" where
  "split_step max_chars soft_min ch st =
     (case st of (chunks, buf0, lb0) \<Rightarrow>
       let buf = buf0 @ [ch];
           lb = (if ch \<in> set speech_punct then int (length buf) else lb0)
       in if int (length buf) < max_chars then (chunks, buf, lb)
          else
            let split_at = (if soft_min \<le> lb then lb else max_chars);
                chunk = py_strip (take (nat split_at) buf);
                chunks' = (if chunk \<noteq> [] then chunks @ [chunk] else chunks);
                rest = drop (nat split_at) buf
            in (chunks', rest, last_break_from 1 (-1) rest))"

definition split_text_for_speech :: "ustr \<Rightarrow> int \<Rightarrow> ustr list" where
  "split_text_for_speech text max_chars =
     (if max_chars \<le> 0 \<or> int (length text) \<le> max_chars then (if text \<noteq> [] then [text] else [])
      else
        let soft_min = max 20 (max_chars div 3);
            (chunks, buf, _) = fold (split_step max_chars soft_min) text ([], [], -1);
            tail = py_strip buf
        in if tail \<noteq> [] then chunks @ [tail] else chunks)"

subsection \<open>Segmentation lemmas\<close>

lemma split_step_cases:
  fixes m s lb :: int and buf :: ustr and ch :: nat and chunks :: "ustr list"
  defines "b \<equiv> buf @ [ch]"
  defines "l \<equiv> (if ch \<in> set speech_punct then int (length b) else lb)"
  defines "k \<equiv> nat (if s \<le> l then l else m)"
  shows "split_step m s ch (chunks, buf, lb) =
           (if int (length b) < m then (chunks, b, l)
            else (if py_strip (take k b) \<noteq> [] then chunks @ [py_strip (take k b)] else chunks,
                  drop k b, last_break_from 1 (-1) (drop k b)))"
  unfolding split_step_def b_def l_def k_def Let_def
  by (simp only: prod.case)

text \<open>One pass of the loop cuts zero or one piece off the front of the buffer; the new
  segment, if any, is that piece stripped.\<close>

lemma split_step_pieces:
  "split_step m s ch (chunks, buf, lb) = (chunks', buf', lb') \<Longrightarrow>
   \<exists>qs. buf @ [ch] = concat qs @ buf' \<and> chunks' = chunks @ filter (\<lambda>c. c \<noteq> []) (map py_strip qs)"
proof -
  assume st: "split_step m s ch (chunks, buf, lb) = (chunks', buf', lb')"
  define b where "b = buf @ [ch]"
  define l where "l = (if ch \<in> set speech_punct then int (length b) else lb)"
  define k where "k = nat (if s \<le> l then l else m)"
  note e = split_step_cases [where buf = buf and ch = ch and lb = lb and s = s and m = m and chunks = chunks,
      folded b_def, folded l_def, folded k_def]
  show ?thesis
  proof (cases "int (length b) < m")
    case True
    then show ?thesis using st e by (intro exI [of _ "[]"]) (simp add: b_def)
  next
    case False
    then have "chunks' = (if py_strip (take k b) \<noteq> [] then chunks @ [py_strip (take k b)] else chunks)"
      and "buf' = drop k b"
      using st e by simp_all
    then show ?thesis by (intro exI [of _ "[take k b]"]) (simp add: b_def [symmetric])
  qed
qed

lemma fold_split_pieces:
  "fold (split_step m s) xs (chunks, buf, lb) = (chunks', buf', lb') \<Longrightarrow>
   \<exists>qs. buf @ xs = concat qs @ buf' \<and> chunks' = chunks @ filter (\<lambda>c. c \<noteq> []) (map py_strip qs)"
proof (induction xs arbitrary: chunks buf lb)
  case Nil
  then show ?case by (intro exI [of _ "[]"]) simp
next
  case (Cons x xs)
  obtain c1 b1 l1 where s1: "split_step m s x (chunks, buf, lb) = (c1, b1, l1)"
    by (cases "split_step m s x (chunks, buf, lb)") auto
  obtain q1 where q1: "buf @ [x] = concat q1 @ b1" "c1 = chunks @ filter (\<lambda>c. c \<noteq> []) (map py_strip q1)"
    using split_step_pieces [OF s1] by blast
  have "fold (split_step m s) xs (c1, b1, l1) = (chunks', buf', lb')"
    using Cons.prems s1 by simp
  then obtain q2 where q2: "b1 @ xs = concat q2 @ buf'" "chunks' = c1 @ filter (\<lambda>c. c \<noteq> []) (map py_strip q2)"
    using Cons.IH by blast
  have "buf @ x # xs = concat (q1 @ q2) @ buf'"
    using q1(1) q2(1) by (metis append.assoc append_Cons append_Nil concat_append)
  then show ?case using q1(2) q2(2) by (intro exI [of _ "q1 @ q2"]) simp
qed

lemma split_step_bounded:
  assumes st: "split_step m s ch (chunks, buf, lb) = (chunks', buf', lb')"
    and s: "0 < s" and m: "0 < m" and b: "int (length buf) < m"
    and cs: "\<forall>c\<in>set chunks. c \<noteq> [] \<and> int (length c) \<le> m"
  shows "int (length buf') < m \<and> (\<forall>c\<in>set chunks'. c \<noteq> [] \<and> int (length c) \<le> m)"
proof -
  define bb where "bb = buf @ [ch]"
  define l where "l = (if ch \<in> set speech_punct then int (length bb) else lb)"
  define k where "k = nat (if s \<le> l then l else m)"
  note e = split_step_cases [where buf = buf and ch = ch and lb = lb and s = s and m = m and chunks = chunks,
      folded bb_def, folded l_def, folded k_def]
  have lb: "int (length bb) \<le> m" using b by (simp add: bb_def)
  show ?thesis
  proof (cases "int (length bb) < m")
    case True
    then show ?thesis using st e cs by simp
  next
    case False
    then have c: "chunks' = (if py_strip (take k bb) \<noteq> [] then chunks @ [py_strip (take k bb)] else chunks)"
      and r: "buf' = drop k bb"
      using st e by simp_all
    have k1: "1 \<le> k" using s m unfolding k_def by auto
    have "int (length (py_strip (take k bb))) \<le> m"
      using length_strip_by [of py_isspace "take k bb"] lb unfolding py_strip_def by simp
    moreover have "int (length buf') < m" using r k1 lb m by (simp split: nat_diff_split)
    ultimately show ?thesis using c cs by auto
  qed
qed

lemma fold_split_bounded:
  "fold (split_step m s) xs (chunks, buf, lb) = (chunks', buf', lb') \<Longrightarrow> 0 < s \<Longrightarrow> 0 < m \<Longrightarrow>
   int (length buf) < m \<Longrightarrow> \<forall>c\<in>set chunks. c \<noteq> [] \<and> int (length c) \<le> m \<Longrightarrow>
   int (length buf') < m \<and> (\<forall>c\<in>set chunks'. c \<noteq> [] \<and> int (length c) \<le> m)"
proof (induction xs arbitrary: chunks buf lb)
  case Nil
  then show ?case by simp
next
  case (Cons x xs)
  obtain c1 b1 l1 where s1: "split_step m s x (chunks, buf, lb) = (c1, b1, l1)"
    by (cases "split_step m s x (chunks, buf, lb)") auto
  have h: "int (length b1) < m \<and> (\<forall>c\<in>set c1. c \<noteq> [] \<and> int (length c) \<le> m)"
    using split_step_bounded [OF s1] Cons.prems(2-5) by blast
  have "fold (split_step m s) xs (c1, b1, l1) = (chunks', buf', lb')"
    using Cons.prems(1) s1 by simp
  then show ?case using Cons.IH h Cons.prems(2,3) by blast
qed

lemma split_step_chunks:
  "split_step m s ch (chunks, buf, lb) = (chunks', buf', lb') \<Longrightarrow>
   \<exists>extra. chunks' = chunks @ extra \<and> (\<forall>c\<in>set extra. c \<noteq> [] \<and> py_strip c = c)"
  using split_step_cases [where buf = buf and ch = ch and lb = lb and s = s and m = m and chunks = chunks]
  by (auto simp: py_strip_def split: if_splits)

lemma fold_split_chunks:
  "fold (split_step m s) xs (chunks, buf, lb) = (chunks', buf', lb') \<Longrightarrow>
   \<exists>extra. chunks' = chunks @ extra \<and> (\<forall>c\<in>set extra. c \<noteq> [] \<and> py_strip c = c)"
proof (induction xs arbitrary: chunks buf lb)
  case Nil
  then show ?case by simp
next
  case (Cons x xs)
  obtain c1 b1 l1 where s1: "split_step m s x (chunks, buf, lb) = (c1, b1, l1)"
    by (cases "split_step m s x (chunks, buf, lb)") auto
  obtain e1 where e1: "c1 = chunks @ e1" "\<forall>c\<in>set e1. c \<noteq> [] \<and> py_strip c = c"
    using split_step_chunks [OF s1] by blast
  have "fold (split_step m s) xs (c1, b1, l1) = (chunks', buf', lb')"
    using Cons.prems s1 by simp
  then obtain e2 where e2: "chunks' = c1 @ e2" "\<forall>c\<in>set e2. c \<noteq> [] \<and> py_strip c = c"
    using Cons.IH by blast
  show ?case using e1 e2 by (intro exI [of _ "e1 @ e2"]) auto
qed

text \<open>Every segment after the first is non-empty and already stripped.\<close>

lemma split_tail_stripped:
  "c \<in> set (tl (split_text_for_speech text m)) \<Longrightarrow> c \<noteq> [] \<and> py_strip c = c"
proof (cases "m \<le> 0 \<or> int (length text) \<le> m")
  case True
  then show "c \<in> set (tl (split_text_for_speech text m)) \<Longrightarrow> ?thesis"
    by (simp add: split_text_for_speech_def split: if_splits)
next
  case False
  assume c: "c \<in> set (tl (split_text_for_speech text m))"
  obtain chunks buf lb where f: "fold (split_step m (max 20 (m div 3))) text ([], [], -1) = (chunks, buf, lb)"
    by (cases "fold (split_step m (max 20 (m div 3))) text ([], [], -1)") auto
  have ch: "\<forall>c\<in>set chunks. c \<noteq> [] \<and> py_strip c = c"
    using fold_split_chunks [OF f] by auto
  have "split_text_for_speech text m = (if py_strip buf \<noteq> [] then chunks @ [py_strip buf] else chunks)"
    using False f by (simp add: split_text_for_speech_def Let_def)
  moreover have "c \<in> set (split_text_for_speech text m)"
    using c by (cases "split_text_for_speech text m") auto
  ultimately have "c \<in> set chunks \<or> c = py_strip buf \<and> py_strip buf \<noteq> []"
    by (auto split: if_splits)
  then show ?thesis using ch by (auto simp: py_strip_def)
qed

subsection \<open>Properties\<close>

text \<open>C20: segmentation of a long text is a cut of the text into consecutive pieces: the
  segments are exactly the pieces, stripped, with the pieces that strip to nothing left out.
  Only whitespace at the ends of the pieces is lost; nothing inside a piece changes.\<close>

theorem split_cuts_text:
  assumes m: "0 < m" and long: "m < int (length text)"
  shows "\<exists>ps. concat ps = text \<and> split_text_for_speech text m = filter (\<lambda>c. c \<noteq> []) (map py_strip ps)"
proof -
  obtain chunks buf lb where f: "fold (split_step m (max 20 (m div 3))) text ([], [], -1) = (chunks, buf, lb)"
    by (cases "fold (split_step m (max 20 (m div 3))) text ([], [], -1)") auto
  obtain qs where qs: "text = concat qs @ buf" "chunks = filter (\<lambda>c. c \<noteq> []) (map py_strip qs)"
    using fold_split_pieces [OF f] by auto
  have "split_text_for_speech text m = (if py_strip buf \<noteq> [] then chunks @ [py_strip buf] else chunks)"
    using m long f by (simp add: split_text_for_speech_def Let_def)
  then show ?thesis using qs by (intro exI [of _ "qs @ [buf]"]) simp
qed

text \<open>C35: every segment is non-empty and at most \<open>max_chars\<close> code points long.\<close>

theorem split_segments_bounded:
  "0 < m \<Longrightarrow> c \<in> set (split_text_for_speech text m) \<Longrightarrow> c \<noteq> [] \<and> int (length c) \<le> m"
proof (cases "int (length text) \<le> m")
  case True
  then show "c \<in> set (split_text_for_speech text m) \<Longrightarrow> ?thesis"
    by (simp add: split_text_for_speech_def split: if_splits)
next
  case False
  assume m: "0 < m" and c: "c \<in> set (split_text_for_speech text m)"
  obtain chunks buf lb where f: "fold (split_step m (max 20 (m div 3))) text ([], [], -1) = (chunks, buf, lb)"
    by (cases "fold (split_step m (max 20 (m div 3))) text ([], [], -1)") auto
  have inv: "int (length buf) < m \<and> (\<forall>c\<in>set chunks. c \<noteq> [] \<and> int (length c) \<le> m)"
    using fold_split_bounded [OF f] m by simp
  have "split_text_for_speech text m = (if py_strip buf \<noteq> [] then chunks @ [py_strip buf] else chunks)"
    using False m f by (simp add: split_text_for_speech_def Let_def)
  moreover have "int (length (py_strip buf)) \<le> m"
    using inv length_strip_by [of py_isspace buf] unfolding py_strip_def by simp
  ultimately show ?thesis using c inv by (auto split: if_splits)
qed


subsection \<open>Witnesses\<close>

theorem split_cuts_text_witness:
  "\<exists>ps. concat ps = [65, 32, 66] \<and> split_text_for_speech [65, 32, 66] 2 = filter (\<lambda>c. c \<noteq> []) (map py_strip ps)"
  by (rule split_cuts_text) simp_all

theorem split_segments_bounded_witness:
  "split_text_for_speech [65, 66] 1 = [[65], [66]] \<and> [66::nat] \<noteq> [] \<and> int (length [66::nat]) \<le> 1"
proof -
  have s: "split_text_for_speech [65, 66] 1 = [[65], [66]]"
    by (simp add: split_text_for_speech_def split_step_def speech_punct_def py_strip_def strip_by_def
                  py_isspace_def)
  have "[66::nat] \<noteq> [] \<and> int (length [66::nat]) \<le> 1"
    by (rule split_segments_bounded [of 1 "[66]" "[65, 66]"]) (simp_all add: s)
  with s show ?thesis by simp
qed


end
