(* ===== verification/Dispatcher.thy ===== *)
theory Dispatcher
  imports SpeechSegments "HOL-Library.Multiset" "HOL-Library.Product_Lexorder"
begin

text \<open>
  SpeakerDispatcher: \<open>src/apps/control_api/speaker_dispatcher.py\<close>.  Reply, manual
  and playlist texts are cut into speech segments of at most \<open>segment_max_chars\<close>
  code points; the first segment becomes a \<open>SpeakTask\<close> in a priority queue, the
  others ride in its \<open>meta["pending_segments"]\<close> and are queued one at a time after
  each successful dispatch.  One iteration of the background loop resolves the live
  endpoint from the live process's command line, picks a task (interrupts first while
  the avatar speaks, follow-up segments as prefetch, otherwise the queue head once the
  dispatch guard has elapsed, or a playlist script when the queue is empty), posts it to
  \<open>/human\<close> and on failure retries it at the head of the queue up to three times.

  The HTTP calls \<open>/is_speaking\<close> and \<open>/human\<close> are inputs of the loop iteration
  (the answer, or \<open>None\<close> for a raised error); the SQLite rows the dispatcher
  reads (playlists, playlist items, pending replies) are arguments; the rows it writes
  (reply status, audit events) are fields of the state.  \<open>uuid4().hex\<close> is an
  argument \<open>uid\<close>; \<open>random.choices\<close> is the index it draws.
\<close>

subsection \<open>Tasks and configuration\<close>

text \<open>
  The keys of \<open>SpeakTask.meta\<close> that steer dispatch.  A missing key reads as the
  code's default: \<open>reply_id\<close> as \<open>""\<close> (\<open>str(meta.get("reply_id") or "")\<close>),
  \<open>pending_segments\<close> as the empty list, \<open>retries\<close> as 0.  The playlist keys and
  \<open>segment_group_id\<close> are only logged and are not modelled.
\<close>

record task_meta =
  meta_reply_id :: string
  meta_source_trimmed :: bool
  meta_source_chars :: nat
  meta_segment_total :: nat
  meta_segment_index :: nat
  meta_pending :: "ustr list"
  meta_retries :: nat

record speak_task =
  task_id :: string
  task_source :: string
  task_text :: ustr
  task_priority :: int
  task_interrupt :: bool
  task_sequence :: nat
  task_meta :: task_meta

record dispatcher_env =
  denv_segment_max_chars :: "int env_num"
  denv_max_text_chars :: "int env_num"
  denv_guard_sec :: "rat env_num"
  denv_guard_per_char :: "rat env_num"
  denv_musetalk_guard_sec :: "rat env_num"
  denv_musetalk_guard_per_char :: "rat env_num"
  denv_prefetch :: "string option"

record dispatcher_config =
  segment_max_chars :: int
  max_text_chars :: int
  guard_sec :: rat
  guard_per_char :: rat
  musetalk_guard_sec :: rat
  musetalk_guard_per_char :: rat
  prefetch_mode :: string

definition read_env_int :: "int env_num \<Rightarrow> int \<Rightarrow> int \<Rightarrow> int \<Rightarrow> int" where
  "read_env_int v dflt lo hi = max lo (min hi (case v of Num x \<Rightarrow> x | _ \<Rightarrow> dflt))"

definition read_env_float :: "rat env_num \<Rightarrow> rat \<Rightarrow> rat \<Rightarrow> rat \<Rightarrow> rat" where
  "read_env_float v dflt lo hi = max lo (min hi (case v of Num x \<Rightarrow> x | _ \<Rightarrow> dflt))"

definition prefetch_modes :: "string list" where
  "prefetch_modes = [''auto'', ''on'', ''off'', ''1'', ''0'', ''true'', ''false'', ''yes'', ''no'']"

definition dispatcher_config_of :: "dispatcher_env \<Rightarrow> dispatcher_config" where
  "dispatcher_config_of env =
     (let mode = getenv_norm (denv_prefetch env) ''auto''
      in \<lparr>segment_max_chars = read_env_int (denv_segment_max_chars env) 70 40 2000,
          max_text_chars = read_env_int (denv_max_text_chars env) 200000 1000 2000000,
          guard_sec = read_env_float (denv_guard_sec env) (6 / 5) 0 20,
          guard_per_char = read_env_float (denv_guard_per_char env) (1 / 20) 0 1,
          musetalk_guard_sec = read_env_float (denv_musetalk_guard_sec env) 4 0 60,
          musetalk_guard_per_char = read_env_float (denv_musetalk_guard_per_char env) (4 / 25) 0 2,
          prefetch_mode = (if mode \<in> set prefetch_modes then mode else ''auto'')\<rparr>)"

subsection \<open>Building a segmented task\<close>

text \<open>
  \<open>_build_segmented_task\<close>: strip, cut to \<open>max_text_chars\<close>, segment, and make the
  first segment a task whose meta carries the others.  The result is
  \<open>(task, segment_total, source_chars)\<close>.  \<open>meta\<close> of the caller is its
  \<open>reply_id\<close>.
\<close>

text \<open>Lines 307-315: strip, and cut a text longer than \<open>max_text_chars\<close> (flagging it).\<close>

definition normalize_source :: "dispatcher_config \<Rightarrow> ustr \<Rightarrow> bool \<times> ustr" where
  "normalize_source cfg text =
     (let normalized = py_strip text in
      if max_text_chars cfg < int (length normalized)
      then (True, py_rstrip (take (nat (max_text_chars cfg)) normalized))
      else (False, normalized))"

definition build_segmented_task ::
  "dispatcher_config \<Rightarrow> string \<Rightarrow> string \<Rightarrow> string \<Rightarrow> ustr \<Rightarrow> int \<Rightarrow> bool \<Rightarrow> string
   \<Rightarrow> speak_task option \<times> nat \<times> nat" where
  "build_segmented_task cfg prefix uid source text priority interrupt reply_id =
     (if py_strip text = [] then (None, 0, 0)
      else
        let (trimmed, normalized) = normalize_source cfg text;
            source_chars = length normalized;
            segments = split_text_for_speech normalized (segment_max_chars cfg)
        in if segments = [] then (None, 0, source_chars)
           else (Some \<lparr>task_id = prefix @ ''_'' @ uid, task_source = source, task_text = hd segments,
                       task_priority = max 0 (min 100 priority), task_interrupt = interrupt,
                       task_sequence = 0,
                       task_meta = \<lparr>meta_reply_id = reply_id, meta_source_trimmed = trimmed,
                                    meta_source_chars = source_chars,
                                    meta_segment_total = length segments, meta_segment_index = 1,
                                    meta_pending = (if 1 < length segments then tl segments else []),
                                    meta_retries = 0\<rparr>\<rparr>,
                 length segments, source_chars))"

subsection \<open>The priority queue\<close>

datatype reply_status = SentToLive | DispatchFailed

text \<open>
  The dispatcher's state: the task queue, the sequence counter, the dispatch guard
  deadline, the playlist cursors (\<open>dict.get(id, 0)\<close> reads as a total function), the
  last error, and what it writes to SQLite: the \<open>replies.status\<close> column it sets and the
  \<open>audit_events\<close> rows \<open>(action, reply_id)\<close> it inserts.  \<open>_last_event\<close> and
  \<open>_last_dispatch_at\<close> are log strings and are not modelled.
\<close>

record dispatcher =
  d_queue :: "speak_task list"
  d_sequence :: nat
  d_next_dispatch_ts :: real
  d_playlist_cursor :: "string \<Rightarrow> nat"
  d_playlist_last_emit :: "string \<Rightarrow> real"
  d_playlist_schedule_cursor :: nat
  d_last_error :: "string option"
  d_replies :: "string \<rightharpoonup> reply_status"
  d_audit :: "(string \<times> string) list"

definition dispatcher_init :: dispatcher where
  "dispatcher_init =
     \<lparr>d_queue = [], d_sequence = 0, d_next_dispatch_ts = 0, d_playlist_cursor = (\<lambda>_. 0),
      d_playlist_last_emit = (\<lambda>_. 0), d_playlist_schedule_cursor = 0, d_last_error = None,
      d_replies = Map.empty, d_audit = []\<rparr>"

text \<open>\<open>list.insert(i, x)\<close> for \<open>0 \<le> i \<le> len\<close>, and \<open>list.pop(i)\<close>/\<open>del xs[i]\<close>.\<close>

definition py_insert :: "nat \<Rightarrow> 'a \<Rightarrow> 'a list \<Rightarrow> 'a list" where
  "py_insert i x xs = take i xs @ x # drop i xs"

definition py_del :: "nat \<Rightarrow> 'a list \<Rightarrow> 'a list" where
  "py_del i xs = take i xs @ drop (Suc i) xs"

text \<open>\<open>min(range(len(xs)), key=f)\<close>: the first index of a minimal key.\<close>

fun first_min_index :: "('a \<Rightarrow> 'k::linorder) \<Rightarrow> 'a list \<Rightarrow> nat" where
  "first_min_index f [] = 0"
| "first_min_index f (x # xs) =
     (if xs = [] then 0
      else let j = first_min_index f xs in if f (xs ! j) < f x then Suc j else 0)"

definition task_key :: "speak_task \<Rightarrow> int \<times> nat" where
  "task_key t = (task_priority t, task_sequence t)"

text \<open>The first queued task of strictly lower priority, or the end of the queue.\<close>

definition insert_index :: "speak_task \<Rightarrow> speak_task list \<Rightarrow> nat" where
  "insert_index t q = length (takeWhile (\<lambda>x. \<not> task_priority x < task_priority t) q)"

definition queue_cap :: nat where
  "queue_cap = 500"

definition append_task :: "speak_task \<Rightarrow> dispatcher \<Rightarrow> dispatcher" where
  "append_task t0 st =
     (let t = t0\<lparr>task_sequence := d_sequence st\<rparr>;
          q0 = d_queue st;
          q = (if queue_cap \<le> length q0 then py_del (first_min_index task_key q0) q0 else q0)
      in st\<lparr>d_sequence := Suc (d_sequence st), d_queue := py_insert (insert_index t q) t q\<rparr>)"

subsection \<open>Enqueueing\<close>

text \<open>
  \<open>_enqueue_text_task\<close> returns \<open>(task_id, segment_count, char_count)\<close>; an empty
  text returns \<open>("", 0, 0)\<close> and queues nothing.
\<close>

definition enqueue_text_task ::
  "dispatcher_config \<Rightarrow> string \<Rightarrow> string \<Rightarrow> string \<Rightarrow> ustr \<Rightarrow> int \<Rightarrow> bool \<Rightarrow> string
   \<Rightarrow> dispatcher \<Rightarrow> (string \<times> nat \<times> nat) \<times> dispatcher" where
  "enqueue_text_task cfg prefix uid source text priority interrupt reply_id st =
     (let (task, seg_total, chars) = build_segmented_task cfg prefix uid source text priority interrupt reply_id
      in case task of
           None \<Rightarrow> (([], 0, 0), st)
         | Some t \<Rightarrow> ((task_id t, seg_total, chars), append_task t st))"

definition enqueue_reply ::
  "dispatcher_config \<Rightarrow> string \<Rightarrow> string \<Rightarrow> ustr \<Rightarrow> bool \<Rightarrow> int \<Rightarrow> dispatcher \<Rightarrow> string \<times> dispatcher" where
  "enqueue_reply cfg uid reply_id text interrupt priority st =
     (let (r, st') = enqueue_text_task cfg ''speak'' uid ''reply'' text priority interrupt reply_id st
      in (fst r, st'))"

definition enqueue_manual_detail ::
  "dispatcher_config \<Rightarrow> string \<Rightarrow> ustr \<Rightarrow> bool \<Rightarrow> int \<Rightarrow> dispatcher \<Rightarrow> (string \<times> nat \<times> nat) \<times> dispatcher" where
  "enqueue_manual_detail cfg uid text interrupt priority st =
     enqueue_text_task cfg ''manual'' uid ''manual'' text priority interrupt [] st"

text \<open>
  \<open>_restore_pending_replies\<close>: the rows \<open>(id, answer, priority)\<close> of the replies left
  \<open>pending_live\<close> or \<open>queued_to_runtime\<close>, oldest first, each with the uuid its
  enqueue draws; a NULL or 0 priority reads as 80.
\<close>

definition restore_pending_replies ::
  "dispatcher_config \<Rightarrow> (string \<times> ustr \<times> int option \<times> string) list \<Rightarrow> dispatcher \<Rightarrow> dispatcher" where
  "restore_pending_replies cfg rows st =
     fold (\<lambda>(rid, answer, prio, uid) s.
             snd (enqueue_reply cfg uid rid answer True
                    (case prio of Some p \<Rightarrow> if p = 0 then 80 else p | None \<Rightarrow> 80) s))
          rows st"

subsection \<open>Follow-up segments\<close>

definition task_prefix_for_source :: "string \<Rightarrow> string" where
  "task_prefix_for_source source =
     (if source = ''reply'' then ''speak'' else if source = ''manual'' then ''manual''
      else if source = ''playlist'' then ''playlist'' else ''task'')"

text \<open>\<open>while pending_raw: next_text = str(pending_raw.pop(0) or "").strip(); if next_text: break\<close>\<close>

fun pop_nonblank :: "ustr list \<Rightarrow> ustr \<times> ustr list" where
  "pop_nonblank [] = ([], [])"
| "pop_nonblank (p # ps) = (let s = py_strip p in if s \<noteq> [] then (s, ps) else pop_nonblank ps)"

text \<open>The task \<open>_schedule_followup_segment\<close> appends after a dispatch, if any.\<close>

definition followup_task :: "string \<Rightarrow> speak_task \<Rightarrow> speak_task option" where
  "followup_task uid t =
     (let pending = meta_pending (task_meta t) in
      if pending = [] then None
      else
        let (next_text, rest) = pop_nonblank pending in
        if next_text = [] then None
        else Some \<lparr>task_id = task_prefix_for_source (task_source t) @ ''_'' @ uid,
                   task_source = task_source t, task_text = next_text,
                   task_priority = task_priority t, task_interrupt = False, task_sequence = 0,
                   task_meta = (task_meta t)\<lparr>meta_pending := rest,
                                 meta_segment_index := Suc (meta_segment_index (task_meta t)),
                                 meta_retries := 0\<rparr>\<rparr>)"

definition schedule_followup_segment :: "string \<Rightarrow> speak_task \<Rightarrow> dispatcher \<Rightarrow> dispatcher" where
  "schedule_followup_segment uid t st =
     (case followup_task uid t of None \<Rightarrow> st | Some t' \<Rightarrow> append_task t' st)"

subsection \<open>The live endpoint\<close>

definition default_transport :: string where
  "default_transport = ''virtualcam''"

definition default_listen_port :: int where
  "default_listen_port = 8010"

record endpoint =
  ep_supported :: bool
  ep_transport :: string
  ep_listen_port :: int
  ep_model :: string
  ep_tts :: string
  ep_tts_rate :: string

text \<open>One token of the scan over the live process's command line.\<close>

definition endpoint_token ::
  "string list \<Rightarrow> nat \<Rightarrow> string \<times> int \<times> string \<times> string \<times> string
   \<Rightarrow> string \<times> int \<times> string \<times> string \<times> string" where
  "endpoint_token cmdline i acc =
     (case acc of (transport, port, model, tts, rate) \<Rightarrow>
       let tok = cmdline ! i; has_next = i + 1 < length cmdline; nxt = cmdline ! (i + 1) in
       if tok = ''--transport'' \<and> has_next then (nxt, port, model, tts, rate)
       else if tok = ''--listenport'' \<and> has_next then
         ((transport, (case py_int nxt of Some p \<Rightarrow> p | None \<Rightarrow> default_listen_port), model, tts, rate))
       else if tok = ''--model'' \<and> has_next then (transport, port, nxt, tts, rate)
       else if tok = ''--tts'' \<and> has_next then (transport, port, model, nxt, rate)
       else if take 11 tok = ''--TTS_RATE='' then (transport, port, model, tts, str_strip (drop 11 tok))
       else if tok = ''--TTS_RATE'' \<and> has_next then (transport, port, model, tts, nxt)
       else acc)"

definition resolve_live_endpoint :: "string list \<Rightarrow> endpoint" where
  "resolve_live_endpoint cmdline =
     (case fold (endpoint_token cmdline) [0..<length cmdline]
             (default_transport, default_listen_port, ''wav2lip'', [], []) of
        (transport, port, model, tts, rate) \<Rightarrow>
          \<lparr>ep_supported = (transport \<noteq> ''webrtc''), ep_transport = transport, ep_listen_port = port,
           ep_model = model, ep_tts = tts, ep_tts_rate = rate\<rparr>)"

definition webrtc_unsupported :: string where
  "webrtc_unsupported = ''webrtc session ids are dynamic: automatic speaking needs virtualcam''"

subsection \<open>Dispatch guard\<close>

definition edge_rate_factor :: "string \<Rightarrow> rat" where
  "edge_rate_factor rate_text =
     (let rate = str_strip rate_text in
      if rate = [] \<or> last rate \<noteq> CHR ''%'' then 1
      else case py_float (butlast rate) of
             None \<Rightarrow> 1
           | Some num \<Rightarrow> max (7 / 20) (min 2 (1 + num / 100)))"

definition compute_dispatch_guard :: "dispatcher_config \<Rightarrow> speak_task \<Rightarrow> endpoint \<Rightarrow> rat" where
  "compute_dispatch_guard cfg t ep =
     (let model = map py_lower_char (ep_model ep); tts = map py_lower_char (ep_tts ep);
          n = length (py_strip (task_text t))
      in if n = 0 then 0
         else
           let g = (if model = ''musetalk''
                    then musetalk_guard_sec cfg + of_nat n * musetalk_guard_per_char cfg
                    else guard_sec cfg + of_nat n * guard_per_char cfg);
               g = (if tts = ''edgetts'' then g / edge_rate_factor (ep_tts_rate ep) else g)
           in max 0 (min 90 g))"

subsection \<open>Picking the next task\<close>

text \<open>\<open>for idx, task in enumerate(q): if P(task): del q[idx]; return task\<close>\<close>

fun take_first :: "('a \<Rightarrow> bool) \<Rightarrow> 'a list \<Rightarrow> ('a \<times> 'a list) option" where
  "take_first P [] = None"
| "take_first P (x # xs) =
     (if P x then Some (x, xs) else map_option (\<lambda>(y, ys). (y, x # ys)) (take_first P xs))"

definition allow_prefetch_while_speaking :: "dispatcher_config \<Rightarrow> endpoint \<Rightarrow> bool" where
  "allow_prefetch_while_speaking cfg ep =
     (let mode = prefetch_mode cfg in
      if mode \<in> {''1'', ''true'', ''yes'', ''on''} then True
      else if mode \<in> {''0'', ''false'', ''no'', ''off''} then False
      else py_norm (ep_model ep) \<noteq> ''musetalk'')"

definition is_followup_segment :: "speak_task \<Rightarrow> bool" where
  "is_followup_segment t \<longleftrightarrow> 1 < meta_segment_index (task_meta t)"

text \<open>
  Playlist rows (\<open>SELECT * FROM playlists WHERE enabled = 1 ORDER BY created_at\<close>) and
  the items of a playlist joined with their enabled scripts.  \<open>interval_sec\<close> NULL or 0
  reads as 30; \<open>mode\<close> NULL or empty as \<open>sequential\<close>.
\<close>

record playlist_row =
  pl_id :: string
  pl_interval_sec :: "int option"
  pl_mode :: "string option"

record playlist_item =
  pi_script_id :: string
  pi_content :: "ustr option"

definition playlist_interval :: "playlist_row \<Rightarrow> int" where
  "playlist_interval p =
     max 1 (case pl_interval_sec p of None \<Rightarrow> 30 | Some n \<Rightarrow> if n = 0 then 30 else n)"

text \<open>
  \<open>_choose_playlist_item\<close>: in \<open>random\<close> mode the item \<open>random.choices\<close> draws (its
  index is the argument \<open>rnd\<close>); otherwise the playlist's cursor, advanced.
\<close>

definition choose_playlist_item ::
  "string \<Rightarrow> string \<Rightarrow> playlist_item list \<Rightarrow> nat \<Rightarrow> dispatcher \<Rightarrow> playlist_item \<times> dispatcher" where
  "choose_playlist_item pid mode items rnd st =
     (if mode = ''random'' then (items ! (rnd mod length items), st)
      else
        let cursor = d_playlist_cursor st pid in
        (items ! (cursor mod length items),
         st\<lparr>d_playlist_cursor := (d_playlist_cursor st)(pid := Suc cursor)\<rparr>))"

text \<open>
  \<open>_build_playlist_task\<close>: round robin over the due playlists from the schedule cursor.
  Both clock readings of the call are \<open>now\<close>.
\<close>

definition build_playlist_task ::
  "dispatcher_config \<Rightarrow> string \<Rightarrow> real \<Rightarrow> nat \<Rightarrow> playlist_row list \<Rightarrow> (string \<Rightarrow> playlist_item list)
   \<Rightarrow> dispatcher \<Rightarrow> speak_task option \<times> dispatcher" where
  "build_playlist_task cfg uid now rnd playlists items st =
     (if playlists = [] then (None, st)
      else
        let n = length playlists;
            start = d_playlist_schedule_cursor st mod n;
            due = (\<lambda>p. of_int (playlist_interval p) \<le> now - d_playlist_last_emit st (pl_id p))
        in case find (\<lambda>off. due (playlists ! ((start + off) mod n))) [0..<n] of
             None \<Rightarrow> (None, st)
           | Some off \<Rightarrow>
               let pl = playlists ! ((start + off) mod n);
                   st1 = st\<lparr>d_playlist_schedule_cursor := (start + off + 1) mod n\<rparr>;
                   its = items (pl_id pl)
               in if its = [] then (None, st1)
                  else
                    let mode = (case pl_mode pl of Some m \<Rightarrow> if m = [] then ''sequential'' else m
                                                 | None \<Rightarrow> ''sequential'');
                        (sel, st2) = choose_playlist_item (pl_id pl) mode its rnd st1;
                        text = py_strip (case pi_content sel of Some c \<Rightarrow> c | None \<Rightarrow> [])
                    in if text = [] then (None, st2)
                       else case fst (build_segmented_task cfg ''playlist'' uid ''playlist'' text 10 False []) of
                              None \<Rightarrow> (None, st2)
                            | Some t \<Rightarrow>
                                (Some t, st2\<lparr>d_playlist_last_emit := (d_playlist_last_emit st2)(pl_id pl := now)\<rparr>))"

text \<open>
  \<open>_pick_next_task\<close>.  While the avatar speaks only an interrupt task, or (prefetch
  enabled, guard elapsed) a follow-up segment, is taken; when idle an interrupt task is
  taken before the guard deadline and the queue head after it; a playlist script is
  built only when the queue is empty and the avatar is idle.
\<close>

definition pick_next_task ::
  "dispatcher_config \<Rightarrow> endpoint \<Rightarrow> bool \<Rightarrow> real \<Rightarrow> string \<Rightarrow> nat \<Rightarrow> playlist_row list
   \<Rightarrow> (string \<Rightarrow> playlist_item list) \<Rightarrow> dispatcher \<Rightarrow> speak_task option \<times> dispatcher" where
  "pick_next_task cfg ep speaking now uid rnd playlists items st =
     (let q = d_queue st;
          fallback = (if speaking then (None, st) else build_playlist_task cfg uid now rnd playlists items st)
      in if q = [] then fallback
         else if speaking then
           (case take_first task_interrupt q of
              Some (t, q') \<Rightarrow> (Some t, st\<lparr>d_queue := q'\<rparr>)
            | None \<Rightarrow>
                if allow_prefetch_while_speaking cfg ep \<and> d_next_dispatch_ts st \<le> now then
                  (case take_first (\<lambda>t. \<not> task_interrupt t \<and> is_followup_segment t) q of
                     Some (t, q') \<Rightarrow> (Some t, st\<lparr>d_queue := q'\<rparr>)
                   | None \<Rightarrow> fallback)
                else fallback)
         else if now < d_next_dispatch_ts st then
           (case take_first task_interrupt q of
              Some (t, q') \<Rightarrow> (Some t, st\<lparr>d_queue := q'\<rparr>)
            | None \<Rightarrow> (None, st))
         else (Some (hd q), st\<lparr>d_queue := tl q\<rparr>))"

subsection \<open>Dispatch, failure and the loop\<close>

text \<open>
  \<open>_dispatch_task\<close> after \<open>/human\<close> accepted the text: clear the error, queue the
  follow-up segment, push the guard deadline for a non-interrupt task, and mark a reply
  \<open>sent_to_live\<close> once its last segment went out.
\<close>

definition dispatch_task ::
  "dispatcher_config \<Rightarrow> endpoint \<Rightarrow> string \<Rightarrow> real \<Rightarrow> speak_task \<Rightarrow> dispatcher \<Rightarrow> dispatcher" where
  "dispatch_task cfg ep uid now t st =
     (let st1 = schedule_followup_segment uid t (st\<lparr>d_last_error := None\<rparr>);
          st2 = (if task_interrupt t then st1
                 else st1\<lparr>d_next_dispatch_ts :=
                            max (d_next_dispatch_ts st1) (now + of_rat (compute_dispatch_guard cfg t ep))\<rparr>);
          rid = meta_reply_id (task_meta t)
      in if task_source t = ''reply'' \<and> rid \<noteq> []
            \<and> meta_segment_total (task_meta t) \<le> meta_segment_index (task_meta t)
         then st2\<lparr>d_replies := (d_replies st2)(rid \<mapsto> SentToLive),
                  d_audit := d_audit st2 @ [(''reply_dispatch'', rid)]\<rparr>
         else st2)"

definition max_dispatch_retries :: nat where
  "max_dispatch_retries = 3"

definition handle_dispatch_error :: "string \<Rightarrow> speak_task \<Rightarrow> dispatcher \<Rightarrow> dispatcher" where
  "handle_dispatch_error err t st =
     (let st1 = st\<lparr>d_last_error := Some err\<rparr>; r = meta_retries (task_meta t) in
      if r < max_dispatch_retries then
        st1\<lparr>d_queue := t\<lparr>task_meta := (task_meta t)\<lparr>meta_retries := Suc r\<rparr>\<rparr> # d_queue st1\<rparr>
      else
        let rid = meta_reply_id (task_meta t) in
        if task_source t = ''reply'' \<and> rid \<noteq> []
        then st1\<lparr>d_replies := (d_replies st1)(rid \<mapsto> DispatchFailed),
                 d_audit := d_audit st1 @ [(''reply_dispatch_failed'', rid)]\<rparr>
        else st1)"

text \<open>
  What one iteration of \<open>_loop\<close> observes: whether the live process runs and its
  command line, the \<open>/is_speaking\<close> answer (\<open>None\<close>: the call raised), the clock,
  the playlist rows, the random draw, the \<open>/human\<close> outcome (\<open>Some err\<close>: it raised
  \<open>err\<close>) and the uuid drawn for a new task.
\<close>

record loop_input =
  li_running :: bool
  li_cmdline :: "string list"
  li_speaking :: "bool option"
  li_now :: real
  li_playlists :: "playlist_row list"
  li_items :: "string \<Rightarrow> playlist_item list"
  li_random :: nat
  li_send :: "string option"
  li_uid :: string

definition is_speaking_failed :: string where
  "is_speaking_failed = ''/is_speaking failed''"

definition loop_iteration :: "dispatcher_config \<Rightarrow> loop_input \<Rightarrow> dispatcher \<Rightarrow> dispatcher" where
  "loop_iteration cfg inp st =
     (if \<not> li_running inp then st
      else
        let ep = resolve_live_endpoint (li_cmdline inp) in
        if \<not> ep_supported ep then st\<lparr>d_last_error := Some webrtc_unsupported\<rparr>
        else case li_speaking inp of
          None \<Rightarrow> st\<lparr>d_last_error := Some is_speaking_failed\<rparr>
        | Some speaking \<Rightarrow>
            (case pick_next_task cfg ep speaking (li_now inp) (li_uid inp) (li_random inp)
                    (li_playlists inp) (li_items inp) st of
               (None, st1) \<Rightarrow> st1
             | (Some t, st1) \<Rightarrow>
                 (case li_send inp of
                    None \<Rightarrow> dispatch_task cfg ep (li_uid inp) (li_now inp) t st1
                  | Some err \<Rightarrow> handle_dispatch_error err t st1)))"

text \<open>
  The two halves of an iteration as the lock splits them.  \<open>loop_pick\<close> runs up to
  \<open>_pick_next_task\<close>, which takes the task off the queue under \<open>self._lock\<close>;
  \<open>loop_send\<close> is \<open>_send_text\<close> (without the lock) and then \<open>_dispatch_task\<close>'s
  bookkeeping or \<open>_handle_dispatch_error\<close>.  Between the two, other threads enqueue.
\<close>

definition loop_pick ::
  "dispatcher_config \<Rightarrow> loop_input \<Rightarrow> dispatcher \<Rightarrow> (speak_task \<times> endpoint) option \<times> dispatcher" where
  "loop_pick cfg inp st =
     (if \<not> li_running inp then (None, st)
      else
        let ep = resolve_live_endpoint (li_cmdline inp) in
        if \<not> ep_supported ep then (None, st\<lparr>d_last_error := Some webrtc_unsupported\<rparr>)
        else case li_speaking inp of
          None \<Rightarrow> (None, st\<lparr>d_last_error := Some is_speaking_failed\<rparr>)
        | Some speaking \<Rightarrow>
            (case pick_next_task cfg ep speaking (li_now inp) (li_uid inp) (li_random inp)
                    (li_playlists inp) (li_items inp) st of
               (None, st1) \<Rightarrow> (None, st1)
             | (Some t, st1) \<Rightarrow> (Some (t, ep), st1)))"

definition loop_send ::
  "dispatcher_config \<Rightarrow> loop_input \<Rightarrow> endpoint \<Rightarrow> speak_task \<Rightarrow> dispatcher \<Rightarrow> dispatcher" where
  "loop_send cfg inp ep t st =
     (case li_send inp of
        None \<Rightarrow> dispatch_task cfg ep (li_uid inp) (li_now inp) t st
      | Some err \<Rightarrow> handle_dispatch_error err t st)"

text \<open>
  The dispatcher with its worker thread: the task the worker has picked and is sending
  (\<open>ds_inflight\<close>, the local \<open>task\<close> of \<open>_loop\<close>), if any.  The public operations
  run from other threads at any point, also while a task is in flight; the worker's
  \<open>Pick\<close> is enabled when nothing is in flight and its \<open>Send\<close> when a task is.
\<close>

record disp_system =
  ds_disp :: dispatcher
  ds_inflight :: "(speak_task \<times> endpoint) option"

definition disp_system_init :: disp_system where
  "disp_system_init = \<lparr>ds_disp = dispatcher_init, ds_inflight = None\<rparr>"

datatype disp_op =
    EnqueueReply string string ustr bool int
  | EnqueueManual string ustr bool int
  | Restore "(string \<times> ustr \<times> int option \<times> string) list"
  | Pick loop_input
  | Send loop_input

fun disp_step :: "dispatcher_config \<Rightarrow> disp_op \<Rightarrow> disp_system \<Rightarrow> disp_system" where
  "disp_step cfg (EnqueueReply uid rid text interrupt prio) s =
     s\<lparr>ds_disp := snd (enqueue_reply cfg uid rid text interrupt prio (ds_disp s))\<rparr>"
| "disp_step cfg (EnqueueManual uid text interrupt prio) s =
     s\<lparr>ds_disp := snd (enqueue_manual_detail cfg uid text interrupt prio (ds_disp s))\<rparr>"
| "disp_step cfg (Restore rows) s = s\<lparr>ds_disp := restore_pending_replies cfg rows (ds_disp s)\<rparr>"
| "disp_step cfg (Pick inp) s =
     (case ds_inflight s of
        Some _ \<Rightarrow> s
      | None \<Rightarrow> (let (r, st1) = loop_pick cfg inp (ds_disp s) in \<lparr>ds_disp = st1, ds_inflight = r\<rparr>))"
| "disp_step cfg (Send inp) s =
     (case ds_inflight s of
        None \<Rightarrow> s
      | Some (t, ep) \<Rightarrow> \<lparr>ds_disp = loop_send cfg inp ep t (ds_disp s), ds_inflight = None\<rparr>)"

subsection \<open>Queue invariant\<close>

text \<open>
  What the dispatcher promises of its queue: at most \<open>queue_cap\<close> tasks (the bound
  \<open>_append_task\<close> enforces), each with a priority in \<open>0..100\<close> (the clamp of
  \<open>_build_segmented_task\<close>).
\<close>

definition prio_ok :: "speak_task \<Rightarrow> bool" where
  "prio_ok t \<longleftrightarrow> 0 \<le> task_priority t \<and> task_priority t \<le> 100"

definition queue_within :: "nat \<Rightarrow> dispatcher \<Rightarrow> bool" where
  "queue_within n st \<longleftrightarrow> length (d_queue st) \<le> n \<and> list_all prio_ok (d_queue st)"

definition queue_wf :: "dispatcher \<Rightarrow> bool" where
  "queue_wf st \<longleftrightarrow> queue_within queue_cap st"

text \<open>
  What every reachable state of the dispatcher with its worker keeps: priorities in
  range, the task in flight included; at most \<open>queue_cap\<close> queued tasks while a task is
  in flight and at most \<open>queue_cap + 1\<close> otherwise, since the retry of
  \<open>_handle_dispatch_error\<close> puts the task back at the head without the cap check.
\<close>

definition sys_wf :: "disp_system \<Rightarrow> bool" where
  "sys_wf s \<longleftrightarrow>
     (case ds_inflight s of
        None \<Rightarrow> queue_within (Suc queue_cap) (ds_disp s)
      | Some (t, ep) \<Rightarrow> prio_ok t \<and> queue_within queue_cap (ds_disp s))"

text \<open>The loop with the live process running on a supported transport, the avatar idle,
  the guard elapsed and \<open>/human\<close> failing.\<close>

definition failing_input :: "loop_input \<Rightarrow> string \<Rightarrow> bool" where
  "failing_input inp err \<longleftrightarrow> li_running inp \<and> ep_supported (resolve_live_endpoint (li_cmdline inp))
     \<and> li_speaking inp = Some False \<and> li_send inp = Some err"

text \<open>
  The tasks that carry one text to the avatar when every dispatch succeeds: the task
  itself, then the follow-up \<open>_schedule_followup_segment\<close> queues after it, and so on.
  Each follow-up carries one pending segment fewer, so the chain is finite.
\<close>

function followup_chain :: "string \<Rightarrow> speak_task \<Rightarrow> speak_task list" where
  "followup_chain uid t =
     t # (case followup_task uid t of None \<Rightarrow> [] | Some t' \<Rightarrow> followup_chain uid t')"
  by pat_completeness auto
termination
proof (relation "measure (\<lambda>(uid, t). length (meta_pending (task_meta t)))")
  have le: "length (snd (pop_nonblank ps)) \<le> length ps" for ps
    by (induction ps rule: pop_nonblank.induct) (auto simp: Let_def)
  have pop: "ps \<noteq> [] \<Longrightarrow> length (snd (pop_nonblank ps)) < length ps" for ps
    using le [of "tl ps"] by (cases ps) (auto simp: Let_def)
  fix uid t t'
  assume "followup_task uid t = Some t'"
  then show "((uid, t'), uid, t) \<in> measure (\<lambda>(uid, t). length (meta_pending (task_meta t)))"
    using pop [of "meta_pending (task_meta t)"]
    by (auto simp: followup_task_def Let_def split: prod.splits if_splits)
qed simp

declare followup_chain.simps [simp del]

subsection \<open>Queue lemmas\<close>

lemma sorted_dropWhile_gt:
  fixes f :: "'a \<Rightarrow> 'b::linorder"
  assumes "sorted (map f xs)" "x \<in> set (dropWhile (\<lambda>x. f x \<le> c) xs)"
  shows "c < f x"
  using assms
proof (induction xs)
  case Nil
  then show ?case by simp
next
  case (Cons a xs)
  show ?case
  proof (cases "f a \<le> c")
    case True
    then show ?thesis using Cons by simp
  next
    case False
    then have "x = a \<or> x \<in> set xs" using Cons.prems(2) by simp
    then show ?thesis using False Cons.prems(1) by auto
  qed
qed

text \<open>Appending to a sorted list and stably sorting inserts after the equal keys.\<close>

lemma sort_key_snoc_sorted:
  fixes f :: "'a \<Rightarrow> 'b::linorder"
  assumes s: "sorted (map f xs)"
  shows "sort_key f (xs @ [y]) = takeWhile (\<lambda>x. f x \<le> f y) xs @ y # dropWhile (\<lambda>x. f x \<le> f y) xs"
proof (rule properties_for_sort_key)
  let ?P = "\<lambda>x. f x \<le> f y"
  let ?T = "takeWhile ?P xs" and ?D = "dropWhile ?P xs"
  have td: "xs = ?T @ ?D" by simp
  have tw: "\<forall>x\<in>set ?T. f x \<le> f y" by (auto dest: set_takeWhileD)
  have dw: "\<forall>x\<in>set ?D. f y < f x" using sorted_dropWhile_gt [OF s] by blast
  have st: "sorted (map f ?T)" "sorted (map f ?D)"
    using s td sorted_append [of "map f ?T" "map f ?D"] by (metis map_append)+
  show "mset (?T @ y # ?D) = mset (xs @ [y])"
    by (simp, metis mset_append takeWhile_dropWhile_id)
  show "sorted (map f (?T @ y # ?D))"
    using st tw dw by (auto simp: sorted_append less_imp_le intro: order_trans)
  fix k
  have fx: "filter (\<lambda>x. f k = f x) xs = filter (\<lambda>x. f k = f x) ?T @ filter (\<lambda>x. f k = f x) ?D"
    by (subst td) (rule filter_append)
  show "filter (\<lambda>x. f k = f x) (?T @ y # ?D) = filter (\<lambda>x. f k = f x) (xs @ [y])"
  proof (cases "f k = f y")
    case True
    then have "filter (\<lambda>x. f k = f x) ?D = []"
      using dw by (auto simp: filter_empty_conv)
    then show ?thesis using True fx by simp
  next
    case False
    then show ?thesis using fx by simp
  qed
qed

lemma insert_index_split:
  "py_insert (insert_index t q) t q =
     takeWhile (\<lambda>x. - task_priority x \<le> - task_priority t) q @ t #
     dropWhile (\<lambda>x. - task_priority x \<le> - task_priority t) q"
proof -
  have p: "(\<lambda>x. \<not> task_priority x < task_priority t) = (\<lambda>x. - task_priority x \<le> - task_priority t)"
    by auto
  show ?thesis
    unfolding py_insert_def insert_index_def p
    by (simp flip: takeWhile_eq_take dropWhile_eq_drop)
qed

lemma append_task_queue:
  "length (d_queue st) < queue_cap \<Longrightarrow>
   d_queue (append_task t st) =
     py_insert (insert_index (t\<lparr>task_sequence := d_sequence st\<rparr>) (d_queue st))
               (t\<lparr>task_sequence := d_sequence st\<rparr>) (d_queue st)"
  by (simp add: append_task_def Let_def)

lemma take_first_Some:
  "take_first P xs = Some (y, ys) \<Longrightarrow> P y \<and> mset xs = add_mset y (mset ys)"
  by (induction P xs arbitrary: ys rule: take_first.induct) (auto split: if_splits)

lemma take_first_None: "take_first P xs = None \<Longrightarrow> \<forall>x\<in>set xs. \<not> P x"
  by (induction P xs rule: take_first.induct) (auto split: if_splits)

lemma first_min_index_less: "xs \<noteq> [] \<Longrightarrow> first_min_index f xs < length xs"
  by (induction f xs rule: first_min_index.induct) (auto simp: Let_def)

lemma mset_py_insert [simp]: "i \<le> length xs \<Longrightarrow> mset (py_insert i x xs) = add_mset x (mset xs)"
  by (metis append_take_drop_id mset.simps(2) mset_append py_insert_def union_mset_add_mset_right)

lemma mset_py_del: "i < length xs \<Longrightarrow> mset (py_del i xs) = mset xs - {#xs ! i#}"
  unfolding py_del_def
  by (metis add_mset_remove_trivial id_take_nth_drop mset.simps(2) mset_append union_mset_add_mset_right)

lemma insert_index_le: "insert_index t q \<le> length q"
  by (simp add: insert_index_def length_takeWhile_le)

text \<open>What \<open>_append_task\<close> does to the multiset of queued tasks.\<close>

lemma append_task_mset:
  "mset (d_queue (append_task t st)) =
     add_mset (t\<lparr>task_sequence := d_sequence st\<rparr>)
       (if queue_cap \<le> length (d_queue st)
        then mset (d_queue st) - {#d_queue st ! first_min_index task_key (d_queue st)#}
        else mset (d_queue st))"
proof (cases "queue_cap \<le> length (d_queue st)")
  case True
  then have "d_queue st \<noteq> []" by (auto simp: queue_cap_def)
  then have i: "first_min_index task_key (d_queue st) < length (d_queue st)"
    by (rule first_min_index_less)
  show ?thesis using True mset_py_del [OF i] by (simp add: append_task_def Let_def insert_index_le)
next
  case False
  then show ?thesis by (simp add: append_task_def Let_def insert_index_le)
qed

lemma append_task_length:
  "length (d_queue (append_task t st)) =
     (if queue_cap \<le> length (d_queue st) then length (d_queue st) else Suc (length (d_queue st)))"
proof -
  have "size (mset (d_queue (append_task t st))) =
          (if queue_cap \<le> length (d_queue st) then length (d_queue st) else Suc (length (d_queue st)))"
  proof (cases "queue_cap \<le> length (d_queue st)")
    case True
    then have ne: "d_queue st \<noteq> []" by (auto simp: queue_cap_def)
    have "d_queue st ! first_min_index task_key (d_queue st) \<in># mset (d_queue st)"
      using first_min_index_less [OF ne, of task_key] by simp
    then show ?thesis using True ne append_task_mset [of t st]
      by (simp add: size_Diff_singleton)
  next
    case False
    then show ?thesis using append_task_mset [of t st] by simp
  qed
  then show ?thesis by simp
qed

lemma append_task_set:
  "set (d_queue (append_task t st)) \<subseteq> insert (t\<lparr>task_sequence := d_sequence st\<rparr>) (set (d_queue st))"
proof -
  have "set_mset (mset (d_queue st) - {#x#}) \<subseteq> set (d_queue st)" for x
    by (metis in_diffD set_mset_mset subsetI)
  then show ?thesis
    using append_task_mset [of t st] by (auto simp flip: set_mset_mset split: if_splits)
qed

lemma append_task_fields [simp]:
  "d_replies (append_task t st) = d_replies st"
  "d_audit (append_task t st) = d_audit st"
  "d_next_dispatch_ts (append_task t st) = d_next_dispatch_ts st"
  "d_last_error (append_task t st) = d_last_error st"
  by (simp_all add: append_task_def Let_def)

subsection \<open>Invariant lemmas\<close>

lemma queue_within_mono: "queue_within n st \<Longrightarrow> n \<le> m \<Longrightarrow> queue_within m st"
  by (simp add: queue_within_def)

lemma append_task_within:
  "queue_cap \<le> n \<Longrightarrow> queue_within n st \<Longrightarrow> prio_ok t \<Longrightarrow> queue_within n (append_task t st)"
proof -
  assume n: "queue_cap \<le> n" and wf: "queue_within n st" and p: "prio_ok t"
  have "length (d_queue (append_task t st)) \<le> n"
    using n wf append_task_length [of t st] by (simp add: queue_within_def)
  moreover have "list_all prio_ok (d_queue (append_task t st))"
    using wf p append_task_set [of t st]
    by (auto simp: queue_within_def list_all_iff prio_ok_def)
  ultimately show ?thesis by (simp add: queue_within_def)
qed

lemma build_segmented_task_prio:
  "fst (build_segmented_task cfg prefix uid source text priority interrupt rid) = Some t \<Longrightarrow> prio_ok t"
  by (auto simp: build_segmented_task_def Let_def prio_ok_def split: if_splits prod.splits)

lemma enqueue_text_task_within:
  "queue_cap \<le> n \<Longrightarrow> queue_within n st \<Longrightarrow>
   queue_within n (snd (enqueue_text_task cfg prefix uid source text priority interrupt rid st))"
  unfolding enqueue_text_task_def
  by (auto split: prod.splits option.splits intro!: append_task_within)
     (metis build_segmented_task_prio fst_conv)

lemma followup_task_Some:
  "followup_task uid t = Some t' \<Longrightarrow>
     task_priority t' = task_priority t \<and> \<not> task_interrupt t' \<and> task_source t' = task_source t"
  by (auto simp: followup_task_def Let_def split: prod.splits if_splits)

lemma schedule_followup_within:
  "queue_cap \<le> n \<Longrightarrow> queue_within n st \<Longrightarrow> prio_ok t \<Longrightarrow> queue_within n (schedule_followup_segment uid t st)"
  using followup_task_Some [of uid t] append_task_within [of n st]
  by (auto simp: schedule_followup_segment_def prio_ok_def split: option.splits)

lemma take_first_wf:
  assumes "take_first P xs = Some (y, ys)" "list_all prio_ok xs"
  shows "prio_ok y \<and> list_all prio_ok ys \<and> Suc (length ys) = length xs"
proof -
  have m: "mset xs = add_mset y (mset ys)" using take_first_Some [OF assms(1)] by simp
  then have "set xs = insert y (set ys)" by (metis set_mset_mset set_mset_add_mset_insert)
  moreover have "length xs = Suc (length ys)" using arg_cong [OF m, of size] by simp
  ultimately show ?thesis using assms(2) by (simp add: list_all_iff)
qed

lemma take_first_mem: "take_first P xs = Some (y, ys) \<Longrightarrow> P y \<and> y \<in> set xs"
  using take_first_Some [of P xs y ys] by (metis set_mset_mset union_single_eq_member)

lemma build_playlist_task_queue:
  "d_queue (snd (build_playlist_task cfg uid now rnd pls items st)) = d_queue st"
  by (simp add: build_playlist_task_def choose_playlist_item_def Let_def
      split: option.splits prod.splits)

lemma build_playlist_task_prio:
  "fst (build_playlist_task cfg uid now rnd pls items st) = Some t \<Longrightarrow> prio_ok t"
  unfolding build_playlist_task_def Let_def
  by (auto split: if_splits option.splits prod.splits elim: build_segmented_task_prio)

text \<open>What \<open>_pick_next_task\<close> takes: a queued task (the queue shrinks by it) or a
  playlist task (the queue is empty and stays so).\<close>

lemma pick_next_task_Some:
  assumes p: "pick_next_task cfg ep speaking now uid rnd pls items st = (Some t, st')"
    and wf: "list_all prio_ok (d_queue st)"
  shows "prio_ok t \<and> list_all prio_ok (d_queue st') \<and> Suc (length (d_queue st')) \<le> max 1 (length (d_queue st))"
proof (cases "d_queue st = []")
  case True
  then have "build_playlist_task cfg uid now rnd pls items st = (Some t, st')"
    using p by (simp add: pick_next_task_def split: if_splits)
  then show ?thesis
    using True build_playlist_task_queue [of cfg uid now rnd pls items st]
      build_playlist_task_prio [of cfg uid now rnd pls items st t] by simp
next
  case False
  let ?q = "d_queue st"
  have tf: "\<And>P y ys. take_first P ?q = Some (y, ys) \<Longrightarrow> prio_ok y \<and> list_all prio_ok ys \<and> Suc (length ys) = length ?q"
    using take_first_wf wf by blast
  have hd: "prio_ok (hd ?q) \<and> list_all prio_ok (tl ?q) \<and> Suc (length (tl ?q)) = length ?q"
    using False wf by (cases ?q) simp_all
  show ?thesis
    using p False tf hd
    by (auto simp: pick_next_task_def Let_def split: if_splits option.splits prod.splits)
qed

lemma pick_next_task_None:
  "pick_next_task cfg ep speaking now uid rnd pls items st = (None, st') \<Longrightarrow> d_queue st' = d_queue st"
  using build_playlist_task_queue [of cfg uid now rnd pls items st]
  by (auto simp: pick_next_task_def Let_def split: if_splits option.splits prod.splits)

lemma queue_within_fields [simp]:
  "queue_within n (st\<lparr>d_last_error := e\<rparr>) = queue_within n st"
  "queue_within n (st\<lparr>d_next_dispatch_ts := x\<rparr>) = queue_within n st"
  "queue_within n (st\<lparr>d_replies := r, d_audit := a\<rparr>) = queue_within n st"
  by (simp_all add: queue_within_def)

lemma dispatch_task_queue:
  "d_queue (dispatch_task cfg ep uid now t st) = d_queue (schedule_followup_segment uid t (st\<lparr>d_last_error := None\<rparr>))"
  by (simp add: dispatch_task_def Let_def)

lemma dispatch_task_within:
  "queue_cap \<le> n \<Longrightarrow> queue_within n st \<Longrightarrow> prio_ok t \<Longrightarrow> queue_within n (dispatch_task cfg ep uid now t st)"
  using schedule_followup_within [of n "st\<lparr>d_last_error := None\<rparr>" t uid]
  by (simp add: queue_within_def dispatch_task_queue)

lemma handle_dispatch_error_queue:
  "d_queue (handle_dispatch_error err t st) =
     (if meta_retries (task_meta t) < max_dispatch_retries
      then t\<lparr>task_meta := (task_meta t)\<lparr>meta_retries := Suc (meta_retries (task_meta t))\<rparr>\<rparr> # d_queue st
      else d_queue st)"
  by (simp add: handle_dispatch_error_def Let_def)

lemma handle_dispatch_error_within:
  "list_all prio_ok (d_queue st) \<Longrightarrow> Suc (length (d_queue st)) \<le> n \<Longrightarrow> prio_ok t \<Longrightarrow>
   queue_within n (handle_dispatch_error err t st)"
  by (simp add: queue_within_def handle_dispatch_error_queue prio_ok_def)

lemma loop_iteration_split:
  "loop_iteration cfg inp st =
     (case loop_pick cfg inp st of
        (None, st1) \<Rightarrow> st1
      | (Some (t, ep), st1) \<Rightarrow> loop_send cfg inp ep t st1)"
  by (simp add: loop_iteration_def loop_pick_def loop_send_def Let_def split: option.splits prod.splits)

lemma loop_pick_wf:
  assumes wf: "list_all prio_ok (d_queue st)" and pk: "loop_pick cfg inp st = (r, st1)"
  shows "list_all prio_ok (d_queue st1) \<and>
         (case r of None \<Rightarrow> d_queue st1 = d_queue st
          | Some (t, ep) \<Rightarrow> prio_ok t \<and> Suc (length (d_queue st1)) \<le> max 1 (length (d_queue st)))"
proof -
  let ?ep = "resolve_live_endpoint (li_cmdline inp)"
  show ?thesis
  proof (cases "li_running inp \<and> ep_supported ?ep \<and> li_speaking inp \<noteq> None")
    case False
    then have "loop_pick cfg inp st = (None, st) \<or>
               (\<exists>e. loop_pick cfg inp st = (None, st\<lparr>d_last_error := e\<rparr>))"
      by (auto simp: loop_pick_def Let_def)
    then show ?thesis using wf pk by auto
  next
    case True
    then obtain speaking where sp: "li_speaking inp = Some speaking" by auto
    obtain r0 st0 where p0: "pick_next_task cfg ?ep speaking (li_now inp) (li_uid inp) (li_random inp)
                     (li_playlists inp) (li_items inp) st = (r0, st0)" by fastforce
    have l: "loop_pick cfg inp st = (case r0 of None \<Rightarrow> (None, st0) | Some t \<Rightarrow> (Some (t, ?ep), st0))"
      using True sp p0 by (simp add: loop_pick_def Let_def split: option.splits)
    show ?thesis
    proof (cases r0)
      case None
      then show ?thesis using l pk p0 pick_next_task_None wf by simp
    next
      case (Some t)
      then show ?thesis using l pk pick_next_task_Some [OF p0 [unfolded Some] wf] by auto
    qed
  qed
qed

lemma enqueue_reply_within:
  "queue_cap \<le> n \<Longrightarrow> queue_within n st \<Longrightarrow> queue_within n (snd (enqueue_reply cfg uid rid txt interrupt prio st))"
  unfolding enqueue_reply_def
  by (metis (no_types, lifting) case_prod_beta enqueue_text_task_within snd_conv)

lemma restore_pending_replies_within:
  "queue_cap \<le> n \<Longrightarrow> queue_within n st \<Longrightarrow> queue_within n (restore_pending_replies cfg rows st)"
  unfolding restore_pending_replies_def
  by (induction rows arbitrary: st) (auto intro: enqueue_reply_within)

lemma disp_step_public_within:
  assumes "queue_cap \<le> n" "queue_within n (ds_disp s)"
    "op \<notin> range Pick" "op \<notin> range Send"
  shows "queue_within n (ds_disp (disp_step cfg op s)) \<and> ds_inflight (disp_step cfg op s) = ds_inflight s"
  using assms
  by (cases op) (simp_all add: enqueue_reply_within restore_pending_replies_within
                   enqueue_manual_detail_def enqueue_text_task_within)

lemma disp_step_sys_wf:
  assumes wf: "sys_wf s"
  shows "sys_wf (disp_step cfg op s)"
proof (cases "op \<in> range Pick \<or> op \<in> range Send")
  case False
  then have pub: "op \<notin> range Pick" "op \<notin> range Send" by auto
  show ?thesis
  proof (cases "ds_inflight s")
    case None
    with wf disp_step_public_within [of "Suc queue_cap" s op cfg, OF _ _ pub] show ?thesis
      by (simp add: sys_wf_def)
  next
    case (Some te)
    with wf disp_step_public_within [of queue_cap s op cfg, OF _ _ pub] show ?thesis
      by (auto simp: sys_wf_def split: prod.splits)
  qed
next
  case True
  then consider (pick) inp where "op = Pick inp" | (send) inp where "op = Send inp" by blast
  then show ?thesis
  proof cases
    case pick
    show ?thesis
    proof (cases "ds_inflight s")
      case None
      obtain r st1 where pk: "loop_pick cfg inp (ds_disp s) = (r, st1)" by fastforce
      have q: "length (d_queue (ds_disp s)) \<le> Suc queue_cap" "list_all prio_ok (d_queue (ds_disp s))"
        using wf None by (simp_all add: sys_wf_def queue_within_def)
      from loop_pick_wf [OF q(2) pk] q(1) show ?thesis
        using pick None pk by (auto simp: sys_wf_def queue_within_def queue_cap_def split: option.splits)
    next
      case (Some te)
      with pick wf show ?thesis by simp
    qed
  next
    case send
    show ?thesis
    proof (cases "ds_inflight s")
      case None
      with send wf show ?thesis by simp
    next
      case (Some te)
      obtain t ep where te: "te = (t, ep)" by (cases te)
      have q: "prio_ok t" "queue_within queue_cap (ds_disp s)"
        using wf Some te by (simp_all add: sys_wf_def)
      have "queue_within (Suc queue_cap) (loop_send cfg inp ep t (ds_disp s))"
        using dispatch_task_within [of "Suc queue_cap" "ds_disp s" t] queue_within_mono [OF q(2)] q(1)
          handle_dispatch_error_within [of "ds_disp s" "Suc queue_cap" t] q(2)
        by (auto simp: loop_send_def queue_within_def split: option.splits)
      then show ?thesis using send Some te by (simp add: sys_wf_def)
    qed
  qed
qed

lemma loop_iteration_failing:
  "failing_input inp err \<Longrightarrow> d_next_dispatch_ts st \<le> li_now inp \<Longrightarrow> d_queue st = t # q \<Longrightarrow>
   loop_iteration cfg inp st = handle_dispatch_error err t (st\<lparr>d_queue := q\<rparr>)"
  by (auto simp: failing_input_def loop_iteration_def pick_next_task_def Let_def)

lemma handle_dispatch_error_retry:
  "meta_retries (task_meta t) < max_dispatch_retries \<Longrightarrow>
   handle_dispatch_error err t st =
     st\<lparr>d_last_error := Some err,
        d_queue := t\<lparr>task_meta := (task_meta t)\<lparr>meta_retries := Suc (meta_retries (task_meta t))\<rparr>\<rparr> # d_queue st\<rparr>"
  by (simp add: handle_dispatch_error_def Let_def)

lemma handle_dispatch_error_final:
  "\<not> meta_retries (task_meta t) < max_dispatch_retries \<Longrightarrow>
   d_queue (handle_dispatch_error err t st) = d_queue st \<and>
   d_replies (handle_dispatch_error err t st) =
     (if task_source t = ''reply'' \<and> meta_reply_id (task_meta t) \<noteq> []
      then (d_replies st)(meta_reply_id (task_meta t) \<mapsto> DispatchFailed) else d_replies st)"
  by (simp add: handle_dispatch_error_def Let_def)

lemma failing_runs:
  "failing_input inp err \<Longrightarrow> d_next_dispatch_ts st \<le> li_now inp \<Longrightarrow> d_queue st = t # q \<Longrightarrow>
   meta_retries (task_meta t) + n = max_dispatch_retries \<Longrightarrow>
   d_queue ((loop_iteration cfg inp ^^ Suc n) st) = q \<and>
   d_replies ((loop_iteration cfg inp ^^ Suc n) st) =
     (if task_source t = ''reply'' \<and> meta_reply_id (task_meta t) \<noteq> []
      then (d_replies st)(meta_reply_id (task_meta t) \<mapsto> DispatchFailed) else d_replies st)"
proof (induction n arbitrary: t st)
  case 0
  then show ?case
    using loop_iteration_failing [OF 0(1-3)] handle_dispatch_error_final [of t err "st\<lparr>d_queue := q\<rparr>"]
    by simp
next
  case (Suc n)
  let ?t1 = "t\<lparr>task_meta := (task_meta t)\<lparr>meta_retries := Suc (meta_retries (task_meta t))\<rparr>\<rparr>"
  let ?st1 = "st\<lparr>d_last_error := Some err, d_queue := ?t1 # q\<rparr>"
  have r: "meta_retries (task_meta t) < max_dispatch_retries" using Suc.prems(4) by simp
  have one: "loop_iteration cfg inp st = ?st1"
    using loop_iteration_failing [OF Suc.prems(1-3)] handle_dispatch_error_retry [OF r] by simp
  have "(loop_iteration cfg inp ^^ Suc (Suc n)) st = (loop_iteration cfg inp ^^ Suc n) ?st1"
    by (simp only: funpow_Suc_right comp_apply one)
  moreover have "d_queue ((loop_iteration cfg inp ^^ Suc n) ?st1) = q \<and>
     d_replies ((loop_iteration cfg inp ^^ Suc n) ?st1) =
     (if task_source ?t1 = ''reply'' \<and> meta_reply_id (task_meta ?t1) \<noteq> []
      then (d_replies ?st1)(meta_reply_id (task_meta ?t1) \<mapsto> DispatchFailed) else d_replies ?st1)"
    by (rule Suc.IH) (use Suc.prems in simp_all)
  ultimately show ?case by simp
qed

lemma followup_chain_texts:
  assumes "\<forall>c\<in>set (meta_pending (task_meta t)). c \<noteq> [] \<and> py_strip c = c"
  shows "map task_text (followup_chain uid t) = task_text t # meta_pending (task_meta t) \<and>
         map (\<lambda>x. meta_segment_index (task_meta x)) (followup_chain uid t) =
           [meta_segment_index (task_meta t)..<Suc (meta_segment_index (task_meta t) + length (meta_pending (task_meta t)))] \<and>
         list_all (\<lambda>x. meta_segment_total (task_meta x) = meta_segment_total (task_meta t)) (followup_chain uid t)"
  using assms
proof (induction uid t rule: followup_chain.induct)
  case (1 uid t)
  show ?case
  proof (cases "meta_pending (task_meta t)")
    case Nil
    then have "followup_task uid t = None" by (simp add: followup_task_def)
    then show ?thesis using Nil by (simp add: followup_chain.simps [of uid t])
  next
    case (Cons p ps)
    then have p: "p \<noteq> [] \<and> py_strip p = p" "\<forall>c\<in>set ps. c \<noteq> [] \<and> py_strip c = c"
      using "1.prems" by auto
    define t' where "t' = \<lparr>task_id = task_prefix_for_source (task_source t) @ ''_'' @ uid,
                   task_source = task_source t, task_text = p,
                   task_priority = task_priority t, task_interrupt = False, task_sequence = 0,
                   task_meta = (task_meta t)\<lparr>meta_pending := ps,
                                 meta_segment_index := Suc (meta_segment_index (task_meta t)),
                                 meta_retries := 0\<rparr>\<rparr>"
    have f: "followup_task uid t = Some t'"
      using Cons p by (simp add: followup_task_def t'_def Let_def)
    have ih: "map task_text (followup_chain uid t') = task_text t' # meta_pending (task_meta t') \<and>
         map (\<lambda>x. meta_segment_index (task_meta x)) (followup_chain uid t') =
           [meta_segment_index (task_meta t')..<Suc (meta_segment_index (task_meta t') + length (meta_pending (task_meta t')))] \<and>
         list_all (\<lambda>x. meta_segment_total (task_meta x) = meta_segment_total (task_meta t')) (followup_chain uid t')"
      using "1.IH" [OF f] p by (simp add: t'_def)
    have "followup_chain uid t = t # followup_chain uid t'"
      by (simp add: followup_chain.simps [of uid t] f)
    then show ?thesis using ih Cons by (simp add: t'_def upt_conv_Cons del: upt_Suc)
  qed
qed

lemma build_segmented_task_Some:
  assumes "build_segmented_task cfg prefix uid source text prio intr rid = (Some t, n, c)"
  shows "task_text t # meta_pending (task_meta t) =
           split_text_for_speech (snd (normalize_source cfg text)) (segment_max_chars cfg) \<and>
         n = length (split_text_for_speech (snd (normalize_source cfg text)) (segment_max_chars cfg)) \<and>
         meta_segment_index (task_meta t) = 1 \<and> meta_segment_total (task_meta t) = n"
proof -
  obtain tr nz where nz: "normalize_source cfg text = (tr, nz)" by fastforce
  let ?segs = "split_text_for_speech nz (segment_max_chars cfg)"
  have ne: "?segs \<noteq> []" and
    t: "t = \<lparr>task_id = prefix @ ''_'' @ uid, task_source = source, task_text = hd ?segs,
            task_priority = max 0 (min 100 prio), task_interrupt = intr, task_sequence = 0,
            task_meta = \<lparr>meta_reply_id = rid, meta_source_trimmed = tr,
                         meta_source_chars = length nz, meta_segment_total = length ?segs,
                         meta_segment_index = 1,
                         meta_pending = (if 1 < length ?segs then tl ?segs else []),
                         meta_retries = 0\<rparr>\<rparr>"
    and n: "n = length ?segs"
    using assms nz by (auto simp: build_segmented_task_def Let_def split: if_splits)
  have "hd ?segs # (if 1 < length ?segs then tl ?segs else []) = ?segs"
    using ne by (cases ?segs) auto
  then show ?thesis using t n nz by simp
qed

lemma sorted_desc_hd_Max:
  "sorted (map (\<lambda>x. - task_priority x) q) \<Longrightarrow> q \<noteq> [] \<Longrightarrow>
   task_priority (hd q) = Max (task_priority ` set q)"
proof (induction q)
  case Nil
  then show ?case by simp
next
  case (Cons a q)
  have "\<forall>x\<in>set q. task_priority x \<le> task_priority a" using Cons.prems(1) by simp
  then show ?case by (intro Max_eqI [symmetric]) auto
qed

subsection \<open>Properties\<close>

text \<open>C23: below the queue cap, \<open>_append_task\<close> on a queue ordered by priority is a stable
  sort of the queue with the new task appended: higher priority first, first come first
  served among equal priorities.\<close>

theorem append_task_stable_priority:
  "length (d_queue st) < queue_cap \<Longrightarrow> sorted (map (\<lambda>x. - task_priority x) (d_queue st)) \<Longrightarrow>
   d_queue (append_task t st) =
     sort_key (\<lambda>x. - task_priority x) (d_queue st @ [t\<lparr>task_sequence := d_sequence st\<rparr>])"
  by (simp add: append_task_queue insert_index_split sort_key_snoc_sorted)


text \<open>C21: every state the dispatcher reaches, with its worker's pick and send
  interleaved with enqueues from other threads, keeps every priority in \<open>0..100\<close>
  and holds at most \<open>queue_cap\<close> queued tasks while a task is in flight and at most
  \<open>queue_cap + 1\<close> otherwise.\<close>

theorem dispatcher_reachable_wf: "sys_wf (fold (disp_step cfg) ops disp_system_init)"
proof -
  have "sys_wf s \<Longrightarrow> sys_wf (fold (disp_step cfg) ops s)" for s
    by (induction ops arbitrary: s) (simp_all add: disp_step_sys_wf)
  then show ?thesis
    by (simp add: sys_wf_def queue_within_def disp_system_init_def dispatcher_init_def)
qed

text \<open>C22: the cap of \<open>_append_task\<close> does not bound the queue: when the send of a
  task in flight fails while other threads have filled the queue to \<open>queue_cap\<close>,
  \<open>_handle_dispatch_error\<close> puts the task back at the head and the queue holds
  \<open>queue_cap + 1\<close> tasks.\<close>

theorem failed_retry_exceeds_cap:
  assumes inflight: "ds_inflight s = Some (t, ep)" and full: "length (d_queue (ds_disp s)) = queue_cap"
    and fail: "li_send inp = Some err" and r: "meta_retries (task_meta t) < max_dispatch_retries"
  shows "length (d_queue (ds_disp (disp_step cfg (Send inp) s))) = Suc queue_cap \<and>
         \<not> queue_wf (ds_disp (disp_step cfg (Send inp) s)) \<and>
         ds_inflight (disp_step cfg (Send inp) s) = None"
  using assms by (simp add: loop_send_def handle_dispatch_error_queue queue_wf_def queue_within_def)

text \<open>C26: while the avatar speaks, \<open>_pick_next_task\<close> takes only a queued interrupt task or
  a queued follow-up segment: a fresh non-interrupt task never barges in, and no playlist
  script is built.\<close>

theorem busy_pick_only_interrupts_or_followups:
  "pick_next_task cfg ep True now uid rnd pls items st = (Some t, st') \<Longrightarrow>
   (task_interrupt t \<or> is_followup_segment t) \<and> t \<in> set (d_queue st)"
  using take_first_mem [of task_interrupt "d_queue st" t]
    take_first_mem [of "\<lambda>t. \<not> task_interrupt t \<and> is_followup_segment t" "d_queue st" t]
  by (auto simp: pick_next_task_def Let_def split: if_splits option.splits prod.splits)

text \<open>C27: on a full queue \<open>_append_task\<close> evicts a queued task even when every queued task
  has a higher priority than the new one: the newcomer is kept and a higher-priority task
  is lost, against the comment's intent that high-priority tasks are not drowned.\<close>

theorem full_queue_evicts_higher_priority:
  assumes full: "queue_cap \<le> length (d_queue st)"
    and low: "\<forall>x\<in>set (d_queue st). task_priority t < task_priority x"
  shows "length (d_queue (append_task t st)) = length (d_queue st) \<and>
         t\<lparr>task_sequence := d_sequence st\<rparr> \<in> set (d_queue (append_task t st)) \<and>
         (\<exists>x\<in>set (d_queue st). task_priority t < task_priority x \<and>
             count (mset (d_queue (append_task t st))) x < count (mset (d_queue st)) x)"
proof -
  let ?q = "d_queue st" and ?t' = "t\<lparr>task_sequence := d_sequence st\<rparr>"
  let ?x = "?q ! first_min_index task_key ?q"
  have ne: "?q \<noteq> []" using full by (auto simp: queue_cap_def)
  have xin: "?x \<in> set ?q" using first_min_index_less [OF ne, of task_key] by simp
  have m: "mset (d_queue (append_task t st)) = add_mset ?t' (mset ?q - {#?x#})"
    using append_task_mset [of t st] full by simp
  have "task_priority ?t' < task_priority ?x" using low xin by simp
  then have ne': "?t' \<noteq> ?x" by (metis order_less_irrefl)
  have "count (mset (d_queue (append_task t st))) ?x < count (mset ?q) ?x"
    using m ne' xin by simp
  moreover have "?t' \<in> set (d_queue (append_task t st))"
    using m by (metis set_mset_mset union_single_eq_member)
  ultimately show ?thesis
    using append_task_length [of t st] full low xin by auto
qed

text \<open>C25: a task whose dispatch keeps failing is retried at the head of the queue and leaves
  it after \<open>max_dispatch_retries + 1 - retries\<close> attempts; a reply is then marked
  \<open>dispatch_failed\<close>.  The retry loop ends.\<close>

theorem failing_task_dropped_after_retries:
  assumes "failing_input inp err" "d_next_dispatch_ts st \<le> li_now inp" "d_queue st = t # q"
    and "meta_retries (task_meta t) \<le> max_dispatch_retries"
  shows "d_queue ((loop_iteration cfg inp ^^ (Suc max_dispatch_retries - meta_retries (task_meta t))) st) = q \<and>
         (task_source t = ''reply'' \<and> meta_reply_id (task_meta t) \<noteq> [] \<longrightarrow>
          d_replies ((loop_iteration cfg inp ^^ (Suc max_dispatch_retries - meta_retries (task_meta t))) st)
            (meta_reply_id (task_meta t)) = Some DispatchFailed)"
proof -
  define n where "n = max_dispatch_retries - meta_retries (task_meta t)"
  have "Suc max_dispatch_retries - meta_retries (task_meta t) = Suc n"
    using assms(4) by (simp add: n_def Suc_diff_le)
  moreover have "meta_retries (task_meta t) + n = max_dispatch_retries" using assms(4) by (simp add: n_def)
  ultimately show ?thesis using failing_runs [OF assms(1-3)] by simp
qed

text \<open>C19: when every dispatch succeeds, the task built for a text and the follow-ups
  \<open>_schedule_followup_segment\<close> queues after it carry exactly the segments of the
  (stripped, possibly cut) text, in order, numbered \<open>1..n\<close> of \<open>n\<close>; so a reply is
  marked sent when, and only when, its last segment goes out.\<close>

theorem segments_dispatched_in_order:
  assumes "build_segmented_task cfg prefix uid source text prio intr rid = (Some t, n, c)"
  shows "map task_text (followup_chain uid' t) =
           split_text_for_speech (snd (normalize_source cfg text)) (segment_max_chars cfg) \<and>
         map (\<lambda>x. meta_segment_index (task_meta x)) (followup_chain uid' t) = [1..<Suc n] \<and>
         list_all (\<lambda>x. meta_segment_total (task_meta x) = n) (followup_chain uid' t)"
proof -
  note b = build_segmented_task_Some [OF assms]
  have "\<forall>c\<in>set (meta_pending (task_meta t)). c \<noteq> [] \<and> py_strip c = c"
    using b split_tail_stripped
    by (metis list.sel(3))
  moreover have "n = Suc (length (meta_pending (task_meta t)))"
    using b by (metis length_Cons)
  ultimately show ?thesis using followup_chain_texts [of t uid'] b by (simp del: upt_Suc)
qed

text \<open>C24: the queue refines an abstract priority queue: on a queue ordered by priority, an
  idle pick after the guard deadline takes a task of maximal priority and removes exactly
  it, and the rest stays ordered.\<close>

theorem idle_pick_refines_del_max:
  assumes s: "sorted (map (\<lambda>x. - task_priority x) (d_queue st))" and ne: "d_queue st \<noteq> []"
    and g: "d_next_dispatch_ts st \<le> now"
    and p: "pick_next_task cfg ep False now uid rnd pls items st = (Some t, st')"
  shows "task_priority t = Max (task_priority ` set (d_queue st)) \<and>
         mset (d_queue st') = mset (d_queue st) - {#t#} \<and>
         sorted (map (\<lambda>x. - task_priority x) (d_queue st'))"
proof -
  have e: "t = hd (d_queue st)" "d_queue st' = tl (d_queue st)"
    using p ne g by (auto simp: pick_next_task_def Let_def)
  have "mset (tl (d_queue st)) = mset (d_queue st) - {#hd (d_queue st)#}"
    using ne by (cases "d_queue st") simp_all
  moreover have "sorted (map (\<lambda>x. - task_priority x) (tl (d_queue st)))"
    using s by (simp add: map_tl sorted_tl)
  ultimately show ?thesis using e sorted_desc_hd_Max [OF s ne] by simp
qed

subsection \<open>Witnesses\<close>

theorem append_task_stable_priority_witness:
  "let m = \<lparr>meta_reply_id = [], meta_source_trimmed = False, meta_source_chars = 1,
            meta_segment_total = 1, meta_segment_index = 1, meta_pending = [], meta_retries = 0\<rparr>;
       a = \<lparr>task_id = ''a'', task_source = ''reply'', task_text = [65], task_priority = 80,
            task_interrupt = True, task_sequence = 0, task_meta = m\<rparr>;
       b = \<lparr>task_id = ''b'', task_source = ''manual'', task_text = [66], task_priority = 60,
            task_interrupt = False, task_sequence = 0, task_meta = m\<rparr>;
       c = \<lparr>task_id = ''c'', task_source = ''reply'', task_text = [67], task_priority = 80,
            task_interrupt = True, task_sequence = 0, task_meta = m\<rparr>;
       st = dispatcher_init\<lparr>d_queue := [a, b], d_sequence := 2\<rparr>
   in length (d_queue st) < queue_cap \<and> sorted (map (\<lambda>x. - task_priority x) (d_queue st)) \<and>
      d_queue (append_task c st) =
        sort_key (\<lambda>x. - task_priority x) (d_queue st @ [c\<lparr>task_sequence := d_sequence st\<rparr>]) \<and>
      d_queue (append_task c st) = [a, c\<lparr>task_sequence := 2\<rparr>, b]"
  unfolding Let_def
  apply (intro conjI)
     apply (simp add: queue_cap_def dispatcher_init_def)
    apply (simp add: dispatcher_init_def)
   apply (rule append_task_stable_priority)
    apply (simp_all add: queue_cap_def dispatcher_init_def append_task_def insert_index_def py_insert_def)
  done

theorem busy_pick_witness:
  "let m = \<lparr>meta_reply_id = [], meta_source_trimmed = False, meta_source_chars = 1,
            meta_segment_total = 1, meta_segment_index = 1, meta_pending = [], meta_retries = 0\<rparr>;
       a = \<lparr>task_id = ''a'', task_source = ''manual'', task_text = [65], task_priority = 90,
            task_interrupt = False, task_sequence = 0, task_meta = m\<rparr>;
       b = \<lparr>task_id = ''b'', task_source = ''reply'', task_text = [66], task_priority = 80,
            task_interrupt = True, task_sequence = 1, task_meta = m\<rparr>;
       st = dispatcher_init\<lparr>d_queue := [a, b]\<rparr>;
       cfg = dispatcher_config_of \<lparr>denv_segment_max_chars = Unset, denv_max_text_chars = Unset,
               denv_guard_sec = Unset, denv_guard_per_char = Unset, denv_musetalk_guard_sec = Unset,
               denv_musetalk_guard_per_char = Unset, denv_prefetch = None\<rparr>;
       ep = resolve_live_endpoint []
   in pick_next_task cfg ep True 0 ''u'' 0 [] (\<lambda>_. []) st = (Some b, st\<lparr>d_queue := [a]\<rparr>) \<and>
      (task_interrupt b \<or> is_followup_segment b) \<and> b \<in> set (d_queue st)"
proof -
  let ?m = "\<lparr>meta_reply_id = [], meta_source_trimmed = False, meta_source_chars = 1,
            meta_segment_total = 1, meta_segment_index = 1, meta_pending = [], meta_retries = 0\<rparr>"
  let ?a = "\<lparr>task_id = ''a'', task_source = ''manual'', task_text = [65::nat], task_priority = 90,
            task_interrupt = False, task_sequence = 0, task_meta = ?m\<rparr>"
  let ?b = "\<lparr>task_id = ''b'', task_source = ''reply'', task_text = [66::nat], task_priority = 80,
            task_interrupt = True, task_sequence = 1, task_meta = ?m\<rparr>"
  let ?st = "dispatcher_init\<lparr>d_queue := [?a, ?b]\<rparr>"
  let ?cfg = "dispatcher_config_of \<lparr>denv_segment_max_chars = Unset, denv_max_text_chars = Unset,
               denv_guard_sec = Unset, denv_guard_per_char = Unset, denv_musetalk_guard_sec = Unset,
               denv_musetalk_guard_per_char = Unset, denv_prefetch = None\<rparr>"
  let ?ep = "resolve_live_endpoint []"
  have p: "pick_next_task ?cfg ?ep True 0 ''u'' 0 [] (\<lambda>_. []) ?st = (Some ?b, ?st\<lparr>d_queue := [?a]\<rparr>)"
    by (simp add: pick_next_task_def)
  have "(task_interrupt ?b \<or> is_followup_segment ?b) \<and> ?b \<in> set (d_queue ?st)"
    by (rule busy_pick_only_interrupts_or_followups [OF p])
  with p show ?thesis unfolding Let_def by blast
qed

theorem full_queue_evicts_witness:
  "let m = \<lparr>meta_reply_id = [], meta_source_trimmed = False, meta_source_chars = 1,
            meta_segment_total = 1, meta_segment_index = 1, meta_pending = [], meta_retries = 0\<rparr>;
       r = \<lparr>task_id = ''r'', task_source = ''reply'', task_text = [65], task_priority = 80,
            task_interrupt = True, task_sequence = 0, task_meta = m\<rparr>;
       t = \<lparr>task_id = ''t'', task_source = ''manual'', task_text = [66], task_priority = 0,
            task_interrupt = False, task_sequence = 0, task_meta = m\<rparr>;
       st = dispatcher_init\<lparr>d_queue := replicate 500 r\<rparr>
   in queue_cap \<le> length (d_queue st) \<and> (\<forall>x\<in>set (d_queue st). task_priority t < task_priority x) \<and>
      length (d_queue (append_task t st)) = length (d_queue st) \<and>
      t\<lparr>task_sequence := d_sequence st\<rparr> \<in> set (d_queue (append_task t st)) \<and>
      (\<exists>x\<in>set (d_queue st). task_priority t < task_priority x \<and>
          count (mset (d_queue (append_task t st))) x < count (mset (d_queue st)) x)"
  unfolding Let_def
  apply (rule conjI, simp add: queue_cap_def dispatcher_init_def)
  apply (rule conjI, simp add: dispatcher_init_def)
  apply (rule full_queue_evicts_higher_priority)
   apply (simp_all add: queue_cap_def dispatcher_init_def)
  done

theorem failing_task_dropped_witness:
  "let m = \<lparr>meta_reply_id = ''r1'', meta_source_trimmed = False, meta_source_chars = 1,
            meta_segment_total = 1, meta_segment_index = 1, meta_pending = [], meta_retries = 0\<rparr>;
       t = \<lparr>task_id = ''speak_1'', task_source = ''reply'', task_text = [65], task_priority = 80,
            task_interrupt = True, task_sequence = 0, task_meta = m\<rparr>;
       inp = \<lparr>li_running = True, li_cmdline = [], li_speaking = Some False, li_now = 0,
              li_playlists = [], li_items = (\<lambda>_. []), li_random = 0, li_send = Some ''HTTP 500'',
              li_uid = ''u''\<rparr>;
       st = dispatcher_init\<lparr>d_queue := [t]\<rparr>;
       cfg = dispatcher_config_of \<lparr>denv_segment_max_chars = Unset, denv_max_text_chars = Unset,
               denv_guard_sec = Unset, denv_guard_per_char = Unset, denv_musetalk_guard_sec = Unset,
               denv_musetalk_guard_per_char = Unset, denv_prefetch = None\<rparr>
   in failing_input inp ''HTTP 500'' \<and> d_next_dispatch_ts st \<le> li_now inp \<and>
      meta_retries (task_meta t) \<le> max_dispatch_retries \<and>
      d_queue ((loop_iteration cfg inp ^^ (Suc max_dispatch_retries - meta_retries (task_meta t))) st) = [] \<and>
      (task_source t = ''reply'' \<and> meta_reply_id (task_meta t) \<noteq> [] \<longrightarrow>
       d_replies ((loop_iteration cfg inp ^^ (Suc max_dispatch_retries - meta_retries (task_meta t))) st)
         (meta_reply_id (task_meta t)) = Some DispatchFailed)"
  unfolding Let_def
  apply (rule conjI, simp add: failing_input_def resolve_live_endpoint_def default_transport_def)
  apply (rule conjI, simp add: dispatcher_init_def)
  apply (rule conjI, simp add: max_dispatch_retries_def)
  apply (rule failing_task_dropped_after_retries)
     apply (simp_all add: failing_input_def resolve_live_endpoint_def default_transport_def
                          dispatcher_init_def max_dispatch_retries_def)
  done

theorem failed_retry_exceeds_cap_witness:
  "let m = \<lparr>meta_reply_id = ''r1'', meta_source_trimmed = False, meta_source_chars = 1,
            meta_segment_total = 1, meta_segment_index = 1, meta_pending = [], meta_retries = 0\<rparr>;
       t = \<lparr>task_id = ''speak_1'', task_source = ''reply'', task_text = [65], task_priority = 80,
            task_interrupt = False, task_sequence = 0, task_meta = m\<rparr>;
       ep = resolve_live_endpoint [];
       s = \<lparr>ds_disp = dispatcher_init\<lparr>d_queue := replicate 500 t\<rparr>, ds_inflight = Some (t, ep)\<rparr>;
       inp = \<lparr>li_running = True, li_cmdline = [], li_speaking = Some False, li_now = 0,
              li_playlists = [], li_items = (\<lambda>_. []), li_random = 0, li_send = Some ''HTTP 500'',
              li_uid = ''u''\<rparr>;
       cfg = dispatcher_config_of \<lparr>denv_segment_max_chars = Unset, denv_max_text_chars = Unset,
               denv_guard_sec = Unset, denv_guard_per_char = Unset, denv_musetalk_guard_sec = Unset,
               denv_musetalk_guard_per_char = Unset, denv_prefetch = None\<rparr>
   in sys_wf s \<and> ds_inflight s = Some (t, ep) \<and> length (d_queue (ds_disp s)) = queue_cap \<and>
      li_send inp = Some ''HTTP 500'' \<and> meta_retries (task_meta t) < max_dispatch_retries \<and>
      length (d_queue (ds_disp (disp_step cfg (Send inp) s))) = Suc queue_cap \<and>
      \<not> queue_wf (ds_disp (disp_step cfg (Send inp) s)) \<and>
      ds_inflight (disp_step cfg (Send inp) s) = None"
  unfolding Let_def
  apply (rule conjI, simp add: sys_wf_def queue_within_def queue_cap_def prio_ok_def list_all_iff)
  apply (rule conjI, simp)
  apply (rule conjI, simp add: queue_cap_def)
  apply (rule conjI, simp)
  apply (rule conjI, simp add: max_dispatch_retries_def)
  apply (rule failed_retry_exceeds_cap)
     apply simp
    apply (simp add: queue_cap_def)
   apply simp
  apply (simp add: max_dispatch_retries_def)
  done

theorem segments_dispatched_witness:
  "let cfg = dispatcher_config_of \<lparr>denv_segment_max_chars = Num 40, denv_max_text_chars = Unset,
               denv_guard_sec = Unset, denv_guard_per_char = Unset, denv_musetalk_guard_sec = Unset,
               denv_musetalk_guard_per_char = Unset, denv_prefetch = None\<rparr>;
       a = [65,65,65,65,65,65,65,65,65,65,65,65,65,65,65,65,65,65,65,65,65,65,65,65,65,44];
       b = [66,66,66,66,66,66,66,66,66,66,66,66,66,66,66]
   in (\<exists>t. build_segmented_task cfg ''speak'' ''u1'' ''reply'' (32 # a @ b) 80 True ''r1'' = (Some t, 2, 41) \<and>
         map task_text (followup_chain ''u2'' t) = [a, b] \<and>
         map (\<lambda>x. meta_segment_index (task_meta x)) (followup_chain ''u2'' t) = [1..<Suc 2] \<and>
         list_all (\<lambda>x. meta_segment_total (task_meta x) = 2) (followup_chain ''u2'' t))"
proof -
  let ?cfg = "dispatcher_config_of \<lparr>denv_segment_max_chars = Num 40, denv_max_text_chars = Unset,
               denv_guard_sec = Unset, denv_guard_per_char = Unset, denv_musetalk_guard_sec = Unset,
               denv_musetalk_guard_per_char = Unset, denv_prefetch = None\<rparr>"
  let ?a = "[65,65,65,65,65,65,65,65,65,65,65,65,65,65,65,65,65,65,65,65,65,65,65,65,65,44] :: nat list"
  let ?b = "[66,66,66,66,66,66,66,66,66,66,66,66,66,66,66] :: nat list"
  have c: "segment_max_chars ?cfg = 40" "max_text_chars ?cfg = 200000"
    by (simp_all add: dispatcher_config_of_def read_env_int_def Let_def)
  have ns: "py_strip (32 # ?a @ ?b) = ?a @ ?b"
    by (simp add: py_strip_def strip_by_def py_isspace_def)
  have n: "normalize_source ?cfg (32 # ?a @ ?b) = (False, ?a @ ?b)"
    using ns by (simp add: normalize_source_def Let_def c)
  have s: "split_text_for_speech (?a @ ?b) 40 = [?a, ?b]"
    by (simp add: split_text_for_speech_def split_step_def speech_punct_def py_strip_def strip_by_def
                  py_isspace_def)
  have "\<exists>t. build_segmented_task ?cfg ''speak'' ''u1'' ''reply'' (32 # ?a @ ?b) 80 True ''r1'' = (Some t, 2, 41)"
    using n s ns by (simp add: build_segmented_task_def Let_def c)
  then obtain t where bt: "build_segmented_task ?cfg ''speak'' ''u1'' ''reply'' (32 # ?a @ ?b) 80 True ''r1'' = (Some t, 2, 41)"
    by blast
  have "map task_text (followup_chain ''u2'' t) = split_text_for_speech (snd (normalize_source ?cfg (32 # ?a @ ?b))) (segment_max_chars ?cfg) \<and>
        map (\<lambda>x. meta_segment_index (task_meta x)) (followup_chain ''u2'' t) = [1..<Suc 2] \<and>
        list_all (\<lambda>x. meta_segment_total (task_meta x) = 2) (followup_chain ''u2'' t)"
    by (rule segments_dispatched_in_order [OF bt])
  then show ?thesis unfolding Let_def using bt n s c by auto
qed

theorem idle_pick_refines_del_max_witness:
  "let m = \<lparr>meta_reply_id = [], meta_source_trimmed = False, meta_source_chars = 1,
            meta_segment_total = 1, meta_segment_index = 1, meta_pending = [], meta_retries = 0\<rparr>;
       a = \<lparr>task_id = ''a'', task_source = ''reply'', task_text = [65], task_priority = 80,
            task_interrupt = True, task_sequence = 0, task_meta = m\<rparr>;
       b = \<lparr>task_id = ''b'', task_source = ''manual'', task_text = [66], task_priority = 60,
            task_interrupt = False, task_sequence = 1, task_meta = m\<rparr>;
       st = dispatcher_init\<lparr>d_queue := [a, b]\<rparr>;
       cfg = dispatcher_config_of \<lparr>denv_segment_max_chars = Unset, denv_max_text_chars = Unset,
               denv_guard_sec = Unset, denv_guard_per_char = Unset, denv_musetalk_guard_sec = Unset,
               denv_musetalk_guard_per_char = Unset, denv_prefetch = None\<rparr>;
       ep = resolve_live_endpoint []
   in pick_next_task cfg ep False 1 ''u'' 0 [] (\<lambda>_. []) st = (Some a, st\<lparr>d_queue := [b]\<rparr>) \<and>
      task_priority a = Max (task_priority ` set (d_queue st)) \<and>
      mset (d_queue (st\<lparr>d_queue := [b]\<rparr>)) = mset (d_queue st) - {#a#} \<and>
      sorted (map (\<lambda>x. - task_priority x) (d_queue (st\<lparr>d_queue := [b]\<rparr>)))"
  unfolding Let_def
  apply (rule conjI, simp add: pick_next_task_def dispatcher_init_def)
  apply (rule idle_pick_refines_del_max [where now = 1])
     apply (simp_all add: pick_next_task_def dispatcher_init_def)
  done
end
