(* ===== verification/JobRunner.thy ===== *)
theory JobRunner
  imports Prelude
begin

text \<open>
  JobRunner: \<open>src/apps/control_api/job_runner.py\<close>.  Jobs are rows of the SQLite
  \<open>jobs\<close> table with a status (\<open>queued\<close>, \<open>running\<close>, \<open>succeeded\<close>,
  \<open>failed\<close>, \<open>cancelled\<close>), a retry count and a retry budget.  One worker thread
  takes job ids from an in-memory \<open>queue.Queue\<close>, runs the job's handler and, when
  the handler raises, either re-queues the job after a back-off or marks it failed.  The
  API thread creates, retries and cancels jobs concurrently.

  The state is the \<open>jobs\<close> table (its rows \<open>(id, row)\<close> in creation order, which
  is the order of \<open>ORDER BY created_at\<close>), the queue, the \<open>_runtime\<close> cancel flags, the
  jobs sleeping in their back-off, the job the worker is running, and the \<open>job_logs\<close>
  rows as \<open>(job_id, level)\<close>.  \<open>_run_job\<close> is three steps of the worker, so that
  the API thread can cancel in between: the take (\<open>q.get()\<close>, the \<open>SELECT\<close> and its
  \<open>cancelled\<close> check), the start (the \<open>UPDATE\<close> to \<open>running\<close> and the launch of the
  handler) and the end with the handler's outcome.  The worker sleeps through a job's
  back-off inside \<open>_handle_job_failure\<close>, so it takes nothing while a back-off runs.  The handlers
  (\<open>_handle_avatar_clone\<close>, \<open>_handle_voice_clone\<close>: subprocesses, HTTP, files) are
  their outcome, \<open>Inl\<close> the message they raise or \<open>Inr\<close> the result JSON; a
  terminated subprocess makes the handler raise.  Log messages are not modelled, only
  their levels.
\<close>

subsection \<open>Jobs\<close>

datatype job_status = Queued | Running | Succeeded | Failed | Cancelled

datatype log_level = INFO | WARN | ERROR

text \<open>The keys of \<open>payload\<close> the runner reads itself; the rest is opaque JSON.\<close>

record job_payload =
  jp_max_retries :: "int env_num"
  jp_retry_backoff_sec :: "int env_num"
  jp_data :: string

record job_row =
  job_type :: string
  job_payload :: job_payload
  job_status :: job_status
  job_progress :: nat
  job_retry_count :: int
  job_max_retries :: int
  job_retry_backoff_sec :: int
  job_parent :: "string option"
  job_result :: "string option"
  job_error :: "string option"

text \<open>\<open>RuntimeState\<close>: the cancel flag and the handler's subprocess, if any: none, running
  (\<open>poll() is None\<close>), or terminated by a cancel.\<close>

datatype proc_state = NoProcess | Alive | Terminated

record runtime_state =
  cancel_requested :: bool
  running_process :: proc_state

record job_runner =
  jr_jobs :: "(string \<times> job_row) list"
  jr_queue :: "string list"
  jr_runtime :: "string \<rightharpoonup> runtime_state"
  jr_backoff :: "string list"
  jr_current :: "string option"
  jr_checked :: "string option"
  jr_logs :: "(string \<times> log_level) list"

definition clone_job_types :: "string list" where
  "clone_job_types = [''avatar.clone.wav2lip'', ''voice.clone.xtts'']"

definition new_runtime :: runtime_state where
  "new_runtime = \<lparr>cancel_requested = False, running_process = NoProcess\<rparr>"

text \<open>\<open>self._runtime.setdefault(job_id, RuntimeState())\<close>\<close>

definition runtime_setdefault :: "string \<Rightarrow> job_runner \<Rightarrow> job_runner" where
  "runtime_setdefault jid st =
     (case jr_runtime st jid of
        Some _ \<Rightarrow> st
      | None \<Rightarrow> st\<lparr>jr_runtime := (jr_runtime st)(jid \<mapsto> new_runtime)\<rparr>)"

definition append_log :: "string \<Rightarrow> log_level \<Rightarrow> job_runner \<Rightarrow> job_runner" where
  "append_log jid lvl st = st\<lparr>jr_logs := jr_logs st @ [(jid, lvl)]\<rparr>"

definition update_job :: "string \<Rightarrow> (job_row \<Rightarrow> job_row) \<Rightarrow> job_runner \<Rightarrow> job_runner" where
  "update_job jid f st = st\<lparr>jr_jobs := map (\<lambda>(k, r). if k = jid then (k, f r) else (k, r)) (jr_jobs st)\<rparr>"

definition lookup_job :: "job_runner \<Rightarrow> string \<Rightarrow> job_row option" where
  "lookup_job st jid = map_of (jr_jobs st) jid"

subsection \<open>Retry configuration\<close>

text \<open>
  \<open>_resolve_retry_config\<close>: an absent or null value takes the default, which is then
  clamped like a given value; a value \<open>int()\<close> rejects takes the default unclamped.
\<close>

definition resolve_retry_config :: "string \<Rightarrow> job_payload \<Rightarrow> int \<times> int" where
  "resolve_retry_config jtype payload =
     (let default_max = (if jtype \<in> set clone_job_types then 2 else 0);
          default_backoff = 5;
          mr = (case jp_max_retries payload of
                  Unset \<Rightarrow> max 0 (min 5 default_max)
                | Num n \<Rightarrow> max 0 (min 5 n)
                | _ \<Rightarrow> default_max);
          bo = (case jp_retry_backoff_sec payload of
                  Unset \<Rightarrow> max 1 (min 120 default_backoff)
                | Num n \<Rightarrow> max 1 (min 120 n)
                | _ \<Rightarrow> default_backoff)
      in (mr, bo))"

subsection \<open>Operations of the API thread\<close>

text \<open>
  \<open>create_job\<close>; the \<open>INSERT\<close> fails on an id already in the table
  (\<open>sqlite3.IntegrityError\<close>, \<open>None\<close>), before anything else happens.
\<close>

definition create_job ::
  "string \<Rightarrow> string \<Rightarrow> job_payload \<Rightarrow> string option \<Rightarrow> job_runner \<Rightarrow> (string \<times> job_runner) option" where
  "create_job uid jtype payload parent st =
     (let jid = ''job_'' @ uid in
      if lookup_job st jid \<noteq> None then None else
      let
          (mr, bo) = resolve_retry_config jtype payload;
          row = \<lparr>job_type = jtype, job_payload = payload, job_status = Queued, job_progress = 0,
                 job_retry_count = 0, job_max_retries = mr, job_retry_backoff_sec = bo,
                 job_parent = parent, job_result = None, job_error = None\<rparr>;
          st1 = st\<lparr>jr_jobs := jr_jobs st @ [(jid, row)]\<rparr>;
          st2 = append_log jid INFO (append_log jid INFO st1);
          st3 = st2\<lparr>jr_runtime := (jr_runtime st2)(jid \<mapsto> new_runtime)\<rparr>
      in Some (jid, st3\<lparr>jr_queue := jr_queue st3 @ [jid]\<rparr>))"

datatype job_api_error = JobNotFound | JobStillActive | JobTypeMissing | DuplicateJobId

definition retry_job :: "string \<Rightarrow> string \<Rightarrow> job_runner \<Rightarrow> job_api_error + string \<times> job_runner" where
  "retry_job uid source st =
     (case lookup_job st source of
        None \<Rightarrow> Inl JobNotFound
      | Some row \<Rightarrow>
          if job_status row \<in> {Queued, Running} then Inl JobStillActive
          else if job_type row = [] then Inl JobTypeMissing
          else
            case create_job uid (job_type row) (job_payload row) (Some source) st of
              None \<Rightarrow> Inl DuplicateJobId
            | Some (jid, st1) \<Rightarrow> Inr (jid, append_log source INFO st1))"

text \<open>\<open>cancel_job\<close>: \<open>False\<close> for an unknown job; a finished job is left alone; otherwise
  the cancel flag is set, a live subprocess terminated, and a queued job cancelled.\<close>

definition cancel_job :: "string \<Rightarrow> job_runner \<Rightarrow> bool \<times> job_runner" where
  "cancel_job jid st =
     (case lookup_job st jid of
        None \<Rightarrow> (False, st)
      | Some row \<Rightarrow>
          if job_status row \<in> {Succeeded, Failed, Cancelled} then (True, st)
          else
            let st1 = runtime_setdefault jid st;
                st2 = st1\<lparr>jr_runtime := (jr_runtime st1)(jid := map_option
                          (\<lambda>r. r\<lparr>cancel_requested := True,
                             running_process := (if running_process r = Alive then Terminated else running_process r)\<rparr>) (jr_runtime st1 jid))\<rparr>;
                st3 = update_job jid (\<lambda>r. if job_status r = Queued then r\<lparr>job_status := Cancelled\<rparr> else r) st2
            in (True, append_log jid WARN st3))"

definition is_cancelled :: "string \<Rightarrow> job_runner \<Rightarrow> bool" where
  "is_cancelled jid st = (case jr_runtime st jid of Some r \<Rightarrow> cancel_requested r | None \<Rightarrow> False)"

text \<open>\<open>_recover_incomplete_jobs\<close> at start: queued and running jobs, oldest first, are
  queued again, running ones first reset to queued.\<close>

definition recover_one :: "job_runner \<Rightarrow> string \<Rightarrow> job_runner" where
  "recover_one st jid =
     (case lookup_job st jid of
        Some row \<Rightarrow>
          if job_status row \<in> {Queued, Running} then
            let st1 = (if job_status row = Running
                       then append_log jid WARN (update_job jid (\<lambda>r. r\<lparr>job_status := Queued\<rparr>) st)
                       else st);
                st2 = runtime_setdefault jid st1
            in append_log jid INFO (st2\<lparr>jr_queue := jr_queue st2 @ [jid]\<rparr>)
          else st
      | None \<Rightarrow> st)"

definition recover_incomplete_jobs :: "job_runner \<Rightarrow> job_runner" where
  "recover_incomplete_jobs st = foldl recover_one st (map fst (jr_jobs st))"

subsection \<open>The worker\<close>

text \<open>
  \<open>_handle_job_failure\<close>: a cancelled row stays cancelled; with retries left and no
  cancel the job goes back to \<open>queued\<close> and sleeps its back-off; otherwise it fails.
  The error text is cut to 1000 characters.
\<close>

definition handle_job_failure :: "string \<Rightarrow> string \<Rightarrow> job_runner \<Rightarrow> job_runner" where
  "handle_job_failure jid err st =
     (case lookup_job st jid of
        None \<Rightarrow> st
      | Some row \<Rightarrow>
          if job_status row = Cancelled then append_log jid WARN st
          else if job_retry_count row < job_max_retries row \<and> \<not> is_cancelled jid st then
            let st1 = update_job jid (\<lambda>r. r\<lparr>job_status := Queued, job_progress := 0,
                         job_retry_count := job_retry_count row + 1, job_error := Some (take 1000 err)\<rparr>) st
            in append_log jid WARN st1\<lparr>jr_backoff := jr_backoff st1 @ [jid]\<rparr>
          else
            append_log jid ERROR
              (update_job jid (\<lambda>r. r\<lparr>job_status := Failed, job_error := Some (take 1000 err)\<rparr>) st))"

text \<open>The end of the back-off sleep: the job is queued again unless it was cancelled.\<close>

definition backoff_done :: "string \<Rightarrow> job_runner \<Rightarrow> job_runner" where
  "backoff_done jid st =
     (if jid \<in> set (jr_backoff st) then
        let st1 = st\<lparr>jr_backoff := remove1 jid (jr_backoff st)\<rparr> in
        if is_cancelled jid st1 then st1 else st1\<lparr>jr_queue := jr_queue st1 @ [jid]\<rparr>
      else st)"

definition unsupported_job_type :: string where
  "unsupported_job_type = ''unsupported job type''"

text \<open>
  The take: \<open>q.get()\<close> of the head of the queue by the idle worker (not running a job
  and not sleeping in a back-off), then the \<open>SELECT\<close>: a vanished or \<open>cancelled\<close> job is
  skipped; otherwise the worker holds the checked job (\<open>jr_checked\<close>).  An empty queue
  blocks \<open>q.get()\<close>.
\<close>

definition work_take :: "job_runner \<Rightarrow> job_runner" where
  "work_take st =
     (case (jr_current st, jr_checked st, jr_backoff st, jr_queue st) of
        (None, None, [], jid # rest) \<Rightarrow>
          let st0 = st\<lparr>jr_queue := rest\<rparr> in
          (case lookup_job st0 jid of
             None \<Rightarrow> st0
           | Some row \<Rightarrow>
               if job_status row = Cancelled then append_log jid WARN st0
               else st0\<lparr>jr_checked := Some jid\<rparr>)
      | _ \<Rightarrow> st)"

text \<open>
  The start of the checked job: the \<open>UPDATE\<close> to \<open>running\<close>, whatever the row's status
  is by now, then an unknown type raises (handled at once) or the handler starts, which
  may launch a subprocess (\<open>spawns\<close>).
\<close>

definition work_start :: "bool \<Rightarrow> job_runner \<Rightarrow> job_runner" where
  "work_start spawns st =
     (case jr_checked st of
        None \<Rightarrow> st
      | Some jid \<Rightarrow>
          let st0 = st\<lparr>jr_checked := None\<rparr> in
          (case lookup_job st0 jid of
             None \<Rightarrow> st0
           | Some row \<Rightarrow>
               let st1 = append_log jid INFO
                           (update_job jid (\<lambda>r. r\<lparr>job_status := Running, job_progress := 1, job_error := None\<rparr>) st0)
               in if job_type row \<notin> set clone_job_types then handle_job_failure jid unsupported_job_type st1
                  else
                    let st2 = runtime_setdefault jid st1 in
                    st2\<lparr>jr_current := Some jid,
                        jr_runtime := (jr_runtime st2)(jid := map_option
                           (\<lambda>r. r\<lparr>running_process := (if spawns then Alive else NoProcess)\<rparr>) (jr_runtime st2 jid))\<rparr>))"

definition subprocess_failed :: string where
  "subprocess_failed = ''command failed with a non-zero exit code''"

text \<open>
  The second half: the handler returns its outcome, or raises because its subprocess
  was terminated (\<open>proc.wait()\<close> non-zero); the \<open>finally\<close> clears the process.  On
  success the cancel flag is checked again before the job is marked succeeded.
\<close>

definition work_finish :: "string + string \<Rightarrow> job_runner \<Rightarrow> job_runner" where
  "work_finish outcome st =
     (case jr_current st of
        None \<Rightarrow> st
      | Some jid \<Rightarrow>
          let killed = (case jr_runtime st jid of Some r \<Rightarrow> running_process r = Terminated | None \<Rightarrow> False);
              st0 = st\<lparr>jr_current := None,
                       jr_runtime := (jr_runtime st)(jid := map_option
                          (\<lambda>r. r\<lparr>running_process := NoProcess\<rparr>) (jr_runtime st jid))\<rparr>
          in case (if killed then Inl subprocess_failed else outcome) of
               Inl err \<Rightarrow> handle_job_failure jid err st0
             | Inr res \<Rightarrow>
                 if is_cancelled jid st0
                 then append_log jid WARN (update_job jid (\<lambda>r. r\<lparr>job_status := Cancelled\<rparr>) st0)
                 else append_log jid INFO (update_job jid (\<lambda>r. r\<lparr>job_status := Succeeded, job_progress := 100,
                                                            job_result := Some res, job_error := None\<rparr>) st0))"

text \<open>The runner's operations and its worker as one step function.\<close>

datatype job_event =
    Create string string job_payload
  | Retry string string
  | Cancel string
  | WorkTake
  | WorkStart bool
  | WorkFinish "string + string"
  | BackoffDone string

fun jr_step :: "job_event \<Rightarrow> job_runner \<Rightarrow> job_runner" where
  "jr_step (Create uid jtype payload) st =
     (case create_job uid jtype payload None st of Some (_, st') \<Rightarrow> st' | None \<Rightarrow> st)"
| "jr_step (Retry uid source) st = (case retry_job uid source st of Inr (_, st') \<Rightarrow> st' | Inl _ \<Rightarrow> st)"
| "jr_step (Cancel jid) st = snd (cancel_job jid st)"
| "jr_step WorkTake st = work_take st"
| "jr_step (WorkStart spawns) st = work_start spawns st"
| "jr_step (WorkFinish outcome) st = work_finish outcome st"
| "jr_step (BackoffDone jid) st = backoff_done jid st"

text \<open>\<open>start()\<close> in a fresh process: the table persists, everything in memory is new, and
  the incomplete jobs are recovered.\<close>

definition jr_boot :: "(string \<times> job_row) list \<Rightarrow> job_runner" where
  "jr_boot jobs =
     recover_incomplete_jobs
       \<lparr>jr_jobs = jobs, jr_queue = [], jr_runtime = Map.empty, jr_backoff = [],
        jr_current = None, jr_checked = None, jr_logs = []\<rparr>"

subsection \<open>Invariant\<close>

definition is_final :: "job_status \<Rightarrow> bool" where
  "is_final s \<longleftrightarrow> s \<in> {Succeeded, Failed, Cancelled}"

text \<open>The job ids the worker still holds: queued, sleeping in a back-off, checked, or running.\<close>

definition checked_ids :: "job_runner \<Rightarrow> string list" where
  "checked_ids st = (case jr_checked st of Some j \<Rightarrow> [j] | None \<Rightarrow> [])"

definition pipeline_ids :: "job_runner \<Rightarrow> string list" where
  "pipeline_ids st = jr_queue st @ jr_backoff st @ checked_ids st @
                     (case jr_current st of Some j \<Rightarrow> [j] | None \<Rightarrow> [])"

text \<open>
  Each held id is held once; a queued, sleeping or checked id names a \<open>queued\<close> or
  \<open>cancelled\<close> row, the running one a \<open>running\<close> row.
\<close>

definition jr_inv :: "job_runner \<Rightarrow> bool" where
  "jr_inv st \<longleftrightarrow>
     distinct (pipeline_ids st) \<and>
     list_all (\<lambda>j. case lookup_job st j of Some r \<Rightarrow> job_status r \<in> {Queued, Cancelled} | None \<Rightarrow> False)
       (jr_queue st @ jr_backoff st @ checked_ids st) \<and>
     (case jr_current st of Some j \<Rightarrow> map_option job_status (lookup_job st j) = Some Running | None \<Rightarrow> True)"

subsection \<open>Lemmas\<close>

lemma lookup_update_job [simp]:
  "lookup_job (update_job jid f st) j = (if j = jid then map_option f (lookup_job st j) else lookup_job st j)"
  by (simp add: lookup_job_def update_job_def map_of_map_at)

lemma update_job_fields [simp]:
  "jr_queue (update_job jid f st) = jr_queue st" "jr_backoff (update_job jid f st) = jr_backoff st"
  "jr_current (update_job jid f st) = jr_current st" "jr_runtime (update_job jid f st) = jr_runtime st"
  "jr_checked (update_job jid f st) = jr_checked st"
  by (simp_all add: update_job_def)

lemma append_log_fields [simp]:
  "lookup_job (append_log jid l st) j = lookup_job st j"
  "jr_queue (append_log jid l st) = jr_queue st" "jr_backoff (append_log jid l st) = jr_backoff st"
  "jr_current (append_log jid l st) = jr_current st" "jr_runtime (append_log jid l st) = jr_runtime st"
  "jr_checked (append_log jid l st) = jr_checked st"
  by (simp_all add: append_log_def lookup_job_def)

lemma runtime_setdefault_fields [simp]:
  "lookup_job (runtime_setdefault jid st) j = lookup_job st j"
  "jr_queue (runtime_setdefault jid st) = jr_queue st" "jr_backoff (runtime_setdefault jid st) = jr_backoff st"
  "jr_current (runtime_setdefault jid st) = jr_current st"
  "jr_checked (runtime_setdefault jid st) = jr_checked st"
  by (simp_all add: runtime_setdefault_def lookup_job_def split: option.splits)

lemma lookup_runtime_update [simp]:
  "lookup_job (st\<lparr>jr_runtime := x\<rparr>) j = lookup_job st j"
  "lookup_job (st\<lparr>jr_queue := q\<rparr>) j = lookup_job st j"
  "lookup_job (st\<lparr>jr_backoff := b\<rparr>) j = lookup_job st j"
  "lookup_job (st\<lparr>jr_current := c\<rparr>) j = lookup_job st j"
  "lookup_job (st\<lparr>jr_current := c, jr_runtime := x\<rparr>) j = lookup_job st j"
  "lookup_job (st\<lparr>jr_checked := k\<rparr>) j = lookup_job st j"
  by (simp_all add: lookup_job_def)

lemma jr_checked_ops [simp]:
  "jr_checked (handle_job_failure jid err st) = jr_checked st"
  "jr_checked (snd (cancel_job jid st)) = jr_checked st"
  "jr_checked (backoff_done jid st) = jr_checked st"
  by (simp_all add: handle_job_failure_def cancel_job_def backoff_done_def Let_def split: option.splits)

lemma checked_ids_simps [simp]:
  "checked_ids (update_job jid f st) = checked_ids st"
  "checked_ids (append_log jid l st) = checked_ids st"
  "checked_ids (runtime_setdefault jid st) = checked_ids st"
  "checked_ids (handle_job_failure jid err st) = checked_ids st"
  "checked_ids (st\<lparr>jr_checked := None\<rparr>) = []"
  "checked_ids (st\<lparr>jr_checked := Some j\<rparr>) = [j]"
  "checked_ids (st\<lparr>jr_queue := q\<rparr>) = checked_ids st"
  "checked_ids (st\<lparr>jr_backoff := b\<rparr>) = checked_ids st"
  "checked_ids (st\<lparr>jr_runtime := x\<rparr>) = checked_ids st"
  "checked_ids (st\<lparr>jr_current := c\<rparr>) = checked_ids st"
  "checked_ids (st\<lparr>jr_current := c, jr_runtime := x\<rparr>) = checked_ids st"
  by (simp_all add: checked_ids_def)

lemma work_take_idle:
  "\<not> (jr_current st = None \<and> jr_checked st = None \<and> jr_backoff st = [] \<and> jr_queue st \<noteq> []) \<Longrightarrow>
   work_take st = st"
  by (cases "jr_current st"; cases "jr_checked st"; cases "jr_backoff st"; cases "jr_queue st")
     (simp_all add: work_take_def)

text \<open>What each operation does to the row of another job: nothing.\<close>

lemma handle_job_failure_other:
  "j \<noteq> jid \<Longrightarrow> lookup_job (handle_job_failure jid err st) j = lookup_job st j"
  by (simp add: handle_job_failure_def Let_def split: option.splits)

lemma create_job_Some:
  "create_job uid jtype payload parent st = Some (jid, st') \<Longrightarrow>
   lookup_job st jid = None \<and> jid = ''job_'' @ uid \<and>
   (\<forall>j. j \<noteq> jid \<longrightarrow> lookup_job st' j = lookup_job st j) \<and>
   jr_queue st' = jr_queue st @ [jid] \<and> jr_backoff st' = jr_backoff st \<and> jr_current st' = jr_current st \<and>
   jr_checked st' = jr_checked st \<and> map_option job_status (lookup_job st' jid) = Some Queued"
  by (auto simp: create_job_def Let_def append_log_def lookup_job_def map_add_def split: prod.splits if_splits option.splits)

lemma handle_job_failure_inv:
  assumes inv: "jr_inv st" and np: "jid \<notin> set (pipeline_ids st)"
    and run: "map_option job_status (lookup_job st jid) = Some Running"
  shows "jr_inv (handle_job_failure jid err st)"
proof -
  obtain row where row: "lookup_job st jid = Some row" "job_status row = Running" using run by auto
  show ?thesis
  proof (cases "job_retry_count row < job_max_retries row \<and> \<not> is_cancelled jid st")
    case True
    then show ?thesis using inv np row
      by (auto simp: handle_job_failure_def jr_inv_def pipeline_ids_def list_all_iff Let_def
               split: option.splits)
  next
    case False
    then show ?thesis using inv np row
      by (auto simp: handle_job_failure_def jr_inv_def pipeline_ids_def list_all_iff Let_def
               split: option.splits)
  qed
qed

lemma cancel_job_inv: "jr_inv st \<Longrightarrow> jr_inv (snd (cancel_job jid st))"
  by (auto simp: cancel_job_def Let_def jr_inv_def pipeline_ids_def list_all_iff
           split: option.splits)

lemma backoff_done_inv: "jr_inv st \<Longrightarrow> jr_inv (backoff_done jid st)"
  by (auto simp: backoff_done_def Let_def jr_inv_def pipeline_ids_def list_all_iff is_cancelled_def
           split: option.splits)


lemma create_job_inv:
  "jr_inv st \<Longrightarrow> create_job uid jtype payload parent st = Some (jid, st') \<Longrightarrow> jr_inv st'"
proof -
  assume inv: "jr_inv st" and c: "create_job uid jtype payload parent st = Some (jid, st')"
  note f = create_job_Some [OF c]
  have held: "\<forall>j\<in>set (pipeline_ids st). lookup_job st j \<noteq> None"
    using inv by (auto simp: jr_inv_def pipeline_ids_def list_all_iff split: option.splits)
  then have np: "jid \<notin> set (pipeline_ids st)" using f by auto
  have fr: "\<forall>j. j \<noteq> jid \<longrightarrow> lookup_job st' j = lookup_job st j" using f by blast
  have q: "\<forall>j\<in>set (jr_queue st @ jr_backoff st @ checked_ids st). lookup_job st' j = lookup_job st j"
  proof
    fix j assume "j \<in> set (jr_queue st @ jr_backoff st @ checked_ids st)"
    then have "j \<noteq> jid" using np by (auto simp: pipeline_ids_def)
    then show "lookup_job st' j = lookup_job st j" using fr by blast
  qed
  have cur: "\<forall>j. jr_current st = Some j \<longrightarrow> lookup_job st' j = lookup_job st j"
  proof (intro allI impI)
    fix j assume "jr_current st = Some j"
    then have "j \<noteq> jid" using np by (auto simp: pipeline_ids_def)
    then show "lookup_job st' j = lookup_job st j" using fr by blast
  qed
  have "distinct (pipeline_ids st')" using inv np f by (simp add: jr_inv_def pipeline_ids_def checked_ids_def)
  moreover have "list_all (\<lambda>j. case lookup_job st' j of Some r \<Rightarrow> job_status r \<in> {Queued, Cancelled} | None \<Rightarrow> False)
       (jr_queue st' @ jr_backoff st' @ checked_ids st')"
    using inv q f by (auto simp: jr_inv_def list_all_iff checked_ids_def simp del: append_Cons split: option.splits)
  moreover have "case jr_current st' of Some j \<Rightarrow> map_option job_status (lookup_job st' j) = Some Running | None \<Rightarrow> True"
    using inv cur f by (auto simp: jr_inv_def split: option.splits)
  ultimately show ?thesis by (simp add: jr_inv_def)
qed

lemma jr_inv_append_log [simp]: "jr_inv (append_log j l st) = jr_inv st"
  by (simp add: jr_inv_def pipeline_ids_def checked_ids_def split: option.splits)

lemma retry_job_inv: "jr_inv st \<Longrightarrow> retry_job uid src st = Inr (jid, st') \<Longrightarrow> jr_inv st'"
proof -
  assume inv: "jr_inv st" and r: "retry_job uid src st = Inr (jid, st')"
  have "\<exists>(row :: job_row) st1. create_job uid (job_type row) (job_payload row) (Some src) st = Some (jid, st1) \<and>
      st' = append_log src INFO st1"
    using r by (auto simp: retry_job_def split: option.splits if_splits)
  then obtain row :: job_row and st1 where "create_job uid (job_type row) (job_payload row) (Some src) st = Some (jid, st1)"
      and "st' = append_log src INFO st1"
    by blast
  then show ?thesis using create_job_inv [OF inv] by simp
qed

text \<open>Taking the head of the queue and starting it: the other held ids keep their rows.\<close>

lemma work_take_inv: "jr_inv st \<Longrightarrow> jr_inv (work_take st)"
proof -
  assume inv: "jr_inv st"
  show ?thesis
  proof (cases "jr_current st = None \<and> jr_checked st = None \<and> jr_backoff st = [] \<and> jr_queue st \<noteq> []")
    case False
    then show ?thesis using inv work_take_idle by simp
  next
    case True
    then obtain jid rest where c: "jr_current st = None" "jr_checked st = None" "jr_backoff st = []"
      "jr_queue st = jid # rest"
      by (cases "jr_queue st") auto
    let ?st0 = "st\<lparr>jr_queue := rest\<rparr>"
    have wt: "work_take st =
        (case lookup_job ?st0 jid of
           None \<Rightarrow> ?st0
         | Some row \<Rightarrow> if job_status row = Cancelled then append_log jid WARN ?st0
                      else ?st0\<lparr>jr_checked := Some jid\<rparr>)"
      by (simp add: work_take_def c Let_def)
    have inv0: "jr_inv ?st0" using inv c by (auto simp: jr_inv_def pipeline_ids_def checked_ids_def)
    have np: "jid \<notin> set rest" using inv c by (auto simp: jr_inv_def pipeline_ids_def)
    have hd: "case lookup_job st jid of Some r \<Rightarrow> job_status r \<in> {Queued, Cancelled} | None \<Rightarrow> False"
      using inv c by (auto simp: jr_inv_def)
    have chk: "jr_inv (?st0\<lparr>jr_checked := Some jid\<rparr>)"
      using inv0 np c hd by (auto simp: jr_inv_def pipeline_ids_def checked_ids_def)
    show ?thesis using wt inv0 chk by (simp split: option.splits)
  qed
qed

lemma work_start_inv: "jr_inv st \<Longrightarrow> jr_inv (work_start spawns st)"
proof (cases "jr_checked st")
  case None
  then show "jr_inv st \<Longrightarrow> ?thesis" by (simp add: work_start_def)
next
  case (Some jid)
  note chk = this
  assume inv: "jr_inv st"
  let ?st0 = "st\<lparr>jr_checked := None\<rparr>"
  have inv0: "jr_inv ?st0" using inv Some
    by (auto simp: jr_inv_def pipeline_ids_def checked_ids_def split: option.splits)
  have np: "jid \<notin> set (pipeline_ids ?st0)"
    using inv Some by (auto simp: jr_inv_def pipeline_ids_def checked_ids_def)
  show ?thesis
  proof (cases "lookup_job st jid")
    case None
    then show ?thesis using chk inv0 by (simp add: work_start_def Let_def)
  next
    case (Some row)
    let ?st1 = "append_log jid INFO
                  (update_job jid (\<lambda>r. r\<lparr>job_status := Running, job_progress := 1, job_error := None\<rparr>) ?st0)"
    have inv1: "jr_inv ?st1"
      using inv0 np by (auto simp: jr_inv_def pipeline_ids_def list_all_iff split: option.splits)
    have run1: "map_option job_status (lookup_job ?st1 jid) = Some Running" using Some by simp
    have np1: "jid \<notin> set (pipeline_ids ?st1)" using np by (simp add: pipeline_ids_def checked_ids_def)
    have fin: "jr_inv (let st2 = runtime_setdefault jid ?st1 in
                  st2\<lparr>jr_current := Some jid,
                      jr_runtime := (jr_runtime st2)(jid := map_option
                         (\<lambda>r. r\<lparr>running_process := (if spawns then Alive else NoProcess)\<rparr>) (jr_runtime st2 jid))\<rparr>)"
      using inv1 np1 run1 by (auto simp: Let_def jr_inv_def pipeline_ids_def checked_ids_def)
    show ?thesis
      using chk Some fin handle_job_failure_inv [OF inv1 np1 run1] by (simp add: work_start_def Let_def)
  qed
qed

lemma work_finish_inv: "jr_inv st \<Longrightarrow> jr_inv (work_finish outcome st)"
proof (cases "jr_current st")
  case None
  then show "jr_inv st \<Longrightarrow> ?thesis" by (simp add: work_finish_def)
next
  case (Some jid)
  assume inv: "jr_inv st"
  define st0 where "st0 = st\<lparr>jr_current := None,
                       jr_runtime := (jr_runtime st)(jid := map_option
                          (\<lambda>r. r\<lparr>running_process := NoProcess\<rparr>) (jr_runtime st jid))\<rparr>"
  define killed where "killed = (case jr_runtime st jid of Some r \<Rightarrow> running_process r = Terminated | None \<Rightarrow> False)"
  have wf: "work_finish outcome st =
      (case (if killed then Inl subprocess_failed else outcome) of
         Inl err \<Rightarrow> handle_job_failure jid err st0
       | Inr res \<Rightarrow>
           if is_cancelled jid st0
           then append_log jid WARN (update_job jid (\<lambda>r. r\<lparr>job_status := Cancelled\<rparr>) st0)
           else append_log jid INFO (update_job jid (\<lambda>r. r\<lparr>job_status := Succeeded, job_progress := 100,
                                                      job_result := Some res, job_error := None\<rparr>) st0))"
    unfolding work_finish_def Let_def st0_def killed_def using Some by (simp only: option.case)
  have np: "jid \<notin> set (pipeline_ids st0)" using inv Some by (simp add: jr_inv_def pipeline_ids_def st0_def)
  have inv0: "jr_inv st0" using inv Some by (simp add: jr_inv_def pipeline_ids_def st0_def)
  have run: "map_option job_status (lookup_job st0 jid) = Some Running"
    using inv Some by (simp add: jr_inv_def st0_def)
  have upd: "jr_inv (update_job jid f st0)" for f
    using inv0 np by (auto simp: jr_inv_def pipeline_ids_def list_all_iff st0_def)
  show ?thesis
    using wf handle_job_failure_inv [OF inv0 np run] upd
    by (simp split: sum.splits)
qed

lemma jr_step_inv: "jr_inv st \<Longrightarrow> jr_inv (jr_step e st)"
proof (cases e)
  case (Create uid jtype payload)
  then show "jr_inv st \<Longrightarrow> ?thesis"
    using create_job_inv [of st uid jtype payload None] by (auto split: option.splits)
next
  case (Retry uid src)
  then show "jr_inv st \<Longrightarrow> ?thesis" using retry_job_inv [of st uid src] by (auto split: sum.splits)
qed (simp_all add: cancel_job_inv work_take_inv work_start_inv work_finish_inv backoff_done_inv)

text \<open>Every operation leaves the rows of the jobs it does not address as they are.\<close>

lemma cancel_job_other: "j \<noteq> jid \<Longrightarrow> lookup_job (snd (cancel_job jid st)) j = lookup_job st j"
  by (simp add: cancel_job_def Let_def split: option.splits)

lemma cancel_job_final:
  "lookup_job st jid = Some r \<Longrightarrow> is_final (job_status r) \<Longrightarrow> snd (cancel_job jid st) = st"
  by (auto simp: cancel_job_def is_final_def)

lemma work_take_row:
  assumes inv: "jr_inv st" and r: "lookup_job st j = Some r" and f: "is_final (job_status r)"
    and c: "jr_checked st \<noteq> Some j"
  shows "lookup_job (work_take st) j = Some r \<and> jr_checked (work_take st) \<noteq> Some j"
proof (cases "jr_current st = None \<and> jr_checked st = None \<and> jr_backoff st = [] \<and> jr_queue st \<noteq> []")
  case False
  then show ?thesis using r c work_take_idle by simp
next
  case True
  then obtain jid rest where cq: "jr_current st = None" "jr_checked st = None" "jr_backoff st = []"
    "jr_queue st = jid # rest"
    by (cases "jr_queue st") auto
  show ?thesis
  proof (cases "j = jid")
    case True
    then have "job_status r = Cancelled"
      using inv cq r f by (auto simp: jr_inv_def is_final_def)
    then show ?thesis using cq r True by (simp add: work_take_def)
  next
    case False
    then show ?thesis using cq r by (auto simp: work_take_def Let_def split: option.splits)
  qed
qed

lemma work_start_row:
  assumes r: "lookup_job st j = Some r" and c: "jr_checked st \<noteq> Some j"
  shows "lookup_job (work_start spawns st) j = Some r \<and> jr_checked (work_start spawns st) \<noteq> Some j"
proof (cases "jr_checked st")
  case None
  then show ?thesis using r by (simp add: work_start_def)
next
  case (Some jid)
  with c have "j \<noteq> jid" by simp
  then show ?thesis using Some r
    by (auto simp: work_start_def Let_def handle_job_failure_other split: option.splits)
qed

lemma work_finish_row:
  assumes inv: "jr_inv st" and r: "lookup_job st j = Some r" and f: "is_final (job_status r)"
  shows "lookup_job (work_finish outcome st) j = Some r \<and> jr_checked (work_finish outcome st) = jr_checked st"
proof (cases "jr_current st")
  case None
  then show ?thesis using r by (simp add: work_finish_def)
next
  case (Some jid)
  have "j \<noteq> jid" using inv Some r f by (auto simp: jr_inv_def is_final_def)
  then show ?thesis using Some r
    by (auto simp: work_finish_def Let_def handle_job_failure_other split: sum.splits)
qed

lemma create_job_row:
  assumes c: "create_job uid jtype payload parent st = Some (jid, st')" and r: "lookup_job st j = Some r"
  shows "lookup_job st' j = Some r"
proof -
  note f = create_job_Some [OF c]
  then have "j \<noteq> jid" using r by auto
  then show ?thesis using f r by metis
qed

lemma jr_step_final_row:
  assumes inv: "jr_inv st" and r: "lookup_job st j = Some r" and f: "is_final (job_status r)"
    and c: "jr_checked st \<noteq> Some j"
  shows "lookup_job (jr_step e st) j = Some r \<and> jr_checked (jr_step e st) \<noteq> Some j"
proof (cases e)
  case (Create uid jtype payload)
  then show ?thesis using r c create_job_row [of uid jtype payload None st] create_job_Some [of uid jtype payload None st]
    by (auto split: option.splits)
next
  case (Retry uid src)
  then show ?thesis using r c create_job_row create_job_Some
    by (auto simp: retry_job_def split: option.splits sum.splits if_splits)
next
  case (Cancel jid)
  then show ?thesis using r c f cancel_job_other [of j jid st] cancel_job_final [of st jid]
    by (cases "j = jid") auto
next
  case WorkTake
  then show ?thesis using work_take_row [OF inv r f c] by simp
next
  case (WorkStart spawns)
  then show ?thesis using work_start_row [OF r c] by simp
next
  case (WorkFinish outcome)
  then show ?thesis using work_finish_row [OF inv r f] c by simp
next
  case (BackoffDone jid)
  then show ?thesis using r c by (simp add: backoff_done_def Let_def)
qed

lemma cancel_job_running:
  assumes "jr_runtime st jid = Some rt" "lookup_job st jid = Some row" "job_status row = Running"
  shows "jr_current (snd (cancel_job jid st)) = jr_current st \<and>
         lookup_job (snd (cancel_job jid st)) jid = Some row \<and>
         jr_runtime (snd (cancel_job jid st)) jid =
           Some (rt\<lparr>cancel_requested := True,
                    running_process := (if running_process rt = Alive then Terminated else running_process rt)\<rparr>)"
  using assms
  by (simp add: cancel_job_def runtime_setdefault_def Let_def)


subsection \<open>Properties\<close>

text \<open>C28: a finished job (succeeded, failed or cancelled) keeps its row unchanged through every
  later operation of the API and the worker, unless it is the job the worker has already
  checked and is about to start: no other interleaving runs, re-queues or rewrites it.\<close>

theorem finished_job_stays_finished:
  "jr_inv st \<Longrightarrow> lookup_job st j = Some r \<Longrightarrow> is_final (job_status r) \<Longrightarrow> jr_checked st \<noteq> Some j \<Longrightarrow>
   lookup_job (fold jr_step es st) j = Some r"
proof (induction es arbitrary: st)
  case Nil
  then show ?case by simp
next
  case (Cons e es)
  then show ?case using jr_step_inv jr_step_final_row by simp
qed

text \<open>C29: a cancel that comes after the worker's \<open>cancelled\<close> check and before its
  \<open>UPDATE\<close> to \<open>running\<close> is overwritten: the job cancelled while queued is marked
  \<open>running\<close> and its handler runs, and when the handler raises the job ends \<open>failed\<close>,
  not \<open>cancelled\<close>.\<close>

theorem cancel_after_check_overwritten:
  assumes chk: "jr_checked st = Some jid" and row: "lookup_job st jid = Some r"
    and q: "job_status r = Queued" and ty: "job_type r \<in> set clone_job_types"
  shows "map_option job_status (lookup_job (jr_step (Cancel jid) st) jid) = Some Cancelled \<and>
         map_option job_status (lookup_job (jr_step (WorkStart spawns) (jr_step (Cancel jid) st)) jid) = Some Running \<and>
         map_option job_status
           (lookup_job (jr_step (WorkFinish (Inl err)) (jr_step (WorkStart spawns) (jr_step (Cancel jid) st))) jid)
           = Some Failed"
proof -
  let ?st1 = "snd (cancel_job jid st)"
  have s1: "lookup_job ?st1 jid = Some (r\<lparr>job_status := Cancelled\<rparr>)" "jr_checked ?st1 = Some jid"
    using row q chk by (simp_all add: cancel_job_def Let_def)
  obtain rt1 where rt1: "jr_runtime ?st1 jid = Some rt1" "cancel_requested rt1"
  proof (cases "jr_runtime st jid")
    case None
    then show ?thesis using row q
      by (auto intro!: that simp: cancel_job_def runtime_setdefault_def Let_def)
  next
    case (Some x)
    then show ?thesis using row q
      by (auto intro!: that simp: cancel_job_def runtime_setdefault_def Let_def)
  qed
  let ?st2 = "work_start spawns ?st1"
  have s2: "lookup_job ?st2 jid = Some (r\<lparr>job_status := Cancelled, job_status := Running, job_progress := 1, job_error := None\<rparr>)"
    "jr_current ?st2 = Some jid"
    "jr_runtime ?st2 jid = Some (rt1\<lparr>running_process := (if spawns then Alive else NoProcess)\<rparr>)"
    using s1 rt1 ty by (simp_all add: work_start_def runtime_setdefault_def Let_def)
  have s3: "map_option job_status (lookup_job (work_finish (Inl err) ?st2) jid) = Some Failed"
    using s2 rt1(2) by (simp add: work_finish_def handle_job_failure_def is_cancelled_def Let_def)
  show ?thesis using s1 s2 s3 by simp
qed

text \<open>C30: cancelling a running clone job does not make it \<open>cancelled\<close> when the handler has a
  subprocess: the terminated subprocess makes the handler raise, and the failure handler,
  seeing the cancel flag, marks the job \<open>failed\<close>.  Only a handler without a subprocess
  that then succeeds ends \<open>cancelled\<close>.\<close>

theorem cancel_running_job:
  assumes cur: "jr_current st = Some jid" and rt: "jr_runtime st jid = Some rt"
    and row: "lookup_job st jid = Some row" "job_status row = Running"
  shows "(running_process rt = Alive \<longrightarrow>
            map_option job_status (lookup_job (work_finish outcome (snd (cancel_job jid st))) jid) = Some Failed) \<and>
         (running_process rt = NoProcess \<longrightarrow>
            map_option job_status (lookup_job (work_finish (Inr res) (snd (cancel_job jid st))) jid) = Some Cancelled)"
  using cancel_job_running [OF rt row] cur row
  by (simp add: work_finish_def handle_job_failure_def is_cancelled_def Let_def)

subsection \<open>Witnesses\<close>

theorem finished_job_stays_finished_witness:
  "let p = \<lparr>jp_max_retries = Unset, jp_retry_backoff_sec = Unset, jp_data = ''{}''\<rparr>;
       a = \<lparr>job_type = ''voice.clone.xtts'', job_payload = p, job_status = Succeeded, job_progress = 100,
            job_retry_count = 0, job_max_retries = 2, job_retry_backoff_sec = 5, job_parent = None,
            job_result = Some ''{}'', job_error = None\<rparr>;
       b = a\<lparr>job_status := Running, job_progress := 1, job_result := None\<rparr>;
       st = jr_boot [(''job_a'', a), (''job_b'', b)]
   in jr_inv st \<and> lookup_job st ''job_a'' = Some a \<and> is_final (job_status a) \<and> jr_checked st \<noteq> Some ''job_a'' \<and>
      lookup_job (fold jr_step [Cancel ''job_a'', WorkTake, WorkStart True, Retry ''c'' ''job_a'', Cancel ''job_b'',
                                WorkFinish (Inl ''boom'')] st) ''job_a'' = Some a"
proof -
  let ?p = "\<lparr>jp_max_retries = Unset, jp_retry_backoff_sec = Unset, jp_data = ''{}''\<rparr>"
  let ?a = "\<lparr>job_type = ''voice.clone.xtts'', job_payload = ?p, job_status = Succeeded, job_progress = 100,
            job_retry_count = 0, job_max_retries = 2, job_retry_backoff_sec = 5, job_parent = None,
            job_result = Some ''{}'', job_error = None\<rparr>"
  let ?b = "?a\<lparr>job_status := Running, job_progress := 1, job_result := None\<rparr>"
  let ?st = "jr_boot [(''job_a'', ?a), (''job_b'', ?b)]"
  have h: "jr_inv ?st" "lookup_job ?st ''job_a'' = Some ?a" "is_final (job_status ?a)"
    "jr_checked ?st \<noteq> Some ''job_a''"
    by (simp_all add: jr_boot_def recover_incomplete_jobs_def recover_one_def jr_inv_def pipeline_ids_def
                      checked_ids_def lookup_job_def update_job_def append_log_def runtime_setdefault_def is_final_def)
  have "lookup_job (fold jr_step [Cancel ''job_a'', WorkTake, WorkStart True, Retry ''c'' ''job_a'', Cancel ''job_b'',
                                WorkFinish (Inl ''boom'')] ?st) ''job_a'' = Some ?a"
    by (rule finished_job_stays_finished [OF h])
  with h show ?thesis unfolding Let_def by blast
qed

theorem cancel_running_job_witness:
  "let p = \<lparr>jp_max_retries = Unset, jp_retry_backoff_sec = Unset, jp_data = ''{}''\<rparr>;
       a = \<lparr>job_type = ''avatar.clone.wav2lip'', job_payload = p, job_status = Running, job_progress = 1,
            job_retry_count = 0, job_max_retries = 2, job_retry_backoff_sec = 5, job_parent = None,
            job_result = None, job_error = None\<rparr>;
       rt = \<lparr>cancel_requested = False, running_process = Alive\<rparr>;
       st = \<lparr>jr_jobs = [(''job_a'', a)], jr_queue = [], jr_runtime = [''job_a'' \<mapsto> rt], jr_backoff = [],
             jr_current = Some ''job_a'', jr_checked = None, jr_logs = []\<rparr>
   in jr_current st = Some ''job_a'' \<and> jr_runtime st ''job_a'' = Some rt \<and>
      lookup_job st ''job_a'' = Some a \<and> job_status a = Running \<and>
      (running_process rt = Alive \<longrightarrow>
         map_option job_status (lookup_job (work_finish (Inr ''{}'') (snd (cancel_job ''job_a'' st))) ''job_a'') = Some Failed) \<and>
      (running_process rt = NoProcess \<longrightarrow>
         map_option job_status (lookup_job (work_finish (Inr ''{}'') (snd (cancel_job ''job_a'' st))) ''job_a'') = Some Cancelled)"
  unfolding Let_def
  apply (rule conjI, simp)
  apply (rule conjI, simp)
  apply (rule conjI, simp add: lookup_job_def)
  apply (rule conjI, simp)
  apply (rule cancel_running_job)
     apply (simp add: lookup_job_def)+
  done
theorem cancel_after_check_overwritten_witness:
  "let p = \<lparr>jp_max_retries = Unset, jp_retry_backoff_sec = Unset, jp_data = ''{}''\<rparr>;
       a = \<lparr>job_type = ''avatar.clone.wav2lip'', job_payload = p, job_status = Queued, job_progress = 0,
            job_retry_count = 0, job_max_retries = 2, job_retry_backoff_sec = 5, job_parent = None,
            job_result = None, job_error = None\<rparr>;
       st = jr_step WorkTake (jr_boot [(''job_a'', a)])
   in jr_checked st = Some ''job_a'' \<and> lookup_job st ''job_a'' = Some a \<and>
      job_status a = Queued \<and> job_type a \<in> set clone_job_types \<and>
      map_option job_status (lookup_job (jr_step (Cancel ''job_a'') st) ''job_a'') = Some Cancelled \<and>
      map_option job_status (lookup_job (jr_step (WorkStart True) (jr_step (Cancel ''job_a'') st)) ''job_a'') = Some Running \<and>
      map_option job_status
        (lookup_job (jr_step (WorkFinish (Inl ''boom'')) (jr_step (WorkStart True) (jr_step (Cancel ''job_a'') st))) ''job_a'')
        = Some Failed"
proof -
  let ?p = "\<lparr>jp_max_retries = Unset, jp_retry_backoff_sec = Unset, jp_data = ''{}''\<rparr>"
  let ?a = "\<lparr>job_type = ''avatar.clone.wav2lip'', job_payload = ?p, job_status = Queued, job_progress = 0,
            job_retry_count = 0, job_max_retries = 2, job_retry_backoff_sec = 5, job_parent = None,
            job_result = None, job_error = None\<rparr>"
  let ?st = "jr_step WorkTake (jr_boot [(''job_a'', ?a)])"
  have h: "jr_checked ?st = Some ''job_a''" "lookup_job ?st ''job_a'' = Some ?a"
    "job_status ?a = Queued" "job_type ?a \<in> set clone_job_types"
    by (simp_all add: jr_boot_def recover_incomplete_jobs_def recover_one_def work_take_def
                      lookup_job_def update_job_def append_log_def runtime_setdefault_def clone_job_types_def)
  show ?thesis unfolding Let_def
    using h cancel_after_check_overwritten [OF h, of True "''boom''"] by blast
qed

end
