(* ===== verification/LiveRuntime.thy ===== *)
theory LiveRuntime
  imports Prelude
begin

text \<open>
  LiveRuntime: \<open>src/apps/control_api/live_runtime.py\<close> (\<open>LiveProcessManager\<close>) and the
  live-session routes of \<open>src/apps/control_api/main.py\<close> that drive it.  The manager runs
  one \<open>app.py\<close> subprocess at a time; per start it launches a reader thread, which copies
  the subprocess's output lines into the session's log file and a shared in-memory ring buffer,
  and a monitor thread, which waits for the exit, clears the manager's process if its session
  is still the current one, and calls \<open>_on_live_exit\<close> to close the \<open>live_sessions\<close> row.

  The model's state is the manager's fields, the operating system's processes (pid and return
  code, \<open>None\<close> while running) indexed by the order they were spawned, the reader and
  monitor threads, the log files and the \<open>live_sessions\<close> table.  The HTTP handler
  \<open>start_live\<close> runs in a request thread: it is split into the part up to and including
  \<open>live_manager.start\<close> and the \<open>INSERT\<close> of the session row, so that the other threads
  can run in between.  Reader and monitor steps are enabled as their threads would be: a
  reader reads any line until it sees end of file, which comes after the process exited; a
  monitor returns once its process has exited.  uuid, pids, timestamps and the command line are
  inputs of the steps.
\<close>

subsection \<open>Processes, threads and the manager\<close>

record os_proc =
  proc_pid :: nat
  proc_returncode :: "int option"

record live_run_info =
  info_session_id :: string
  info_pid :: nat
  info_cmdline :: "string list"
  info_log_path :: string
  info_started_at :: string

record live_manager =
  lm_process :: "nat option"
  lm_session_id :: "string option"
  lm_pid :: "nat option"
  lm_cmdline :: "string list"
  lm_started_at :: "string option"
  lm_log_path :: "string option"
  lm_log_buffer :: "string list"

definition live_log_buffer_size :: nat where
  "live_log_buffer_size = 2000"

definition new_live_manager :: live_manager where
  "new_live_manager = \<lparr>lm_process = None, lm_session_id = None, lm_pid = None, lm_cmdline = [],
     lm_started_at = None, lm_log_path = None, lm_log_buffer = []\<rparr>"

record reader_thread =
  rd_proc :: nat
  rd_log_path :: string
  rd_done :: bool

record monitor_thread =
  mon_proc :: nat
  mon_session :: string
  mon_on_exit :: bool
  mon_done :: bool

datatype session_status = SessionRunning | SessionStopped | SessionFailed

text \<open>A \<open>live_sessions\<close> row; the error text \<open>process exited with code N\<close> is kept as N.\<close>

record live_session_row =
  ses_preset :: "string option"
  ses_status :: session_status
  ses_pid :: nat
  ses_cmdline :: "string list"
  ses_log_path :: string
  ses_started_at :: string
  ses_ended_at :: "string option"
  ses_error :: "int option"

record live_sys =
  ls_mgr :: live_manager
  ls_procs :: "os_proc list"
  ls_readers :: "reader_thread list"
  ls_monitors :: "monitor_thread list"
  ls_files :: "string \<rightharpoonup> string list"
  ls_sessions :: "(string \<times> live_session_row) list"
  ls_pending :: "(live_run_info \<times> string option) list"

definition live_init :: live_sys where
  "live_init = \<lparr>ls_mgr = new_live_manager, ls_procs = [], ls_readers = [], ls_monitors = [],
     ls_files = Map.empty, ls_sessions = [], ls_pending = []\<rparr>"

text \<open>\<open>proc.poll()\<close>: the return code, \<open>None\<close> while the process runs.\<close>

definition poll :: "live_sys \<Rightarrow> nat \<Rightarrow> int option" where
  "poll sys h = (if h < length (ls_procs sys) then proc_returncode (ls_procs sys ! h) else None)"

definition set_returncode :: "nat \<Rightarrow> int \<Rightarrow> live_sys \<Rightarrow> live_sys" where
  "set_returncode h rc sys =
     (if h < length (ls_procs sys) \<and> poll sys h = None
      then sys\<lparr>ls_procs := (ls_procs sys)[h := (ls_procs sys ! h)\<lparr>proc_returncode := Some rc\<rparr>]\<rparr>
      else sys)"

subsection \<open>\<open>LiveProcessManager\<close>\<close>

definition is_running :: "live_sys \<Rightarrow> bool" where
  "is_running sys = (case lm_process (ls_mgr sys) of None \<Rightarrow> False | Some h \<Rightarrow> poll sys h = None)"

record live_status =
  cur_running :: bool
  cur_session_id :: "string option"
  cur_pid :: "nat option"
  cur_cmdline :: "string list"
  cur_started_at :: "string option"
  cur_log_path :: "string option"
  cur_return_code :: "int option"

definition current :: "live_sys \<Rightarrow> live_status" where
  "current sys =
     (let m = ls_mgr sys in
      \<lparr>cur_running = is_running sys, cur_session_id = lm_session_id m, cur_pid = lm_pid m,
       cur_cmdline = lm_cmdline m, cur_started_at = lm_started_at m, cur_log_path = lm_log_path m,
       cur_return_code = (case lm_process m of None \<Rightarrow> None | Some h \<Rightarrow> poll sys h)\<rparr>)"

text \<open>\<open>settings.logs_dir\<close> (\<open>data/logs\<close> under the project root).\<close>

definition logs_dir :: string where
  "logs_dir = ''data/logs''"

definition live_log_path :: "string \<Rightarrow> string" where
  "live_log_path sid = logs_dir @ ''/'' @ sid @ ''.log''"

definition session_of_uuid :: "string \<Rightarrow> string" where
  "session_of_uuid hex = ''live_'' @ take 12 hex"

datatype live_error = AlreadyRunning | SpawnFailed

text \<open>
  \<open>start\<close>: \<open>uid\<close> is \<open>uuid.uuid4().hex\<close>, \<open>pid\<close> the pid of the spawned process or
  \<open>None\<close> when \<open>Popen\<close> raises, \<open>now\<close> the value of \<open>_now()\<close>.
\<close>

definition start ::
  "string \<Rightarrow> nat option \<Rightarrow> string list \<Rightarrow> string \<Rightarrow> bool \<Rightarrow> live_sys \<Rightarrow> live_error + live_run_info \<times> live_sys" where
  "start uid spawned command now on_exit sys =
     (if is_running sys then Inl AlreadyRunning else
      case spawned of
        None \<Rightarrow> Inl SpawnFailed
      | Some pid \<Rightarrow>
          let sid = session_of_uuid uid; path = live_log_path sid; h = length (ls_procs sys);
              m' = (ls_mgr sys)\<lparr>lm_process := Some h, lm_session_id := Some sid, lm_pid := Some pid,
                      lm_cmdline := command, lm_started_at := Some now, lm_log_path := Some path,
                      lm_log_buffer := []\<rparr>
          in Inr (\<lparr>info_session_id = sid, info_pid = pid, info_cmdline = command, info_log_path = path,
                   info_started_at = now\<rparr>,
                  sys\<lparr>ls_mgr := m',
                      ls_procs := ls_procs sys @ [\<lparr>proc_pid = pid, proc_returncode = None\<rparr>],
                      ls_readers := ls_readers sys @ [\<lparr>rd_proc = h, rd_log_path = path, rd_done = False\<rparr>],
                      ls_monitors := ls_monitors sys @
                        [\<lparr>mon_proc = h, mon_session = sid, mon_on_exit = on_exit, mon_done = False\<rparr>]\<rparr>))"

text \<open>
  \<open>stop\<close>: \<open>kill()\<close> ends the process with \<open>-9\<close>; \<open>terminate()\<close> ends it with the
  code the process exits with, or the \<open>wait(timeout=8)\<close> times out and it is killed.  A
  process that already exited keeps its code.  \<open>stop\<close> does not clear \<open>_process\<close>: the
  monitor does.
\<close>

datatype stop_outcome = ExitsWith int | TimesOut

definition sigkill_code :: int where
  "sigkill_code = -9"

record stop_result =
  stopped :: bool
  stop_return_code :: "int option"

definition stop :: "bool \<Rightarrow> stop_outcome \<Rightarrow> live_sys \<Rightarrow> stop_result \<times> live_sys" where
  "stop force outcome sys =
     (case lm_process (ls_mgr sys) of
        None \<Rightarrow> (\<lparr>stopped = False, stop_return_code = None\<rparr>, sys)
      | Some h \<Rightarrow>
          let rc = (case poll sys h of
                      Some c \<Rightarrow> c
                    | None \<Rightarrow> if force then sigkill_code
                              else (case outcome of ExitsWith c \<Rightarrow> c | TimesOut \<Rightarrow> sigkill_code))
          in (\<lparr>stopped = True, stop_return_code = Some rc\<rparr>, set_returncode h rc sys))"

text \<open>\<open>tail_logs\<close>: \<open>list(self._log_buffer)[-limit:]\<close> for a positive limit.\<close>

definition tail_logs :: "int \<Rightarrow> live_sys \<Rightarrow> string list" where
  "tail_logs limit sys =
     (if limit \<le> 0 then []
      else let b = lm_log_buffer (ls_mgr sys) in drop (length b - nat limit) b)"

text \<open>\<open>line.rstrip(''\n'')\<close> and \<open>deque.append\<close> with \<open>maxlen\<close>.\<close>

definition rstrip_newlines :: "string \<Rightarrow> string" where
  "rstrip_newlines s = rev (dropWhile (\<lambda>c. c = CHR ''\<newline>'') (rev s))"

definition deque_append :: "nat \<Rightarrow> 'a list \<Rightarrow> 'a \<Rightarrow> 'a list" where
  "deque_append n xs x = (let ys = xs @ [x] in drop (length ys - n) ys)"

definition file_lines :: "(string \<rightharpoonup> string list) \<Rightarrow> string \<Rightarrow> string list" where
  "file_lines fs path = (case fs path of None \<Rightarrow> [] | Some ls \<Rightarrow> ls)"

text \<open>
  One iteration of \<open>_read_output\<close> of reader \<open>i\<close>: the log file is opened for append
  (created if missing), a non-blank line goes to the ring buffer and the file.
\<close>

definition read_output_line :: "nat \<Rightarrow> string \<Rightarrow> live_sys \<Rightarrow> live_sys" where
  "read_output_line i line sys =
     (if i < length (ls_readers sys) \<and> \<not> rd_done (ls_readers sys ! i) then
        let path = rd_log_path (ls_readers sys ! i); l = rstrip_newlines line in
        if l = [] then sys\<lparr>ls_files := (ls_files sys)(path \<mapsto> file_lines (ls_files sys) path)\<rparr>
        else sys\<lparr>ls_mgr := (ls_mgr sys)\<lparr>lm_log_buffer := deque_append live_log_buffer_size (lm_log_buffer (ls_mgr sys)) l\<rparr>,
                 ls_files := (ls_files sys)(path \<mapsto> file_lines (ls_files sys) path @ [l])\<rparr>
      else sys)"

text \<open>The reader sees end of file once its process has exited.\<close>

definition reader_eof :: "nat \<Rightarrow> live_sys \<Rightarrow> live_sys" where
  "reader_eof i sys =
     (if i < length (ls_readers sys) \<and> \<not> rd_done (ls_readers sys ! i) \<and> poll sys (rd_proc (ls_readers sys ! i)) \<noteq> None then
        let r = ls_readers sys ! i; path = rd_log_path r in
        sys\<lparr>ls_readers := (ls_readers sys)[i := r\<lparr>rd_done := True\<rparr>],
            ls_files := (ls_files sys)(path \<mapsto> file_lines (ls_files sys) path)\<rparr>
      else sys)"

subsection \<open>The session routes of \<open>main.py\<close>\<close>

text \<open>\<open>_on_live_exit\<close>: \<open>UPDATE live_sessions ... WHERE id = ?\<close>; no row, no change.\<close>

definition on_live_exit :: "string \<Rightarrow> int \<Rightarrow> string \<Rightarrow> live_sys \<Rightarrow> live_sys" where
  "on_live_exit sid rc now sys =
     sys\<lparr>ls_sessions := map (\<lambda>(k, r). if k = sid then
          (k, r\<lparr>ses_status := (if rc = 0 then SessionStopped else SessionFailed), ses_ended_at := Some now,
                ses_error := (if rc = 0 then None else Some rc)\<rparr>) else (k, r)) (ls_sessions sys)\<rparr>"

text \<open>
  \<open>_monitor_exit\<close> of monitor \<open>i\<close>, once \<open>proc.wait()\<close> returns: clear the process
  only if the session is still the current one, then call \<open>on_exit\<close>.
\<close>

definition monitor_exit :: "nat \<Rightarrow> string \<Rightarrow> live_sys \<Rightarrow> live_sys" where
  "monitor_exit i now sys =
     (if i < length (ls_monitors sys) \<and> \<not> mon_done (ls_monitors sys ! i) then
        let mt = ls_monitors sys ! i in
        case poll sys (mon_proc mt) of
          None \<Rightarrow> sys
        | Some code \<Rightarrow>
            let sys1 = sys\<lparr>ls_monitors := (ls_monitors sys)[i := mt\<lparr>mon_done := True\<rparr>]\<rparr>;
                sys2 = (if lm_session_id (ls_mgr sys1) = Some (mon_session mt)
                        then sys1\<lparr>ls_mgr := (ls_mgr sys1)\<lparr>lm_process := None, lm_pid := None\<rparr>\<rparr>
                        else sys1)
            in if mon_on_exit mt then on_live_exit (mon_session mt) code now sys2 else sys2
      else sys)"

datatype http_error = NotFound | Conflict | Unprocessable | InternalError

text \<open>
  \<open>start_live\<close> up to \<open>live_manager.start\<close>: 409 while a process runs, 404 for an unknown
  avatar, 500 when \<open>start\<close> raises; the request then waits to insert its session row.
\<close>

definition start_live ::
  "string \<Rightarrow> nat option \<Rightarrow> string list \<Rightarrow> string \<Rightarrow> string option \<Rightarrow> bool \<Rightarrow> live_sys \<Rightarrow> http_error + live_sys" where
  "start_live uid spawned command now preset avatar_exists sys =
     (if is_running sys then Inl Conflict
      else if \<not> avatar_exists then Inl NotFound
      else case start uid spawned command now True sys of
             Inl _ \<Rightarrow> Inl InternalError
           | Inr (info, sys1) \<Rightarrow> Inr (sys1\<lparr>ls_pending := ls_pending sys1 @ [(info, preset)]\<rparr>))"

text \<open>The rest of \<open>start_live\<close>: the \<open>INSERT\<close> of the row (an existing id raises);
  either way the request ends.\<close>

definition drop_pending :: "nat \<Rightarrow> live_sys \<Rightarrow> live_sys" where
  "drop_pending i sys = sys\<lparr>ls_pending := take i (ls_pending sys) @ drop (Suc i) (ls_pending sys)\<rparr>"

definition start_live_insert :: "nat \<Rightarrow> live_sys \<Rightarrow> http_error + live_sys" where
  "start_live_insert i sys =
     (if i < length (ls_pending sys) then
        let (info, preset) = ls_pending sys ! i;
            sys1 = drop_pending i sys;
            sid = info_session_id info
        in if map_of (ls_sessions sys) sid \<noteq> None then Inl InternalError
           else Inr (sys1\<lparr>ls_sessions := ls_sessions sys1 @
                  [(sid, \<lparr>ses_preset = preset, ses_status = SessionRunning, ses_pid = info_pid info,
                          ses_cmdline = info_cmdline info, ses_log_path = info_log_path info,
                          ses_started_at = info_started_at info, ses_ended_at = None, ses_error = None\<rparr>)]\<rparr>)
      else Inl InternalError)"

definition stop_live :: "string \<Rightarrow> bool \<Rightarrow> stop_outcome \<Rightarrow> live_sys \<Rightarrow> http_error + stop_result \<times> live_sys" where
  "stop_live sid force outcome sys =
     (let cur = current sys in
      if \<not> cur_running cur then Inl NotFound
      else if cur_session_id cur \<noteq> Some sid then Inl Conflict
      else Inr (stop force outcome sys))"

datatype log_source = FromMemory | FromFile

text \<open>\<open>live_logs\<close>, with the query bound \<open>1 \<le> limit \<le> 5000\<close> (422 otherwise).\<close>

definition live_logs :: "string \<Rightarrow> int \<Rightarrow> live_sys \<Rightarrow> http_error + log_source \<times> string list" where
  "live_logs sid limit sys =
     (if limit < 1 \<or> 5000 < limit then Inl Unprocessable
      else if cur_session_id (current sys) = Some sid then Inr (FromMemory, tail_logs limit sys)
      else case map_of (ls_sessions sys) sid of
        None \<Rightarrow> Inl NotFound
      | Some row \<Rightarrow>
          if ses_log_path row = [] then Inr (FromFile, [])
          else case ls_files sys (ses_log_path row) of
            None \<Rightarrow> Inr (FromFile, [])
          | Some ls \<Rightarrow> Inr (FromFile, map rstrip_newlines (drop (length ls - nat limit) ls)))"

subsection \<open>The system as a step function\<close>

datatype live_event =
    StartLive string "nat option" "string list" string "string option" bool
  | InsertSession nat
  | StopLive string bool stop_outcome
  | ProcExit nat int
  | ReadLine nat string
  | ReaderEOF nat
  | MonitorExit nat string

fun live_step :: "live_event \<Rightarrow> live_sys \<Rightarrow> live_sys" where
  "live_step (StartLive uid spawned command now preset av) sys =
     (case start_live uid spawned command now preset av sys of Inr sys' \<Rightarrow> sys' | Inl _ \<Rightarrow> sys)"
| "live_step (InsertSession i) sys = (case start_live_insert i sys of Inr sys' \<Rightarrow> sys' | Inl _ \<Rightarrow> drop_pending i sys)"
| "live_step (StopLive sid force outcome) sys =
     (case stop_live sid force outcome sys of Inr (_, sys') \<Rightarrow> sys' | Inl _ \<Rightarrow> sys)"
| "live_step (ProcExit h rc) sys = set_returncode h rc sys"
| "live_step (ReadLine i line) sys = read_output_line i line sys"
| "live_step (ReaderEOF i) sys = reader_eof i sys"
| "live_step (MonitorExit i now) sys = monitor_exit i now sys"

subsection \<open>Specification-side definitions\<close>

definition running_procs :: "live_sys \<Rightarrow> nat list" where
  "running_procs sys = filter (\<lambda>h. poll sys h = None) [0..<length (ls_procs sys)]"

definition live_inv :: "live_sys \<Rightarrow> bool" where
  "live_inv sys \<longleftrightarrow>
     (\<forall>h < length (ls_procs sys). poll sys h = None \<longrightarrow> lm_process (ls_mgr sys) = Some h) \<and>
     (\<forall>h. lm_process (ls_mgr sys) = Some h \<longrightarrow> h < length (ls_procs sys)) \<and>
     (\<forall>mt \<in> set (ls_monitors sys). \<not> mon_done mt \<longrightarrow> lm_session_id (ls_mgr sys) = Some (mon_session mt) \<longrightarrow>
         lm_process (ls_mgr sys) = None \<or> lm_process (ls_mgr sys) = Some (mon_proc mt))"

fun start_sessions :: "live_event list \<Rightarrow> string list" where
  "start_sessions [] = []"
| "start_sessions (StartLive uid _ _ _ _ _ # evs) = session_of_uuid uid # start_sessions evs"
| "start_sessions (_ # evs) = start_sessions evs"

definition monitor_sessions :: "live_sys \<Rightarrow> string set" where
  "monitor_sessions sys = mon_session ` set (ls_monitors sys)"

text \<open>What the single-instance invariant reads of a state.\<close>

definition inv_view :: "live_sys \<Rightarrow> os_proc list \<times> nat option \<times> string option \<times> monitor_thread list" where
  "inv_view sys = (ls_procs sys, lm_process (ls_mgr sys), lm_session_id (ls_mgr sys), ls_monitors sys)"

definition restart_events :: "live_event list" where
  "restart_events =
     [StartLive ''0123456789abcdef'' (Some 4100) [''python'', ''app.py''] ''t0'' None True,
      ReadLine 0 ''loading model\<newline>'',
      StopLive ''live_0123456789ab'' False (ExitsWith 0),
      StartLive ''fedcba9876543210'' (Some 4200) [''python'', ''app.py''] ''t1'' None True]"

definition row_stuck :: "string \<Rightarrow> live_sys \<Rightarrow> bool" where
  "row_stuck sid s \<longleftrightarrow>
     (\<exists>row. map_of (ls_sessions s) sid = Some row \<and> ses_status row = SessionRunning) \<and>
     (\<forall>mt \<in> set (ls_monitors s). mon_session mt = sid \<longrightarrow> mon_done mt)"

definition early_exit_events :: "live_event list" where
  "early_exit_events =
     [StartLive ''0123456789abcdef'' (Some 4100) [''python'', ''app.py''] ''t0'' None True,
      ProcExit 0 1,
      MonitorExit 0 ''t1'']"

subsection \<open>Lemmas\<close>

lemma poll_view: "inv_view s = inv_view s' \<Longrightarrow> poll s h = poll s' h"
  by (simp add: inv_view_def poll_def)

lemma live_inv_view: "inv_view s = inv_view s' \<Longrightarrow> live_inv s = live_inv s'"
  unfolding live_inv_def by (simp add: poll_view[of s s'] del: poll_def) (simp add: inv_view_def)

lemma read_output_line_view: "inv_view (read_output_line i l s) = inv_view s"
  by (simp add: read_output_line_def inv_view_def Let_def)

lemma reader_eof_view: "inv_view (reader_eof i s) = inv_view s"
  by (simp add: reader_eof_def inv_view_def Let_def)

lemma on_live_exit_view: "inv_view (on_live_exit sid rc now s) = inv_view s"
  by (simp add: on_live_exit_def inv_view_def)

lemma drop_pending_view: "inv_view (drop_pending i s) = inv_view s"
  by (simp add: drop_pending_def inv_view_def)

lemma start_live_insert_view: "start_live_insert i s = Inr s' \<Longrightarrow> inv_view s' = inv_view s"
  by (auto simp: start_live_insert_def inv_view_def drop_pending_def Let_def split: prod.splits if_splits)

lemma poll_set_returncode:
  "poll (set_returncode h rc s) k = (if k = h \<and> poll s h = None \<and> h < length (ls_procs s) then Some rc else poll s k)"
  by (auto simp: set_returncode_def poll_def nth_list_update)

lemma set_returncode_fields [simp]:
  "length (ls_procs (set_returncode h rc s)) = length (ls_procs s)"
  "ls_mgr (set_returncode h rc s) = ls_mgr s"
  "ls_monitors (set_returncode h rc s) = ls_monitors s"
  "ls_readers (set_returncode h rc s) = ls_readers s"
  "ls_sessions (set_returncode h rc s) = ls_sessions s"
  "ls_pending (set_returncode h rc s) = ls_pending s"
  "ls_files (set_returncode h rc s) = ls_files s"
  by (simp_all add: set_returncode_def)

lemma live_invD1: "live_inv s \<Longrightarrow> h < length (ls_procs s) \<Longrightarrow> poll s h = None \<Longrightarrow> lm_process (ls_mgr s) = Some h"
  unfolding live_inv_def by blast

lemma live_invD2: "live_inv s \<Longrightarrow> lm_process (ls_mgr s) = Some h \<Longrightarrow> h < length (ls_procs s)"
  unfolding live_inv_def by blast

lemma live_invD3:
  "live_inv s \<Longrightarrow> mt \<in> set (ls_monitors s) \<Longrightarrow> \<not> mon_done mt \<Longrightarrow> lm_session_id (ls_mgr s) = Some (mon_session mt) \<Longrightarrow>
   lm_process (ls_mgr s) = None \<or> lm_process (ls_mgr s) = Some (mon_proc mt)"
  unfolding live_inv_def by blast

lemma live_invI:
  assumes "\<And>h. h < length (ls_procs s) \<Longrightarrow> poll s h = None \<Longrightarrow> lm_process (ls_mgr s) = Some h"
    and "\<And>h. lm_process (ls_mgr s) = Some h \<Longrightarrow> h < length (ls_procs s)"
    and "\<And>mt. mt \<in> set (ls_monitors s) \<Longrightarrow> \<not> mon_done mt \<Longrightarrow> lm_session_id (ls_mgr s) = Some (mon_session mt) \<Longrightarrow>
           lm_process (ls_mgr s) = None \<or> lm_process (ls_mgr s) = Some (mon_proc mt)"
  shows "live_inv s"
  unfolding live_inv_def using assms by blast

lemma set_returncode_inv:
  assumes inv: "live_inv s" shows "live_inv (set_returncode h rc s)"
proof (rule live_invI)
  fix k assume k: "k < length (ls_procs (set_returncode h rc s))" and p: "poll (set_returncode h rc s) k = None"
  have "poll s k = None" using p by (simp add: poll_set_returncode split: if_splits)
  then show "lm_process (ls_mgr (set_returncode h rc s)) = Some k"
    using live_invD1[OF inv] k by simp
qed (use live_invD2[OF inv] live_invD3[OF inv] in simp_all)

lemma stop_inv: "live_inv s \<Longrightarrow> live_inv (snd (stop force outcome s))"
  by (simp add: stop_def set_returncode_inv Let_def split: option.split)

text \<open>With no process running, a start makes the new process the only running one.\<close>

lemma not_running_none: "live_inv s \<Longrightarrow> \<not> is_running s \<Longrightarrow> h < length (ls_procs s) \<Longrightarrow> poll s h \<noteq> None"
  unfolding is_running_def using live_invD1 by fastforce

lemma poll_snoc:
  "poll (s\<lparr>ls_procs := ls_procs s @ [p]\<rparr>) h =
     (if h < length (ls_procs s) then poll s h else if h = length (ls_procs s) then proc_returncode p else None)"
  by (simp add: poll_def nth_append)

lemma start_inv:
  assumes inv: "live_inv s" and ok: "start uid sp cmd now cb s = Inr (info, s')"
    and fresh: "session_of_uuid uid \<notin> monitor_sessions s"
  shows "live_inv s'"
proof -
  obtain pid where sp: "sp = Some pid" and nr: "\<not> is_running s"
    using ok by (auto simp: start_def split: if_splits option.splits)
  let ?sid = "session_of_uuid uid" and ?n = "length (ls_procs s)"
  have s': "s' = s\<lparr>ls_mgr := (ls_mgr s)\<lparr>lm_process := Some ?n, lm_session_id := Some ?sid, lm_pid := Some pid,
                      lm_cmdline := cmd, lm_started_at := Some now, lm_log_path := Some (live_log_path ?sid),
                      lm_log_buffer := []\<rparr>,
                  ls_procs := ls_procs s @ [\<lparr>proc_pid = pid, proc_returncode = None\<rparr>],
                  ls_readers := ls_readers s @ [\<lparr>rd_proc = ?n, rd_log_path = live_log_path ?sid, rd_done = False\<rparr>],
                  ls_monitors := ls_monitors s @ [\<lparr>mon_proc = ?n, mon_session = ?sid, mon_on_exit = cb, mon_done = False\<rparr>]\<rparr>"
    using ok nr sp by (simp add: start_def Let_def)
  have old: "\<And>h. h < ?n \<Longrightarrow> poll s' h = poll s h" and new: "poll s' ?n = None"
    by (simp_all add: s' poll_def nth_append)
  show ?thesis
    unfolding live_inv_def
  proof (intro conjI allI impI ballI)
    fix h assume "h < length (ls_procs s')" "poll s' h = None"
    then show "lm_process (ls_mgr s') = Some h"
    proof (cases "h < ?n")
      case True
      then show ?thesis using old[OF True] not_running_none[OF inv nr True] \<open>poll s' h = None\<close> by simp
    qed (use \<open>h < length (ls_procs s')\<close> in \<open>simp add: s'\<close>)
  next
    fix h assume "lm_process (ls_mgr s') = Some h"
    then show "h < length (ls_procs s')" by (simp add: s')
  next
    fix mt assume "mt \<in> set (ls_monitors s')" "\<not> mon_done mt" "lm_session_id (ls_mgr s') = Some (mon_session mt)"
    then show "lm_process (ls_mgr s') = None \<or> lm_process (ls_mgr s') = Some (mon_proc mt)"
      using fresh by (auto simp: s' monitor_sessions_def) (metis monitor_thread.select_convs(1))
  qed
qed

lemma in_set_update_undone:
  "mt \<in> set (xs[i := x]) \<Longrightarrow> \<not> mon_done mt \<Longrightarrow> mon_done x \<Longrightarrow> mt \<in> set xs"
  using set_update_subset_insert[of xs i x] by auto

lemma on_live_exit_inv: "live_inv s \<Longrightarrow> live_inv (on_live_exit sid rc now s)"
  using live_inv_view[OF on_live_exit_view] by simp

text \<open>The session check of \<open>_monitor_exit\<close> is what keeps a late monitor of an old session
  from clearing the process of the current one.\<close>

lemma monitor_exit_inv:
  assumes inv: "live_inv s" shows "live_inv (monitor_exit i now s)"
proof (cases "i < length (ls_monitors s) \<and> \<not> mon_done (ls_monitors s ! i) \<and> poll s (mon_proc (ls_monitors s ! i)) \<noteq> None")
  case False
  then have "monitor_exit i now s = s" by (auto simp: monitor_exit_def Let_def split: option.split)
  then show ?thesis using inv by simp
next
  case True
  let ?mt = "ls_monitors s ! i"
  obtain code where code: "poll s (mon_proc ?mt) = Some code" using True by auto
  define s1 where "s1 = s\<lparr>ls_monitors := (ls_monitors s)[i := ?mt\<lparr>mon_done := True\<rparr>]\<rparr>"
  define s2 where "s2 = (if lm_session_id (ls_mgr s1) = Some (mon_session ?mt)
                        then s1\<lparr>ls_mgr := (ls_mgr s1)\<lparr>lm_process := None, lm_pid := None\<rparr>\<rparr> else s1)"
  have eq: "monitor_exit i now s = (if mon_on_exit ?mt then on_live_exit (mon_session ?mt) code now s2 else s2)"
    using True code by (simp add: monitor_exit_def s1_def s2_def Let_def)
  have p2: "poll s2 h = poll s h" for h by (simp add: s2_def s1_def poll_def)
  have procs2: "ls_procs s2 = ls_procs s" and sid2: "lm_session_id (ls_mgr s2) = lm_session_id (ls_mgr s)"
    by (simp_all add: s2_def s1_def)
  have proc2: "lm_process (ls_mgr s2) =
      (if lm_session_id (ls_mgr s) = Some (mon_session ?mt) then None else lm_process (ls_mgr s))"
    by (simp add: s2_def s1_def)
  have mons2: "ls_monitors s2 = (ls_monitors s)[i := ?mt\<lparr>mon_done := True\<rparr>]"
    by (simp add: s2_def s1_def)
  have mon2: "mt \<in> set (ls_monitors s2) \<Longrightarrow> \<not> mon_done mt \<Longrightarrow> mt \<in> set (ls_monitors s)" for mt
    unfolding mons2 by (erule in_set_update_undone) simp_all
  have "live_inv s2"
  proof (cases "lm_session_id (ls_mgr s) = Some (mon_session ?mt)")
    case match: True
    have exited: "poll s h \<noteq> None" if "h < length (ls_procs s)" for h
    proof
      assume "poll s h = None"
      then have "lm_process (ls_mgr s) = Some h" using live_invD1[OF inv that] by simp
      moreover have "?mt \<in> set (ls_monitors s)" using True by simp
      ultimately have "h = mon_proc ?mt" using live_invD3[OF inv _ _ match] True by fastforce
      then show False using code \<open>poll s h = None\<close> by simp
    qed
    show ?thesis
    proof (rule live_invI)
      fix h assume "h < length (ls_procs s2)" "poll s2 h = None"
      then show "lm_process (ls_mgr s2) = Some h" using exited by (simp add: procs2 p2)
    qed (simp_all add: proc2 match)
  next
    case nomatch: False
    show ?thesis
    proof (rule live_invI)
      fix h assume "h < length (ls_procs s2)" "poll s2 h = None"
      then show "lm_process (ls_mgr s2) = Some h"
        using live_invD1[OF inv, of h] nomatch by (simp add: procs2 p2 proc2)
    next
      fix h assume "lm_process (ls_mgr s2) = Some h"
      then show "h < length (ls_procs s2)" using live_invD2[OF inv, of h] nomatch by (simp add: procs2 proc2)
    next
      fix mt assume "mt \<in> set (ls_monitors s2)" "\<not> mon_done mt" "lm_session_id (ls_mgr s2) = Some (mon_session mt)"
      then show "lm_process (ls_mgr s2) = None \<or> lm_process (ls_mgr s2) = Some (mon_proc mt)"
        using live_invD3[OF inv mon2] nomatch by (simp add: proc2 sid2)
    qed
  qed
  then show ?thesis by (simp add: eq on_live_exit_inv)
qed

lemma start_live_Inr:
  "start_live uid sp cmd now pre av s = Inr s' \<Longrightarrow>
   \<exists>info s1. start uid sp cmd now True s = Inr (info, s1) \<and> s' = s1\<lparr>ls_pending := ls_pending s1 @ [(info, pre)]\<rparr>"
  by (auto simp: start_live_def split: if_splits sum.splits)

lemma pending_view [simp]: "inv_view (s\<lparr>ls_pending := p\<rparr>) = inv_view s"
  by (simp add: inv_view_def)

lemma start_live_inv:
  assumes inv: "live_inv s" and ok: "start_live uid sp cmd now pre av s = Inr s'"
    and fresh: "session_of_uuid uid \<notin> monitor_sessions s"
  shows "live_inv s'"
proof -
  obtain info s1 where st: "start uid sp cmd now True s = Inr (info, s1)"
    and s': "s' = s1\<lparr>ls_pending := ls_pending s1 @ [(info, pre)]\<rparr>"
    using start_live_Inr[OF ok] by blast
  have "live_inv s1" by (rule start_inv[OF inv st fresh])
  then show ?thesis unfolding s' using live_inv_view[OF pending_view] by simp
qed

lemma start_monitor_sessions:
  "start uid sp cmd now cb s = Inr (info, s') \<Longrightarrow> monitor_sessions s' = insert (session_of_uuid uid) (monitor_sessions s)"
  by (auto simp: start_def monitor_sessions_def Let_def split: if_splits option.splits)

lemma monitor_sessions_update_done:
  assumes "i < length xs" shows "mon_session ` set (xs[i := (xs ! i)\<lparr>mon_done := True\<rparr>]) = mon_session ` set xs"
proof -
  have "map mon_session (xs[i := (xs ! i)\<lparr>mon_done := True\<rparr>]) = map mon_session xs"
    by (rule map_update_same[OF assms]) simp
  then show ?thesis by (metis set_map)
qed

lemma view_monitor_sessions: "inv_view s' = inv_view s \<Longrightarrow> monitor_sessions s' = monitor_sessions s"
  by (simp add: inv_view_def monitor_sessions_def)

lemma stop_fields [simp]:
  "ls_monitors (snd (stop force outcome s)) = ls_monitors s"
  "ls_sessions (snd (stop force outcome s)) = ls_sessions s"
  by (simp_all add: stop_def Let_def split: option.split)

lemma live_step_StopLive:
  "live_step (StopLive sid force outcome) s = s \<or> live_step (StopLive sid force outcome) s = snd (stop force outcome s)"
  by (simp add: stop_live_def Let_def split: prod.split)

lemma monitor_exit_sessions: "monitor_sessions (monitor_exit i now s) = monitor_sessions s"
proof (cases "i < length (ls_monitors s) \<and> \<not> mon_done (ls_monitors s ! i)")
  case True
  then show ?thesis
    by (simp add: monitor_exit_def Let_def monitor_sessions_def on_live_exit_def monitor_sessions_update_done
        split: option.split)
next
  case False
  then have "monitor_exit i now s = s" unfolding monitor_exit_def by (subst if_not_P) simp_all
  then show ?thesis by simp
qed

lemma start_sessions_Cons: "start_sessions (ev # evs) = start_sessions [ev] @ start_sessions evs"
  by (cases ev) simp_all

lemma live_step_monitor_sessions:
  "monitor_sessions (live_step ev s) \<subseteq> monitor_sessions s \<union> set (start_sessions [ev])"
proof (cases ev)
  case (StartLive uid sp cmd now pre av)
  show ?thesis
  proof (cases "start_live uid sp cmd now pre av s")
    case (Inr s')
    then obtain info s1 where "start uid sp cmd now True s = Inr (info, s1)"
      and "s' = s1\<lparr>ls_pending := ls_pending s1 @ [(info, pre)]\<rparr>"
      using start_live_Inr by blast
    then show ?thesis using StartLive Inr start_monitor_sessions by (simp add: monitor_sessions_def)
  qed (auto simp: StartLive)
next
  case (InsertSession i)
  then show ?thesis
    by (cases "start_live_insert i s")
       (simp_all add: view_monitor_sessions[OF drop_pending_view] view_monitor_sessions[OF start_live_insert_view])
next
  case (StopLive sid force outcome)
  then show ?thesis using live_step_StopLive[of sid force outcome s] by (auto simp: monitor_sessions_def)
next
  case (MonitorExit i now)
  then show ?thesis by (simp add: monitor_exit_sessions)
next
  case (ProcExit h rc)
  then show ?thesis by (simp add: monitor_sessions_def)
next
  case (ReadLine i line)
  then show ?thesis by (simp add: view_monitor_sessions[OF read_output_line_view])
next
  case (ReaderEOF i)
  then show ?thesis by (simp add: view_monitor_sessions[OF reader_eof_view])
qed

lemma live_step_inv:
  assumes inv: "live_inv s" and fresh: "set (start_sessions [ev]) \<inter> monitor_sessions s = {}"
  shows "live_inv (live_step ev s)"
proof (cases ev)
  case (StartLive uid sp cmd now pre av)
  then show ?thesis
    using inv fresh start_live_inv[OF inv, of uid sp cmd now pre av] by (simp split: sum.split)
next
  case (InsertSession i)
  then show ?thesis using inv live_inv_view[OF drop_pending_view] live_inv_view[OF start_live_insert_view]
    by (simp split: sum.split)
next
  case (StopLive sid force outcome)
  then show ?thesis using inv stop_inv[OF inv] live_step_StopLive[of sid force outcome s] by metis
next
  case (ProcExit h rc)
  then show ?thesis using inv set_returncode_inv by simp
next
  case (ReadLine i line)
  then show ?thesis using inv live_inv_view[OF read_output_line_view] by simp
next
  case (ReaderEOF i)
  then show ?thesis using inv live_inv_view[OF reader_eof_view] by simp
next
  case (MonitorExit i now)
  then show ?thesis using inv monitor_exit_inv by simp
qed

lemma fold_live_inv:
  "live_inv s \<Longrightarrow> distinct (start_sessions evs) \<Longrightarrow> set (start_sessions evs) \<inter> monitor_sessions s = {} \<Longrightarrow>
   live_inv (fold live_step evs s)"
proof (induction evs arbitrary: s)
  case (Cons ev evs)
  have d: "set (start_sessions [ev]) \<inter> monitor_sessions s = {}" "distinct (start_sessions evs)"
    "set (start_sessions [ev]) \<inter> set (start_sessions evs) = {}" "set (start_sessions evs) \<inter> monitor_sessions s = {}"
    using Cons.prems start_sessions_Cons[of ev evs] by auto
  have "set (start_sessions evs) \<inter> monitor_sessions (live_step ev s) = {}"
    using live_step_monitor_sessions[of ev s] d by blast
  then show ?case using Cons.IH[OF live_step_inv[OF Cons.prems(1) d(1)] d(2)] by simp
qed simp

lemma live_init_inv: "live_inv live_init"
  by (rule live_invI) (simp_all add: live_init_def new_live_manager_def)

lemma live_inv_running:
  assumes inv: "live_inv s"
  shows "set (running_procs s) \<subseteq> set_option (lm_process (ls_mgr s)) \<and> (is_running s \<longleftrightarrow> running_procs s \<noteq> [])"
proof
  show sub: "set (running_procs s) \<subseteq> set_option (lm_process (ls_mgr s))"
  proof
    fix h assume "h \<in> set (running_procs s)"
    then have "h < length (ls_procs s)" "poll s h = None" by (simp_all add: running_procs_def)
    then show "h \<in> set_option (lm_process (ls_mgr s))" using live_invD1[OF inv] by simp
  qed
  show "is_running s \<longleftrightarrow> running_procs s \<noteq> []"
  proof
    assume "is_running s"
    then obtain h where h: "lm_process (ls_mgr s) = Some h" "poll s h = None"
      by (auto simp: is_running_def split: option.splits)
    then have "h \<in> set (running_procs s)" using live_invD2[OF inv h(1)] by (simp add: running_procs_def)
    then show "running_procs s \<noteq> []" by auto
  next
    assume "running_procs s \<noteq> []"
    then obtain h where "h \<in> set (running_procs s)" by (meson list.set_sel(1))
    then have "h < length (ls_procs s)" "poll s h = None" by (simp_all add: running_procs_def)
    then show "is_running s" using live_invD1[OF inv] by (simp add: is_running_def)
  qed
qed

lemma deque_append_last: "0 < n \<Longrightarrow> deque_append n xs x \<noteq> [] \<and> last (deque_append n xs x) = x"
  by (simp add: deque_append_def Let_def)

lemma drop_tail_last: "0 < k \<Longrightarrow> b \<noteq> [] \<Longrightarrow> drop (length b - k) b \<noteq> [] \<and> last (drop (length b - k) b) = last b"
  by (simp add: last_drop not_le)

lemma view_row_stuck:
  "inv_view s' = inv_view s \<Longrightarrow> ls_sessions s' = ls_sessions s \<Longrightarrow> row_stuck sid s' = row_stuck sid s"
  by (simp add: inv_view_def row_stuck_def)

lemma read_output_line_sessions [simp]: "ls_sessions (read_output_line i l s) = ls_sessions s"
  by (simp add: read_output_line_def Let_def)

lemma reader_eof_sessions [simp]: "ls_sessions (reader_eof i s) = ls_sessions s"
  by (simp add: reader_eof_def Let_def)

lemma drop_pending_sessions [simp]: "ls_sessions (drop_pending i s) = ls_sessions s"
  by (simp add: drop_pending_def)

lemma start_live_sessions:
  assumes "start_live uid sp cmd now pre av s = Inr s'"
  shows "ls_sessions s' = ls_sessions s \<and> (\<forall>mt \<in> set (ls_monitors s'). mt \<in> set (ls_monitors s) \<or> mon_session mt = session_of_uuid uid)"
proof -
  obtain info s1 where st: "start uid sp cmd now True s = Inr (info, s1)"
    and s': "s' = s1\<lparr>ls_pending := ls_pending s1 @ [(info, pre)]\<rparr>"
    using start_live_Inr[OF assms] by blast
  show ?thesis using st unfolding s'
    by (auto simp: start_def Let_def split: if_splits option.splits)
qed

lemma start_live_insert_sessions:
  "start_live_insert i s = Inr s' \<Longrightarrow> map_of (ls_sessions s) sid \<noteq> None \<Longrightarrow> map_of (ls_sessions s') sid = map_of (ls_sessions s) sid"
  by (auto simp: start_live_insert_def drop_pending_def Let_def split: prod.splits if_splits)

lemma monitor_exit_row_stuck:
  assumes st: "row_stuck sid s" shows "row_stuck sid (monitor_exit i now s)"
proof (cases "i < length (ls_monitors s) \<and> \<not> mon_done (ls_monitors s ! i)")
  case True
  let ?mt = "ls_monitors s ! i"
  have other: "mon_session ?mt \<noteq> sid" using st True by (auto simp: row_stuck_def)
  have mons: "\<forall>mt \<in> set ((ls_monitors s)[i := ?mt\<lparr>mon_done := True\<rparr>]). mon_session mt = sid \<longrightarrow> mon_done mt"
    using st set_update_subset_insert[of "ls_monitors s" i "?mt\<lparr>mon_done := True\<rparr>"] by (auto simp: row_stuck_def)
  show ?thesis using st True other mons
    by (auto simp: monitor_exit_def Let_def row_stuck_def on_live_exit_def map_of_map_at split: option.split)
next
  case False
  then have "monitor_exit i now s = s" unfolding monitor_exit_def by (subst if_not_P) simp_all
  then show ?thesis using st by simp
qed

lemma live_step_row_stuck:
  assumes st: "row_stuck sid s" and fresh: "sid \<notin> set (start_sessions [ev])"
  shows "row_stuck sid (live_step ev s)"
proof (cases ev)
  case (StartLive uid sp cmd now pre av)
  show ?thesis
  proof (cases "start_live uid sp cmd now pre av s")
    case (Inr s')
    then show ?thesis using StartLive st fresh start_live_sessions[OF Inr] by (auto simp: row_stuck_def)
  qed (simp add: StartLive st)
next
  case (InsertSession i)
  show ?thesis
  proof (cases "start_live_insert i s")
    case (Inr s')
    have "map_of (ls_sessions s') sid = map_of (ls_sessions s) sid"
      using st start_live_insert_sessions[OF Inr] by (auto simp: row_stuck_def)
    then show ?thesis using InsertSession Inr st start_live_insert_view[OF Inr]
      by (simp add: row_stuck_def inv_view_def)
  next
    case (Inl e)
    then show ?thesis using InsertSession st view_row_stuck[OF drop_pending_view] by simp
  qed
next
  case (StopLive sid' force outcome)
  then show ?thesis using st live_step_StopLive[of sid' force outcome s] by (auto simp: row_stuck_def)
next
  case (ProcExit h rc)
  then show ?thesis using st by (simp add: row_stuck_def)
next
  case (ReadLine i line)
  then show ?thesis using st view_row_stuck[OF read_output_line_view] by simp
next
  case (ReaderEOF i)
  then show ?thesis using st view_row_stuck[OF reader_eof_view] by simp
next
  case (MonitorExit i now)
  then show ?thesis using st monitor_exit_row_stuck by simp
qed

lemma fold_row_stuck:
  "row_stuck sid s \<Longrightarrow> sid \<notin> set (start_sessions evs) \<Longrightarrow> row_stuck sid (fold live_step evs s)"
proof (induction evs arbitrary: s)
  case (Cons ev evs)
  then show ?case using live_step_row_stuck start_sessions_Cons[of ev evs] by simp
qed simp

subsection \<open>Properties\<close>

text \<open>C31: single instance.  In every run of the manager and the session routes in which the
  uuids give distinct session ids, at most one spawned \<open>app.py\<close> process is running, it is
  the manager's \<open>_process\<close>, and \<open>is_running()\<close> reports exactly whether one runs.\<close>

theorem single_live_instance:
  assumes "distinct (start_sessions evs)"
  shows "set (running_procs (fold live_step evs live_init)) \<subseteq> set_option (lm_process (ls_mgr (fold live_step evs live_init))) \<and>
         (is_running (fold live_step evs live_init) \<longleftrightarrow> running_procs (fold live_step evs live_init) \<noteq> [])"
proof -
  have "monitor_sessions live_init = {}" by (simp add: monitor_sessions_def live_init_def)
  then show ?thesis using live_inv_running fold_live_inv[OF live_init_inv assms] by simp
qed

text \<open>C32: a process that exits before \<open>start_live\<close> inserts its \<open>live_sessions\<close> row
  (its monitor has already run \<open>_on_live_exit\<close>, whose \<open>UPDATE\<close> found no row) leaves the
  row \<open>running\<close> for ever: no later step of any thread closes it.\<close>

theorem early_exit_leaves_session_running:
  assumes i: "i < length (ls_pending s)" and sid: "info_session_id (fst (ls_pending s ! i)) = sid"
    and new: "map_of (ls_sessions s) sid = None"
    and exited: "\<forall>mt \<in> set (ls_monitors s). mon_session mt = sid \<longrightarrow> mon_done mt"
    and fresh: "sid \<notin> set (start_sessions evs)"
  shows "\<exists>row. map_of (ls_sessions (fold live_step evs (live_step (InsertSession i) s))) sid = Some row \<and>
               ses_status row = SessionRunning"
proof -
  obtain info pre where p: "ls_pending s ! i = (info, pre)" by fastforce
  have "row_stuck sid (live_step (InsertSession i) s)"
    using i sid new exited p by (simp add: start_live_insert_def drop_pending_def row_stuck_def Let_def map_add_def)
  then show ?thesis using fold_row_stuck[OF _ fresh] by (simp add: row_stuck_def)
qed

text \<open>C33: every non-blank line a reader thread reads becomes the newest line that
  \<open>live_logs\<close> returns from memory for the current session, also when the reader belongs to
  an earlier session whose process was stopped: \<open>start\<close> clears the buffer, but the old
  reader keeps appending to it.\<close>

theorem reader_line_in_current_log:
  assumes r: "i < length (ls_readers s)" "\<not> rd_done (ls_readers s ! i)" and l: "rstrip_newlines line \<noteq> []"
    and cur: "lm_session_id (ls_mgr s) = Some sid" and n: "1 \<le> n" "n \<le> 5000"
  shows "\<exists>ls. live_logs sid n (live_step (ReadLine i line) s) = Inr (FromMemory, ls) \<and> ls \<noteq> [] \<and>
              last ls = rstrip_newlines line"
proof -
  let ?l = "rstrip_newlines line" and ?s' = "read_output_line i line s"
  have buf: "lm_log_buffer (ls_mgr ?s') = deque_append live_log_buffer_size (lm_log_buffer (ls_mgr s)) ?l"
    and sid: "lm_session_id (ls_mgr ?s') = Some sid"
    using r l cur by (simp_all add: read_output_line_def Let_def)
  define B where "B = lm_log_buffer (ls_mgr ?s')"
  have B: "lm_log_buffer (ls_mgr ?s') = B" "B \<noteq> []" "last B = ?l"
    using buf deque_append_last[of live_log_buffer_size "lm_log_buffer (ls_mgr s)" ?l]
    by (simp_all add: B_def live_log_buffer_size_def)
  have "tail_logs n ?s' = drop (length B - nat n) B" using n B(1) by (simp add: tail_logs_def)
  then have "tail_logs n ?s' \<noteq> [] \<and> last (tail_logs n ?s') = ?l" using drop_tail_last[of "nat n" B] n B by simp
  moreover have "live_logs sid n ?s' = Inr (FromMemory, tail_logs n ?s')"
    using n sid by (simp add: live_logs_def current_def Let_def)
  ultimately show ?thesis by simp
qed

subsection \<open>Witnesses\<close>

theorem single_live_instance_witness:
  "distinct (start_sessions restart_events) \<and>
   set (running_procs (fold live_step restart_events live_init)) \<subseteq> set_option (lm_process (ls_mgr (fold live_step restart_events live_init))) \<and>
   (is_running (fold live_step restart_events live_init) \<longleftrightarrow> running_procs (fold live_step restart_events live_init) \<noteq> [])"
proof -
  have d: "distinct (start_sessions restart_events)" by (simp add: restart_events_def session_of_uuid_def)
  show ?thesis using d single_live_instance[OF d] by blast
qed

theorem early_exit_leaves_session_running_witness:
  "\<exists>row. map_of (ls_sessions (fold live_step [MonitorExit 0 ''t2'', ReaderEOF 0]
           (live_step (InsertSession 0) (fold live_step early_exit_events live_init)))) ''live_0123456789ab'' = Some row \<and>
         ses_status row = SessionRunning"
proof -
  let ?s = "fold live_step early_exit_events live_init"
  have st: "ls_pending ?s = [(\<lparr>info_session_id = ''live_0123456789ab'', info_pid = 4100,
              info_cmdline = [''python'', ''app.py''], info_log_path = ''data/logs/live_0123456789ab.log'',
              info_started_at = ''t0''\<rparr>, None)]"
    "ls_sessions ?s = []"
    "ls_monitors ?s = [\<lparr>mon_proc = 0, mon_session = ''live_0123456789ab'', mon_on_exit = True, mon_done = True\<rparr>]"
    by (simp_all add: early_exit_events_def live_init_def new_live_manager_def start_live_def start_def is_running_def
        poll_def session_of_uuid_def live_log_path_def logs_dir_def set_returncode_def monitor_exit_def
        on_live_exit_def Let_def)
  show ?thesis
    by (rule early_exit_leaves_session_running) (simp_all add: st)
qed

theorem reader_line_in_current_log_witness:
  "rd_log_path (ls_readers (fold live_step restart_events live_init) ! 0) = ''data/logs/live_0123456789ab.log'' \<and>
   lm_session_id (ls_mgr (fold live_step restart_events live_init)) = Some ''live_fedcba987654'' \<and>
   (\<exists>ls. live_logs ''live_fedcba987654'' 200 (live_step (ReadLine 0 ''late line\<newline>'') (fold live_step restart_events live_init)) =
          Inr (FromMemory, ls) \<and> ls \<noteq> [] \<and> last ls = rstrip_newlines ''late line\<newline>'')"
proof -
  let ?s = "fold live_step restart_events live_init"
  have st: "ls_readers ?s = [\<lparr>rd_proc = 0, rd_log_path = ''data/logs/live_0123456789ab.log'', rd_done = False\<rparr>,
                               \<lparr>rd_proc = 1, rd_log_path = ''data/logs/live_fedcba987654.log'', rd_done = False\<rparr>]"
    "lm_session_id (ls_mgr ?s) = Some ''live_fedcba987654''"
    by (simp_all add: restart_events_def live_init_def new_live_manager_def start_live_def start_def is_running_def
        poll_def session_of_uuid_def live_log_path_def logs_dir_def read_output_line_def stop_live_def current_def
        stop_def set_returncode_def Let_def file_lines_def rstrip_newlines_def)
  have l: "rstrip_newlines ''late line\<newline>'' \<noteq> []" by (simp add: rstrip_newlines_def)
  show ?thesis
    using reader_line_in_current_log[of 0 ?s "''late line\<newline>''" "''live_fedcba987654''" 200] st l by simp
qed

end
