(* ===== verification/EngineApi.thy ===== *)
theory EngineApi
  imports AudioIngest CustomState
begin

text \<open>
  The engine's HTTP handlers in \<open>src/app.py\<close> that drive a running session:
  \<open>/human\<close>, \<open>/interrupt_talk\<close>, \<open>/set_audiotype\<close> and \<open>/is_speaking\<close>, with
  \<open>_resolve_sessionid\<close> and the session methods they call (\<open>BaseReal.put_msg_txt\<close>,
  \<open>flush_talk\<close>, \<open>set_custom_state\<close>, \<open>is_speaking\<close>).  A session is the part of a
  \<open>BaseReal\<close> these handlers reach: its ASR state, its custom-state fields, its speaking
  flag, and the message queue of its TTS engine.  The TTS classes are not part of the
  repository: their \<open>put_msg_txt\<close> appends to the message queue and their
  \<open>flush_talk\<close> empties it, as the engine's interface describes (the TTS classes of
  the upstream project also skip an empty message; the dispatcher never sends one).  A
  \<open>chat\<close> request hands its \<open>text\<close> value, \<open>None\<close> for a JSON null, to
  \<open>llm_response\<close> in an executor; the model keeps the request.  Every
  handler catches its exceptions and answers \<open>{"code": -1}\<close>.
\<close>

subsection \<open>Sessions and requests\<close>

text \<open>Texts are lists of Unicode code points (\<open>ustr\<close>), as JSON delivers them.\<close>

record ('s, 'e, 'f, 'img) engine_session =
  es_asr :: "('s, 'e, 'f) asr_state"
  es_custom :: "('s, 'img) custom_state"
  es_speaking :: bool
  es_tts_msgs :: "ustr list"
  es_chat :: "ustr option list"

type_synonym ('s, 'e, 'f, 'img) sessions = "int \<rightharpoonup> ('s, 'e, 'f, 'img) engine_session"

text \<open>A JSON value as \<open>request.json()\<close> gives it.\<close>

datatype json_val = JInt int | JFloat rat | JBool bool | JStr string | JNull

text \<open>\<open>int(x)\<close> on a JSON value: floats truncate toward zero, booleans are 0 and 1,
  strings are parsed, \<open>None\<close> raises.\<close>

definition py_int_of_json :: "json_val \<Rightarrow> int option" where
  "py_int_of_json v =
     (case v of
        JInt n \<Rightarrow> Some n
      | JFloat r \<Rightarrow> Some (if 0 \<le> r then \<lfloor>r\<rfloor> else - \<lfloor>- r\<rfloor>)
      | JBool b \<Rightarrow> Some (if b then 1 else 0)
      | JStr s \<Rightarrow> py_int s
      | JNull \<Rightarrow> None)"

text \<open>\<open>_resolve_sessionid\<close>: the session asked for if it exists, else session 0 if it
  exists, else \<open>KeyError\<close>.  A value \<open>int()\<close> rejects stays as it is and is no key.\<close>

definition resolve_sessionid :: "('s, 'e, 'f, 'img) sessions \<Rightarrow> json_val \<Rightarrow> py_error + int" where
  "resolve_sessionid ns raw =
     (case py_int_of_json raw of
        Some sid \<Rightarrow> if ns sid \<noteq> None then Inr sid else if ns 0 \<noteq> None then Inr 0 else Inl KeyError
      | None \<Rightarrow> if ns 0 \<noteq> None then Inr 0 else Inl KeyError)"

text \<open>\<open>BaseReal.flush_talk\<close>: the TTS engine's queue, then the ASR queues.\<close>

definition session_flush :: "('s, 'e, 'f, 'img) engine_session \<Rightarrow> ('s, 'e, 'f, 'img) engine_session" where
  "session_flush s = s\<lparr>es_tts_msgs := [], es_asr := flush_talk (es_asr s)\<rparr>"

definition put_msg_txt :: "ustr \<Rightarrow> ('s, 'e, 'f, 'img) engine_session \<Rightarrow> ('s, 'e, 'f, 'img) engine_session" where
  "put_msg_txt msg s = s\<lparr>es_tts_msgs := es_tts_msgs s @ [msg]\<rparr>"

datatype api_resp = ApiOk | ApiErr py_error

text \<open>A key of a JSON object: absent, present with \<open>null\<close>, or present with a value.\<close>

datatype 'a json_field = Absent | Null | Val 'a

text \<open>The JSON body of \<open>/human\<close>: \<open>sessionid\<close> (0 when absent), the truthiness of
  \<open>interrupt\<close>, and the fields \<open>type\<close> and \<open>text\<close> (string values).\<close>

record human_req =
  hr_sessionid :: json_val
  hr_interrupt :: bool
  hr_type :: "string json_field"
  hr_text :: "ustr json_field"

text \<open>
  \<open>human\<close>: an interrupt flushes first, so it stays done when the request then fails.
  \<open>params['type']\<close> raises \<open>KeyError\<close> when the key is absent; a null type matches
  neither branch, like an unknown type, and the answer is ok.  \<open>echo\<close> sends
  \<open>str(params.get('text', '') or '')\<close>: an absent, null or empty text is the empty
  message.  \<open>chat\<close> reads \<open>params['text']\<close>: absent raises \<open>KeyError\<close>, null is passed
  on as \<open>None\<close>.
\<close>

definition human ::
  "human_req \<Rightarrow> ('s, 'e, 'f, 'img) sessions \<Rightarrow> api_resp \<times> ('s, 'e, 'f, 'img) sessions" where
  "human req ns =
     (case resolve_sessionid ns (hr_sessionid req) of
        Inl e \<Rightarrow> (ApiErr e, ns)
      | Inr sid \<Rightarrow>
          (case ns sid of
             None \<Rightarrow> (ApiErr KeyError, ns)
           | Some s \<Rightarrow>
               let s1 = (if hr_interrupt req then session_flush s else s);
                   ns1 = ns(sid \<mapsto> s1)
               in case hr_type req of
                    Absent \<Rightarrow> (ApiErr KeyError, ns1)
                  | Null \<Rightarrow> (ApiOk, ns1)
                  | Val ty \<Rightarrow>
                      if ty = ''echo'' then
                        (ApiOk, ns1(sid \<mapsto> put_msg_txt (case hr_text req of Val t \<Rightarrow> t | _ \<Rightarrow> []) s1))
                      else if ty = ''chat'' then
                        (case hr_text req of
                           Absent \<Rightarrow> (ApiErr KeyError, ns1)
                         | Null \<Rightarrow> (ApiOk, ns1(sid \<mapsto> s1\<lparr>es_chat := es_chat s1 @ [None]\<rparr>))
                         | Val t \<Rightarrow> (ApiOk, ns1(sid \<mapsto> s1\<lparr>es_chat := es_chat s1 @ [Some t]\<rparr>)))
                      else (ApiOk, ns1)))"

definition interrupt_talk ::
  "json_val \<Rightarrow> ('s, 'e, 'f, 'img) sessions \<Rightarrow> api_resp \<times> ('s, 'e, 'f, 'img) sessions" where
  "interrupt_talk raw ns =
     (case resolve_sessionid ns raw of
        Inl e \<Rightarrow> (ApiErr e, ns)
      | Inr sid \<Rightarrow> (case ns sid of None \<Rightarrow> (ApiErr KeyError, ns) | Some s \<Rightarrow> (ApiOk, ns(sid \<mapsto> session_flush s))))"

text \<open>\<open>set_audiotype\<close>: \<open>params['audiotype']\<close> and \<open>params['reinit']\<close> raise when absent.\<close>

definition set_audiotype ::
  "json_val \<Rightarrow> int option \<Rightarrow> bool option \<Rightarrow> ('s, 'e, 'f, 'img) sessions \<Rightarrow> api_resp \<times> ('s, 'e, 'f, 'img) sessions" where
  "set_audiotype raw audiotype reinit ns =
     (case resolve_sessionid ns raw of
        Inl e \<Rightarrow> (ApiErr e, ns)
      | Inr sid \<Rightarrow>
          (case (ns sid, audiotype, reinit) of
             (Some s, Some t, Some r) \<Rightarrow> (ApiOk, ns(sid \<mapsto> s\<lparr>es_custom := set_custom_state t r (es_custom s)\<rparr>))
           | _ \<Rightarrow> (ApiErr KeyError, ns)))"

text \<open>\<open>is_speaking\<close>: \<open>{"code": 0, "data": speaking}\<close>, or \<open>{"code": -1, "data": False}\<close>.\<close>

definition is_speaking_api :: "json_val \<Rightarrow> ('s, 'e, 'f, 'img) sessions \<Rightarrow> int \<times> bool" where
  "is_speaking_api raw ns =
     (case resolve_sessionid ns raw of
        Inl _ \<Rightarrow> (-1, False)
      | Inr sid \<Rightarrow> (case ns sid of None \<Rightarrow> (-1, False) | Some s \<Rightarrow> (0, es_speaking s)))"

subsection \<open>Lemmas\<close>

lemma resolve_sessionid_range: "resolve_sessionid ns raw = Inr sid \<Longrightarrow> ns sid \<noteq> None"
  by (auto simp: resolve_sessionid_def split: option.splits if_splits)

text \<open>A request for a session that does not exist is served by session 0.\<close>

lemma resolve_unknown_falls_back:
  "ns 0 \<noteq> None \<Longrightarrow> (\<forall>sid. py_int_of_json raw = Some sid \<longrightarrow> ns sid = None) \<Longrightarrow> resolve_sessionid ns raw = Inr 0"
  by (auto simp: resolve_sessionid_def split: option.splits)

lemma resolve_no_session: "ns 0 = None \<Longrightarrow> py_int_of_json raw = Some sid \<Longrightarrow> ns sid = None \<Longrightarrow> resolve_sessionid ns raw = Inl KeyError"
  by (simp add: resolve_sessionid_def)

lemma session_flush_queues:
  "qitems (asr_queue (es_asr (session_flush s))) = [] \<and> qitems (asr_output (es_asr (session_flush s))) = [] \<and>
   qitems (asr_feat (es_asr (session_flush s))) = [] \<and> es_tts_msgs (session_flush s) = []"
  by (simp add: session_flush_def flush_talk_def drain_queue_eq)

end
