(* ===== verification/Spec2Isabelle.thy ===== *)
theory Spec2Isabelle
  imports BoundedQueue FrameIndex CustomState AudioIngest FeatureStage Inference Pipeline AVSync SpeechSegments Dispatcher JobRunner LiveRuntime EngineApi
begin

text \<open>
  \<^bold>\<open>A verification library of LiveTalking.\<close>

  LiveTalking drives a talking-head avatar from text.  Two programs cooperate.  The
  real-time engine (\<open>src/app.py\<close>, \<open>src/baseasr.py\<close>, \<open>src/museasr.py\<close>,
  \<open>src/basereal.py\<close>, \<open>src/musereal.py\<close>) is a pipeline of threads joined by bounded
  queues: a TTS thread pushes 20 ms audio chunks into the ASR ingest queue; the render
  loop extracts a feature batch from every \<open>2 * batch_size\<close> chunks and queues the
  chunks for the synthesis worker; the worker renders one face per feature frame (or idle
  results for silence) and queues \<open>(frame, index, audio pair)\<close>; the output thread pairs
  frames with audio, decides whether the avatar speaks and emits both.  The control plane
  (\<open>src/apps/control_api\<close>) is a FastAPI service over SQLite: it starts and stops the
  engine as a subprocess (\<open>live_runtime.py\<close>), runs avatar and voice clone jobs
  (\<open>job_runner.py\<close>) and feeds the engine's \<open>/human\<close> endpoint with reply, manual
  and playlist texts (\<open>speaker_dispatcher.py\<close>).

  \<^bold>\<open>Theories and what they model.\<close>  Every operation is a HOL function of the state,
  translated from the source; exceptions are values (\<open>py_error + _\<close>, option, or the
  component's error datatype); threads are events of a step function and a schedule is any
  list of events.
  \<^item> \<open>Prelude\<close>: Python exceptions, slicing, \<open>round\<close>, \<open>str.strip/lower\<close>, \<open>int()\<close> and
    \<open>float()\<close> parsing of environment values, the rate-limited log timestamp, and the list
    and association-list lemmas the components share.
  \<^item> \<open>BoundedQueue\<close>: \<open>queue.Queue(maxsize)\<close> as an item list with a bound, its
    \<open>put_nowait\<close>/\<open>get_nowait\<close>, and the drain and trim loops of \<open>baseasr.py\<close>.
  \<^item> \<open>FrameIndex\<close>: the ping-pong \<open>mirror_index\<close> of \<open>musereal.py\<close>/\<open>basereal.py\<close>.
  \<^item> \<open>CustomState\<close>: the custom clip dictionaries of \<open>BaseReal\<close> (\<open>__loadcustom\<close>,
    \<open>init_customindex\<close>, \<open>get_audio_stream\<close>, \<open>set_custom_state\<close>).
  \<^item> \<open>AudioIngest\<close>: \<open>BaseASR.__init__\<close> configuration, \<open>put_audio_frame\<close> with its block
    and drop policies, \<open>get_audio_frame\<close>, \<open>warm_up\<close>, \<open>flush_talk\<close>.
  \<^item> \<open>FeatureStage\<close>: \<open>MuseASR.run_step\<close> and \<open>_push_feat_with_backpressure\<close>, with the
    feature extractor as a parameter.
  \<^item> \<open>Inference\<close>: one iteration of \<open>musereal.inference\<close>: the feature \<open>get\<close> and
    the rest of the iteration (\<open>infer_finish\<close>: the audio gets, silence skip, latent
    indices, forward pass with the SDPA fallback, \<open>_push_realtime_audio_frames\<close>).
  \<^item> \<open>Pipeline\<close>: the TTS, render, inference and flush threads of one session as an
    interleaving over the shared ASR state (\<open>pipe_step\<close>, \<open>pipe_run\<close>); the worker's
    feature \<open>get\<close> (\<open>InferGet\<close>) and the rest of its iteration (\<open>Infer\<close>) are separate
    events, with the batch it holds in between (\<open>p_held\<close>).
  \<^item> \<open>AVSync\<close>: \<open>BaseReal.process_frames\<close>: silence classification, speaking hangover,
    frame choice with cross-fades, emission, realtime drain and backlog discard.
  \<^item> \<open>SpeechSegments\<close>: \<open>SpeakerDispatcher._split_text_for_speech\<close>.
  \<^item> \<open>Dispatcher\<close>: the rest of \<open>SpeakerDispatcher\<close>: the bounded priority queue, segmented
    tasks and follow-ups, endpoint resolution, the dispatch guard, task picking with
    prefetch and playlists, dispatch, retries, and the worker loop (\<open>loop_iteration\<close>).
    With other threads the loop is two steps, as \<open>self._lock\<close> splits it: the pick
    (\<open>loop_pick\<close>, under the lock) and the send with its bookkeeping (\<open>loop_send\<close>),
    with the task in flight in between (\<open>disp_system\<close>, \<open>disp_step\<close>).
  \<^item> \<open>JobRunner\<close>: the \<open>jobs\<close> table, the in-memory queue and cancel flags; create, retry,
    cancel, recovery at start, and the worker's \<open>_run_job\<close> in three steps (the take with
    its \<open>cancelled\<close> check, the \<open>UPDATE\<close> to \<open>running\<close> with the handler's start, and
    the handler's end), with \<open>_handle_job_failure\<close> and the back-off the worker sleeps
    through (\<open>jr_step\<close>).
  \<^item> \<open>LiveRuntime\<close>: \<open>LiveProcessManager\<close> (start, stop, the reader and monitor threads,
    \<open>tail_logs\<close>) and the live-session routes of \<open>main.py\<close> (\<open>start_live\<close> split at
    its \<open>INSERT\<close>, \<open>stop_live\<close>, \<open>live_logs\<close>, \<open>_on_live_exit\<close>), with the spawned
    processes and threads as events (\<open>live_step\<close>).
  \<^item> \<open>EngineApi\<close>: the session handlers of \<open>src/app.py\<close> (\<open>/human\<close>,
    \<open>/interrupt_talk\<close>, \<open>/set_audiotype\<close>, \<open>/is_speaking\<close>, \<open>_resolve_sessionid\<close>)
    over the sessions' ASR state, custom state, speaking flag and TTS message queue.
  \<^item> This theory: how the dispatcher's \<open>_send_text\<close> and \<open>_is_speaking\<close> meet the engine's
    handlers (\<open>send_text_req\<close>, \<open>send_outcome\<close>, \<open>speaking_outcome\<close>).

  \<^bold>\<open>What the lemmas show.\<close>  Each component theory ends with its properties and their
  witnesses (a concrete run where the hypotheses hold, evaluated by \<open>simp\<close>).
  \<^item> Invariants over every schedule: no chunk lost under the block policy
    (\<open>AudioIngest\<close>); under the Block policy of the feature queue, the batch the worker
    holds paired with exactly its audio, and gapless frame indices (\<open>Pipeline\<close>); a
    silent run never speaks (\<open>AVSync\<close>); dispatcher queue bounded by \<open>queue_cap + 1\<close>
    with priorities in range; finished jobs never change except through the check/start
    race; a single running engine process (\<open>LiveRuntime\<close>).
  \<^item> Functional behaviour of single operations on every branch, errors included: silence
    skip, SDPA fallback and the crash on other exceptions, hangover and fades, cancel of a
    running job, eviction on a full dispatcher queue.
  \<^item> Equivalence, refinement, termination and round trips: the dispatcher's insertion
    equals a stable sort by priority; an idle pick refines \<open>del_max\<close> of the abstract
    priority queue (\<open>Priority_Queue_Specs\<close> style); a failing task leaves the queue after
    its retries; the segments of a text are the stripped, non-empty pieces of a cut of the
    text, and are dispatched in order.
  \<^item> Composition (this theory): a text the dispatcher sends lands on the engine's session 0,
    an interrupt first flushing the TTS queue and the three ASR queues.
  \<^item> Findings: several theorems state behaviour that differs from the specification or from
    the code's own comments (misalignment after a rejected batch, a flush, or an eviction
    under the Drop policy while the worker holds a batch; an inference exception ending
    the worker; the dispatcher queue exceeding its cap after a failed send; a cancel
    overwritten by the job's start; a cancelled clone job ending \<open>failed\<close>; stale log
    lines in a new live session; a session row left \<open>running\<close>); \<open>PROJECT.json\<close> lists
    them.

  \<^bold>\<open>Bounds and loops.\<close>  No definition uses fuel.  Loops are structural recursion over the
  data they consume (the render result list of \<open>av_loop\<close>, the character list of the
  segmenter, the event list of a schedule) or \<open>function\<close>s with a measure (\<open>trim_to\<close>,
  \<open>drain_queue\<close>, \<open>discard_backlog\<close> on the queue length; \<open>followup_chain\<close> on the
  pending segments).  The blocking waits of the code (\<open>put(timeout=...)\<close>,
  \<open>audio_out_queue.get()\<close>, \<open>time.sleep\<close> of the back-offs) are modelled at the
  granularity of the interleaving: other threads' steps are scheduled before the attempt,
  and a wait that cannot finish leaves the state unchanged (\<open>Blocked\<close>).  The six
  \<open>put(timeout=0.2)\<close> attempts of the feature queue's Block policy are one check: with
  no consumer step between them they all see the same queue, and a consumer step that
  frees room before the last attempt is, in the interleaving, a step before the check.
  The \<open>2 * batch_size\<close> audio gets of the worker are one step: the worker is the output
  queue's only consumer, so taking the entries one by one or once all are queued takes
  the same entries.  The delay of the feeder thread of a \<open>multiprocessing\<close> queue is not
  modelled; a schedule may place any step of another thread before the item arrives.  Integers are Python's unbounded ints (\<open>int\<close>, \<open>nat\<close>);
  environment floats are \<open>rat\<close>.

  \<^bold>\<open>Not modelled.\<close>
  \<^item> The rest of \<open>src/app.py\<close>: argument parsing, model loading, the WebRTC \<open>/offer\<close>
    handshake, \<open>/humanaudio\<close> (audio decoding), \<open>/record\<close> and the aiohttp server wiring;
    they construct the modelled classes and move bytes, with no state of their own worth a
    theorem.
  \<^item> The neural networks (Whisper features, UNet/VAE, wav2lip) and the TTS engines: they
    are parameters with the contract the code relies on.
  \<^item> Transports: WebRTC tracks, the virtual camera and its audio device, recording and the
    watermark; emitted frames and audio are lists.
  \<^item> The remaining FastAPI routes, the pydantic schemas (\<open>schemas.py\<close>) and the SQL layer
    (\<open>database.py\<close>): request plumbing and storage around the dispatcher, the job runner
    and the live manager, whose state changes are modelled there; the tables those
    components use are association lists.
  \<^item> The clone handlers of the job runner (\<open>_handle_avatar_clone\<close>,
    \<open>_handle_voice_clone\<close>, \<open>preview_voice\<close>): subprocesses, files and HTTP, abstracted
    to their outcome.
  \<^item> Log messages, timestamps as strings, uuids and pids: inputs of the steps.
\<close>

subsection \<open>The dispatcher and the engine\<close>

text \<open>
  \<open>SpeakerDispatcher._send_text\<close> posts \<open>{"sessionid": 0, "type": "echo", "text": ...}\<close>,
  with \<open>"interrupt": true\<close> for an interrupt task, to the engine's \<open>/human\<close>
  (\<open>EngineApi.human\<close>); a response whose \<open>code\<close> is not 0 raises, which the dispatcher's
  loop sees as a send failure (\<open>li_send\<close>).  \<open>_is_speaking\<close> likewise turns the engine's
  \<open>{"code": -1}\<close> into a raised error (\<open>li_speaking = None\<close>).
\<close>

definition send_text_req :: "ustr \<Rightarrow> bool \<Rightarrow> human_req" where
  "send_text_req text interrupt =
     \<lparr>hr_sessionid = JInt 0, hr_interrupt = interrupt, hr_type = Val ''echo'', hr_text = Val text\<rparr>"

definition human_failed :: string where
  "human_failed = ''/human returned an error''"

definition send_outcome :: "api_resp \<Rightarrow> string option" where
  "send_outcome r = (case r of ApiOk \<Rightarrow> None | ApiErr _ \<Rightarrow> Some human_failed)"

definition speaking_outcome :: "int \<times> bool \<Rightarrow> bool option" where
  "speaking_outcome r = (case r of (code, data) \<Rightarrow> if code \<noteq> 0 then None else Some data)"

definition demo_session :: "(nat, nat, nat, nat) engine_session" where
  "demo_session =
     \<lparr>es_asr = \<lparr>asr_queue = (mk_queue 5)\<lparr>qitems := [([1, 2], 0)]\<rparr>, asr_output = (mk_queue 0)\<lparr>qitems := [([3], 0, None)]\<rparr>,
                asr_feat = (mk_queue 2)\<lparr>qitems := [7]\<rparr>, asr_frames = [], dropped_audio_chunks = 0,
                last_drop_log_ts = 0, dropped_feat_chunks = 0, last_feat_drop_log_ts = 0\<rparr>,
      es_custom = \<lparr>curr_state = 1, custom_img_cycle = Map.empty, custom_audio_cycle = Map.empty,
                   custom_audio_index = Map.empty, custom_index = Map.empty\<rparr>,
      es_speaking = True, es_tts_msgs = [[104, 105]], es_chat = []\<rparr>"

text \<open>With no session in the engine, \<open>/is_speaking\<close> fails and the dispatcher's loop leaves its
  queue as it is.\<close>

lemma no_session_no_dispatch:
  assumes "ns 0 = None"
  shows "d_queue (loop_iteration cfg (inp\<lparr>li_speaking := speaking_outcome (is_speaking_api (JInt 0) ns)\<rparr>) st) = d_queue st"
  using assms
  by (simp add: loop_iteration_def is_speaking_api_def resolve_sessionid_def py_int_of_json_def speaking_outcome_def Let_def)

text \<open>C34: a task the dispatcher sends reaches the engine's session 0 (the session a virtualcam
  engine runs): \<open>/human\<close> answers ok, so the dispatcher records no failure, and the text is
  queued last on the session's TTS engine; an interrupt task first flushes the session, so its
  text is the only one queued and the ingest, output and feature queues are empty.\<close>

theorem dispatch_reaches_engine:
  assumes s: "ns 0 = Some s"
  shows "human (send_text_req text intr) ns =
           (ApiOk, ns(0 \<mapsto> put_msg_txt text (if intr then session_flush s else s))) \<and>
         send_outcome (fst (human (send_text_req text intr) ns)) = None \<and>
         (intr \<longrightarrow>
            es_tts_msgs (put_msg_txt text (session_flush s)) = [text] \<and>
            qitems (asr_queue (es_asr (session_flush s))) = [] \<and> qitems (asr_output (es_asr (session_flush s))) = [] \<and>
            qitems (asr_feat (es_asr (session_flush s))) = [])"
  using s session_flush_queues[of s]
  by (simp add: human_def send_text_req_def resolve_sessionid_def py_int_of_json_def send_outcome_def put_msg_txt_def Let_def)

theorem dispatch_reaches_engine_witness:
  "human (send_text_req [72, 105] True) [0 \<mapsto> demo_session] =
     (ApiOk, [0 \<mapsto> demo_session](0 \<mapsto> put_msg_txt [72, 105] (session_flush demo_session))) \<and>
   send_outcome (fst (human (send_text_req [72, 105] True) [0 \<mapsto> demo_session])) = None \<and>
   es_tts_msgs (put_msg_txt [72, 105] (session_flush demo_session)) = [[72, 105]] \<and>
   qitems (asr_queue (es_asr (session_flush demo_session))) = [] \<and>
   qitems (asr_output (es_asr (session_flush demo_session))) = [] \<and>
   qitems (asr_feat (es_asr (session_flush demo_session))) = []"
proof -
  have s0: "[0 \<mapsto> demo_session] (0::int) = Some demo_session" by simp
  show ?thesis
    using dispatch_reaches_engine[of "[0 \<mapsto> demo_session]" demo_session "[72, 105]" True, OF s0, unfolded if_True]
    by blast
qed

end
